(* ===== verification/Prelude.thy ===== *)
theory Prelude
  imports Main "HOL-Library.Sublist" "HOL-Library.Char_ord"
begin

text \<open>
  Shared vocabulary of the event_finder development: the types that name the model's
  keys and clocks, the small pieces of Python and Django semantics that the request
  handlers of \<open>src/backend/event_app/views.py\<close> rely on (\<open>QueryDict.get\<close>, the
  truthiness of an optional string, \<open>str.lower\<close>, \<open>int(str)\<close>, the \<open>icontains\<close>
  lookup), and the generic list lemmas that the component theories share.
  Characters are Isabelle's 8-bit \<open>char\<close>: a string stands for its UTF-8 bytes, and
  the case and digit functions below act on ASCII exactly as Python and the database do.
\<close>

section \<open>Types and collections\<close>

type_synonym pk = nat
type_synonym timestamp = nat
type_synonym query_dict = "(string \<times> string) list"

named_theorems model_simps "evaluation rules of the model, used by the witnesses"
named_theorems wf_simps "facts that unfold the well-formedness invariant"

section \<open>Request parameters\<close>

text \<open>
  Django's \<open>QueryDict.get(key, None)\<close> returns the last value given for the key, or
  \<open>None\<close> when the key is absent. The query string is the list of its pairs in order.
\<close>

fun qd_get :: "query_dict \<Rightarrow> string \<Rightarrow> string option" where
  "qd_get [] k = None"
| "qd_get ((k', v) # ps) k =
     (case qd_get ps k of Some v' \<Rightarrow> Some v' | None \<Rightarrow> if k' = k then Some v else None)"

text \<open>\<open>if x:\<close> on the result of \<open>get\<close>: \<open>None\<close> and the empty string are false.\<close>

definition py_truthy :: "string option \<Rightarrow> bool" where
  "py_truthy x = (case x of None \<Rightarrow> False | Some s \<Rightarrow> s \<noteq> [])"

section \<open>Strings\<close>

text \<open>\<open>str.lower\<close> on ASCII: the 26 upper-case letters map to their lower-case forms.\<close>

definition ascii_lower :: "char \<Rightarrow> char" where
  "ascii_lower c =
     (case map_of (zip ''ABCDEFGHIJKLMNOPQRSTUVWXYZ'' ''abcdefghijklmnopqrstuvwxyz'') c of
        Some d \<Rightarrow> d
      | None \<Rightarrow> c)"

definition py_lower :: "string \<Rightarrow> string" where
  "py_lower s = map ascii_lower s"

text \<open>
  Django's \<open>icontains\<close> lookup (\<open>LIKE\<close> with ASCII case folding): the needle occurs
  as a contiguous part of the haystack, both lowered.
\<close>

definition icontains :: "string \<Rightarrow> string \<Rightarrow> bool" where
  "icontains hay needle = sublist (py_lower needle) (py_lower hay)"

subsection \<open>Python's \<open>int(str)\<close>\<close>

text \<open>
  \<open>int(s)\<close> strips surrounding whitespace, accepts one optional sign and then decimal
  digits in which single underscores may separate digits; anything else raises
  \<open>ValueError\<close>, here \<open>None\<close>. Only ASCII whitespace and digits are modelled.
\<close>

definition py_isspace :: "char \<Rightarrow> bool" where
  "py_isspace c = (c \<in> set [CHR '' '', CHR 0x09, CHR 0x0A, CHR 0x0B, CHR 0x0C, CHR 0x0D,
                              CHR 0x1C, CHR 0x1D, CHR 0x1E, CHR 0x1F])"

definition py_strip :: "string \<Rightarrow> string" where
  "py_strip s = rev (dropWhile py_isspace (rev (dropWhile py_isspace s)))"

definition is_digit :: "char \<Rightarrow> bool" where
  "is_digit c = (CHR ''0'' \<le> c \<and> c \<le> CHR ''9'')"

definition digit_val :: "char \<Rightarrow> nat" where
  "digit_val c = of_char c - of_char CHR ''0''"

fun parse_digits :: "nat \<Rightarrow> string \<Rightarrow> nat option" where
  "parse_digits acc [] = Some acc"
| "parse_digits acc (c # cs) =
     (if is_digit c then parse_digits (10 * acc + digit_val c) cs
      else if c = CHR ''_'' then
        (case cs of
           d # ds \<Rightarrow> if is_digit d then parse_digits (10 * acc + digit_val d) ds else None
         | [] \<Rightarrow> None)
      else None)"

definition parse_unsigned :: "string \<Rightarrow> nat option" where
  "parse_unsigned s = (case s of c # _ \<Rightarrow> if is_digit c then parse_digits 0 s else None | [] \<Rightarrow> None)"

definition py_int :: "string \<Rightarrow> int option" where
  "py_int s =
     (case py_strip s of
        c # r \<Rightarrow>
          if c = CHR ''-'' then map_option (\<lambda>n. - int n) (parse_unsigned r)
          else if c = CHR ''+'' then map_option int (parse_unsigned r)
          else map_option int (parse_unsigned (c # r))
      | [] \<Rightarrow> None)"

lemmas py_defs [model_simps] =
  py_truthy_def py_lower_def ascii_lower_def icontains_def py_isspace_def py_strip_def
  is_digit_def digit_val_def parse_unsigned_def py_int_def

lemmas sublist_eval [model_simps] = sublist_code prefix_code

subsection \<open>\<open>str(n)\<close>\<close>

fun nat_str :: "nat \<Rightarrow> string" where
  "nat_str n = (if n < 10 then [char_of (48 + n)] else nat_str (n div 10) @ [char_of (48 + n mod 10)])"

declare nat_str.simps [simp del]

section \<open>Tables\<close>

text \<open>
  A table is a list of rows in primary-key order. Saving a row writes it over the row
  with the same key (\<open>Model.save()\<close> on an existing instance).
\<close>

definition replace_by :: "('a \<Rightarrow> 'k) \<Rightarrow> 'a \<Rightarrow> 'a list \<Rightarrow> 'a list" where
  "replace_by key x xs = map (\<lambda>y. if key y = key x then x else y) xs"

section \<open>Generic lemmas\<close>

lemma map_key_replace_by [simp]: "map key (replace_by key x xs) = map key xs"
  by (induction xs) (auto simp: replace_by_def)

lemma set_replace_by:
  "set (replace_by key x xs) = {y \<in> set xs. key y \<noteq> key x} \<union> (if key x \<in> key ` set xs then {x} else {})"
  by (induction xs) (auto simp: replace_by_def)

lemma length_replace_by [simp]: "length (replace_by key x xs) = length xs"
  by (simp add: replace_by_def)

lemma filter_replace_by_other:
  "\<not> P x \<Longrightarrow> (\<forall>y \<in> set xs. key y = key x \<longrightarrow> \<not> P y) \<Longrightarrow> filter P (replace_by key x xs) = filter P xs"
  by (induction xs) (auto simp: replace_by_def)

lemma qd_get_None_iff: "qd_get ps k = None \<longleftrightarrow> k \<notin> fst ` set ps"
  by (induction ps) (auto split: option.splits)

lemma qd_get_Some_in: "qd_get ps k = Some v \<Longrightarrow> (k, v) \<in> set ps"
  by (induction ps) (auto split: option.splits if_splits)

lemma py_lower_length [simp]: "length (py_lower s) = length s"
  by (simp add: py_lower_def)

lemma parse_digits_mono: "parse_digits acc s = Some n \<Longrightarrow> acc \<le> n"
proof (induction acc s rule: parse_digits.induct)
  case (1 acc)
  then show ?case by simp
next
  case (2 acc c cs)
  then show ?case
    by (fastforce split: if_splits list.splits)
qed

lemma image_key_replace_by [simp]: "key ` set (replace_by key x xs) = key ` set xs"
  by (metis map_key_replace_by set_map)

lemma replace_by_absent: "key x \<notin> key ` set xs \<Longrightarrow> replace_by key x xs = xs"
  by (induction xs) (auto simp: replace_by_def)

lemma replace_by_simps [simp]:
  "replace_by key x [] = []"
  "replace_by key x (y # ys) = (if key y = key x then x else y) # replace_by key x ys"
  by (simp_all add: replace_by_def)

lemma length_filter_replace_by:
  "distinct (map key xs) \<Longrightarrow> y \<in> set xs \<Longrightarrow> key x = key y \<Longrightarrow> (P x \<longleftrightarrow> P y) \<Longrightarrow>
   length (filter P (replace_by key x xs)) = length (filter P xs)"
proof (induction xs)
  case Nil
  then show ?case by simp
next
  case (Cons z zs)
  show ?case
  proof (cases "key z = key x")
    case True
    with Cons.prems have "y = z" by (auto simp: image_iff)
    moreover from True Cons.prems(1) have "replace_by key x zs = zs"
      by (simp add: replace_by_absent)
    ultimately show ?thesis using True Cons.prems(4) by simp
  next
    case False
    with Cons show ?thesis by auto
  qed
qed

lemma distinct_map_replace_by:
  assumes "distinct (map key xs)" and "distinct (map f xs)"
    and "\<forall>y \<in> set xs. key y \<noteq> key x \<longrightarrow> f y \<noteq> f x"
  shows "distinct (map f (replace_by key x xs))"
  using assms
proof (induction xs)
  case Nil
  then show ?case by simp
next
  case (Cons y ys)
  show ?case
  proof (cases "key y = key x")
    case True
    with Cons.prems(1) have "replace_by key x ys = ys"
      by (auto intro: replace_by_absent)
    moreover have "key x \<notin> key ` set ys"
      using True Cons.prems(1) by auto
    have "\<forall>z \<in> set ys. f z \<noteq> f x"
    proof
      fix z
      assume z: "z \<in> set ys"
      with \<open>key x \<notin> key ` set ys\<close> have "key z \<noteq> key x" by (metis image_eqI)
      with z Cons.prems(3) show "f z \<noteq> f x" by simp
    qed
    then have "f x \<notin> f ` set ys"
      by force
    ultimately show ?thesis using True Cons.prems(2) by simp
  next
    case False
    with Cons have "distinct (map f (replace_by key x ys))" by simp
    moreover have "f y \<notin> f ` set (replace_by key x ys)"
      using False Cons.prems by (auto simp: set_replace_by split: if_splits)
    ultimately show ?thesis using False by simp
  qed
qed

lemma fresh_key_append:
  assumes "distinct (map key xs)" and "\<forall>y \<in> set xs. 0 < key y \<and> key y < n"
    and "0 < n" and "key x = n"
  shows "distinct (map key (xs @ [x])) \<and> (\<forall>y \<in> set (xs @ [x]). 0 < key y \<and> key y < Suc n)"
proof -
  have "n \<notin> key ` set xs"
  proof
    assume "n \<in> key ` set xs"
    then obtain y where "y \<in> set xs" "key y = n" by blast
    with assms(2) show False by auto
  qed
  with assms show ?thesis by (auto simp: less_Suc_eq)
qed

lemma image_keep_other: "x \<in> f ` A \<Longrightarrow> x \<noteq> k \<Longrightarrow> x \<in> f ` {y \<in> A. f y \<noteq> k}"
  by auto

lemma image_filter_compl:
  "x \<in> f ` A \<Longrightarrow> x \<notin> f ` {y \<in> A. P y} \<Longrightarrow> x \<in> f ` {y \<in> A. \<not> P y}"
  by auto

lemma find_key_Some:
  "k \<in> key ` set xs \<Longrightarrow> \<exists>x. find (\<lambda>x. key x = k) xs = Some x \<and> x \<in> set xs \<and> key x = k"
  by (induction xs) auto

lemma find_key_in: "find (\<lambda>x. key x = k) xs = Some x \<Longrightarrow> x \<in> set xs \<and> key x = k"
  by (induction xs) (auto split: if_splits)

(* Serializers *)

lemma distinct_key_eq: "distinct (map key xs) \<Longrightarrow> x \<in> set xs \<Longrightarrow> y \<in> set xs \<Longrightarrow> key x = key y \<Longrightarrow> x = y"
  by (metis distinct_map inj_on_eq_iff)

lemma find_key_mem: "find (\<lambda>x. key x = k) xs \<noteq> None \<Longrightarrow> k \<in> key ` set xs"
  by (induction xs) (auto split: if_splits)

subsection \<open>\<open>str(n)\<close> read back by \<open>int()\<close>\<close>

lemma of_char_digit: "d < 10 \<Longrightarrow> of_char (char_of (48 + d) :: char) = 48 + (d::nat)"
  by (simp add: of_char_of)

lemma digit_char_props:
  assumes "d < (10::nat)"
  shows "is_digit (char_of (48 + d))" "digit_val (char_of (48 + d)) = d"
    "\<not> py_isspace (char_of (48 + d))" "char_of (48 + d) \<noteq> CHR ''-''" "char_of (48 + d) \<noteq> CHR ''+''"
    "char_of (48 + d) \<noteq> CHR ''/''" "char_of (48 + d) \<noteq> CHR ''.''" "char_of (48 + d) \<noteq> CHR ''_''"
proof -
  have o: "of_char (char_of (48 + d) :: char) = 48 + d" using assms by (rule of_char_digit)
  have ne: "of_char c \<noteq> 48 + d \<Longrightarrow> char_of (48 + d) \<noteq> c" for c :: char
    using o by auto
  show "is_digit (char_of (48 + d))"
    using o assms by (simp add: is_digit_def less_eq_char_def)
  show "digit_val (char_of (48 + d)) = d"
    using o by (simp add: digit_val_def)
  have "py_isspace c \<Longrightarrow> of_char c \<noteq> 48 + d" for c :: char
    using assms by (auto simp: py_isspace_def)
  with o show "\<not> py_isspace (char_of (48 + d))" by metis
  show "char_of (48 + d) \<noteq> CHR ''-''" "char_of (48 + d) \<noteq> CHR ''+''"
    "char_of (48 + d) \<noteq> CHR ''/''" "char_of (48 + d) \<noteq> CHR ''.''" "char_of (48 + d) \<noteq> CHR ''_''"
    by (rule ne, use assms in simp)+
qed

lemma nat_str_digits: "c \<in> set (nat_str n) \<Longrightarrow> \<exists>d::nat. d < 10 \<and> c = char_of (48 + d)"
proof (induction n rule: nat_str.induct)
  case (1 n)
  show ?case
  proof (cases "n < 10")
    case True
    with 1 show ?thesis by (auto simp: nat_str.simps[of n])
  next
    case False
    with "1.prems" have "c \<in> set (nat_str (n div 10)) \<or> c = char_of (48 + n mod 10)"
      by (auto simp: nat_str.simps[of n])
    then show ?thesis
    proof
      assume "c = char_of (48 + n mod 10)"
      then show ?thesis by (intro exI [of _ "n mod 10"]) simp
    qed (use "1.IH" False in blast)
  qed
qed

lemma nat_str_not_Nil [simp]: "nat_str n \<noteq> []"
  by (subst nat_str.simps) simp

lemma parse_digits_nat_str:
  "parse_digits acc (nat_str n @ s) = parse_digits (acc * 10 ^ length (nat_str n) + n) s"
proof (induction n arbitrary: acc s rule: nat_str.induct)
  case (1 n)
  show ?case
  proof (cases "n < 10")
    case True
    then show ?thesis by (simp add: nat_str.simps[of n] digit_char_props mult.commute)
  next
    case False
    then have "nat_str n = nat_str (n div 10) @ [char_of (48 + n mod 10)]"
      by (simp add: nat_str.simps[of n])
    with False 1 show ?thesis
      by (simp add: digit_char_props algebra_simps)
  qed
qed

lemma py_strip_nat_str [simp]: "py_strip (nat_str n) = nat_str n"
proof -
  have "\<forall>c \<in> set (nat_str n). \<not> py_isspace c"
    using nat_str_digits digit_char_props(3) by blast
  moreover have drop: "\<forall>c \<in> set xs. \<not> py_isspace c \<Longrightarrow> dropWhile py_isspace xs = xs" for xs
    by (cases xs) simp_all
  ultimately have "dropWhile py_isspace (nat_str n) = nat_str n"
      "dropWhile py_isspace (rev (nat_str n)) = rev (nat_str n)"
    by (simp, metis set_rev)
  then show ?thesis
    by (simp add: py_strip_def)
qed


lemma py_int_nat_str: "py_int (nat_str n) = Some (int n)"
proof -
  obtain c r where cr: "nat_str n = c # r" by (cases "nat_str n") auto
  then obtain d :: nat where d: "d < 10" "c = char_of (48 + d)"
    using nat_str_digits [of c n] by auto
  have "parse_digits 0 (nat_str n @ []) = Some n"
    by (simp only: parse_digits_nat_str) simp
  moreover have "py_strip (nat_str n) = c # r" using cr py_strip_nat_str [of n] by simp
  ultimately show ?thesis
    using cr d by (simp add: py_int_def parse_unsigned_def digit_char_props del: py_strip_nat_str)
qed

lemma map_sum_eq_Inr: "map_sum f g x = Inr y \<longleftrightarrow> (\<exists>z. x = Inr z \<and> y = g z)"
  by (cases x) auto

end
