(* ===== verification/Models.thy ===== *)
theory Models
  imports Prelude
begin

text \<open>
  The data model of \<open>src/backend/event_app/models.py\<close>: the three Django models
  \<open>Category\<close>, \<open>Event\<close> and \<open>Attendance\<close> as records, their \<open>choices\<close> as
  datatypes, the user rows of \<open>django.contrib.auth\<close> that the app reads, and the database
  as a record of tables in primary-key order with one id sequence per table of the app.
  The ORM writes the handlers use are functions on that record: inserts take the next id
  of the sequence, saves write a row over the row with its key, and deletes follow the
  \<open>on_delete\<close> rule each foreign key declares (\<open>CASCADE\<close> or \<open>SET_NULL\<close>). The database
  constraints (foreign keys, \<open>unique_together\<close>) are checked at write time and a
  violation is an \<open>IntegrityError\<close>. The invariant \<open>db_wf\<close> collects what the schema
  guarantees of a database; every write keeps it.
\<close>

section \<open>Rows\<close>

text \<open>The fields of \<open>auth.User\<close> the application reads (serializers.py:8, views.py:76).\<close>

record user =
  user_id :: pk
  username :: string
  email :: string
  first_name :: string
  last_name :: string
  is_staff :: bool

record category =
  cat_id :: pk
  cat_name :: string
  cat_description :: "string option"

datatype event_status = Upcoming | Ongoing | Completed | Cancelled

text \<open>The value stored in the \<open>status\<close> column for each of \<open>STATUS_CHOICES\<close>.\<close>

fun event_status_value :: "event_status \<Rightarrow> string" where
  "event_status_value Upcoming = ''upcoming''"
| "event_status_value Ongoing = ''ongoing''"
| "event_status_value Completed = ''completed''"
| "event_status_value Cancelled = ''cancelled''"

definition event_status_of :: "string \<Rightarrow> event_status option" where
  "event_status_of s = find (\<lambda>st. event_status_value st = s) [Upcoming, Ongoing, Completed, Cancelled]"

record event =
  ev_id :: pk
  title :: string
  description :: string
  location :: string
  start_date :: timestamp
  end_date :: timestamp
  created_at :: timestamp
  updated_at :: timestamp
  ev_image :: "string option"
  organizer :: pk
  category :: "pk option"
  ev_status :: event_status
  is_featured :: bool
  max_attendees :: "nat option"

datatype attendance_status = Registered | Attended | Att_Cancelled

fun attendance_status_value :: "attendance_status \<Rightarrow> string" where
  "attendance_status_value Registered = ''registered''"
| "attendance_status_value Attended = ''attended''"
| "attendance_status_value Att_Cancelled = ''cancelled''"

definition attendance_status_of :: "string \<Rightarrow> attendance_status option" where
  "attendance_status_of s =
     find (\<lambda>st. attendance_status_value st = s) [Registered, Attended, Att_Cancelled]"

record attendance =
  att_id :: pk
  att_event :: pk
  att_user :: pk
  att_status :: attendance_status
  registered_at :: timestamp

section \<open>The database\<close>

record db =
  users :: "user list"
  categories :: "category list"
  events :: "event list"
  attendances :: "attendance list"
  next_category_id :: pk
  next_event_id :: pk
  next_attendance_id :: pk

datatype db_error = IntegrityError string

subsection \<open>Reads\<close>

definition find_user :: "db \<Rightarrow> pk \<Rightarrow> user option" where
  "find_user d k = find (\<lambda>u. user_id u = k) (users d)"

definition find_category :: "db \<Rightarrow> pk \<Rightarrow> category option" where
  "find_category d k = find (\<lambda>c. cat_id c = k) (categories d)"

definition find_event :: "db \<Rightarrow> pk \<Rightarrow> event option" where
  "find_event d k = find (\<lambda>e. ev_id e = k) (events d)"

definition find_attendance :: "db \<Rightarrow> pk \<Rightarrow> attendance option" where
  "find_attendance d k = find (\<lambda>a. att_id a = k) (attendances d)"

text \<open>The reverse managers of the foreign keys: \<open>event.attendances\<close> (models.py:46),
  \<open>user.event_attendances\<close> (models.py:47), \<open>user.organized_events\<close> (models.py:30).\<close>

definition event_attendances :: "db \<Rightarrow> pk \<Rightarrow> attendance list" where
  "event_attendances d eid = filter (\<lambda>a. att_event a = eid) (attendances d)"

definition user_attendances :: "db \<Rightarrow> pk \<Rightarrow> attendance list" where
  "user_attendances d uid = filter (\<lambda>a. att_user a = uid) (attendances d)"

definition organized_events :: "db \<Rightarrow> pk \<Rightarrow> event list" where
  "organized_events d uid = filter (\<lambda>e. organizer e = uid) (events d)"

text \<open>\<open>Attendance.objects.filter(event=event, user=user).exists()\<close> (views.py:49).\<close>

definition attendance_exists :: "db \<Rightarrow> pk \<Rightarrow> pk \<Rightarrow> bool" where
  "attendance_exists d eid uid = list_ex (\<lambda>a. att_event a = eid \<and> att_user a = uid) (attendances d)"

subsection \<open>Integrity constraints\<close>

definition fk_event_ok :: "db \<Rightarrow> event \<Rightarrow> bool" where
  "fk_event_ok d e \<longleftrightarrow>
     organizer e \<in> user_id ` set (users d) \<and>
     (\<forall>c \<in> set_option (category e). c \<in> cat_id ` set (categories d))"

definition fk_attendance_ok :: "db \<Rightarrow> attendance \<Rightarrow> bool" where
  "fk_attendance_ok d a \<longleftrightarrow>
     att_event a \<in> ev_id ` set (events d) \<and> att_user a \<in> user_id ` set (users d)"

text \<open>\<open>unique_together = ['event', 'user']\<close> (models.py:52) for a row about to be written
  with the key \<open>aid\<close>: no other row has its pair.\<close>

definition unique_pair_free :: "db \<Rightarrow> pk \<Rightarrow> pk \<Rightarrow> pk \<Rightarrow> bool" where
  "unique_pair_free d aid eid uid \<longleftrightarrow>
     \<not> list_ex (\<lambda>a. att_id a \<noteq> aid \<and> att_event a = eid \<and> att_user a = uid) (attendances d)"

subsection \<open>Writes\<close>

definition create_category :: "db \<Rightarrow> string \<Rightarrow> string option \<Rightarrow> category \<times> db" where
  "create_category d name descr =
     (let c = \<lparr>cat_id = next_category_id d, cat_name = name, cat_description = descr\<rparr>
      in (c, d\<lparr>categories := categories d @ [c], next_category_id := Suc (next_category_id d)\<rparr>))"

definition save_category :: "db \<Rightarrow> category \<Rightarrow> db" where
  "save_category d c = d\<lparr>categories := replace_by cat_id c (categories d)\<rparr>"

text \<open>\<open>on_delete=models.SET_NULL\<close> (models.py:31): the events of the category stay and
  lose their category. The collector issues an \<open>UPDATE\<close>, so \<open>updated_at\<close> is kept.\<close>

definition delete_category :: "db \<Rightarrow> pk \<Rightarrow> db" where
  "delete_category d cid =
     d\<lparr>categories := filter (\<lambda>c. cat_id c \<noteq> cid) (categories d),
       events := map (\<lambda>e. if category e = Some cid then e\<lparr>category := None\<rparr> else e) (events d)\<rparr>"

text \<open>An insert: the row gets the next id and both timestamps (\<open>auto_now_add\<close>,
  \<open>auto_now\<close>, models.py:27-28); the foreign keys must point at rows.\<close>

definition insert_event :: "db \<Rightarrow> event \<Rightarrow> timestamp \<Rightarrow> db_error + event \<times> db" where
  "insert_event d e now =
     (let e' = e\<lparr>ev_id := next_event_id d, created_at := now, updated_at := now\<rparr>
      in if fk_event_ok d e'
         then Inr (e', d\<lparr>events := events d @ [e'], next_event_id := Suc (next_event_id d)\<rparr>)
         else Inl (IntegrityError ''FOREIGN KEY constraint failed''))"

definition save_event :: "db \<Rightarrow> event \<Rightarrow> timestamp \<Rightarrow> db_error + event \<times> db" where
  "save_event d e now =
     (let e' = e\<lparr>updated_at := now\<rparr>
      in if fk_event_ok d e'
         then Inr (e', d\<lparr>events := replace_by ev_id e' (events d)\<rparr>)
         else Inl (IntegrityError ''FOREIGN KEY constraint failed''))"

text \<open>\<open>on_delete=models.CASCADE\<close> on \<open>Attendance.event\<close> (models.py:46).\<close>

definition delete_event :: "db \<Rightarrow> pk \<Rightarrow> db" where
  "delete_event d eid =
     d\<lparr>events := filter (\<lambda>e. ev_id e \<noteq> eid) (events d),
       attendances := filter (\<lambda>a. att_event a \<noteq> eid) (attendances d)\<rparr>"

text \<open>\<open>Attendance.objects.create(...)\<close>: the foreign keys and the unique pair are checked
  by the database; \<open>registered_at\<close> is \<open>auto_now_add\<close> (models.py:49).\<close>

definition insert_attendance ::
  "db \<Rightarrow> pk \<Rightarrow> pk \<Rightarrow> attendance_status \<Rightarrow> timestamp \<Rightarrow> db_error + attendance \<times> db" where
  "insert_attendance d eid uid st now =
     (let a = \<lparr>att_id = next_attendance_id d, att_event = eid, att_user = uid,
               att_status = st, registered_at = now\<rparr>
      in if \<not> fk_attendance_ok d a then Inl (IntegrityError ''FOREIGN KEY constraint failed'')
         else if \<not> unique_pair_free d (att_id a) eid uid
         then Inl (IntegrityError ''UNIQUE constraint failed: event_app_attendance.event_id, event_app_attendance.user_id'')
         else Inr (a, d\<lparr>attendances := attendances d @ [a],
                        next_attendance_id := Suc (next_attendance_id d)\<rparr>))"

definition save_attendance :: "db \<Rightarrow> attendance \<Rightarrow> db_error + attendance \<times> db" where
  "save_attendance d a =
     (if \<not> fk_attendance_ok d a then Inl (IntegrityError ''FOREIGN KEY constraint failed'')
      else if \<not> unique_pair_free d (att_id a) (att_event a) (att_user a)
      then Inl (IntegrityError ''UNIQUE constraint failed: event_app_attendance.event_id, event_app_attendance.user_id'')
      else Inr (a, d\<lparr>attendances := replace_by att_id a (attendances d)\<rparr>))"

definition delete_attendance :: "db \<Rightarrow> pk \<Rightarrow> db" where
  "delete_attendance d aid = d\<lparr>attendances := filter (\<lambda>a. att_id a \<noteq> aid) (attendances d)\<rparr>"

text \<open>Deleting a user: \<open>CASCADE\<close> on \<open>Event.organizer\<close> (models.py:30), which cascades on
  to the attendances of those events (models.py:46), and on \<open>Attendance.user\<close>
  (models.py:47).\<close>

definition delete_user :: "db \<Rightarrow> pk \<Rightarrow> db" where
  "delete_user d uid =
     (let gone = map ev_id (organized_events d uid)
      in d\<lparr>users := filter (\<lambda>u. user_id u \<noteq> uid) (users d),
           events := filter (\<lambda>e. organizer e \<noteq> uid) (events d),
           attendances := filter (\<lambda>a. att_user a \<noteq> uid \<and> att_event a \<notin> set gone) (attendances d)\<rparr>)"

text \<open>Users are created outside the API, by \<open>django.contrib.auth\<close>
  (\<open>User.objects.create_user\<close>, the admin); the primary key must be new.\<close>

definition create_user :: "db \<Rightarrow> user \<Rightarrow> db_error + db" where
  "create_user d u =
     (if user_id u \<in> user_id ` set (users d) then Inl (IntegrityError ''UNIQUE constraint failed: auth_user.id'')
      else Inr (d\<lparr>users := users d @ [u]\<rparr>))"

text \<open>A freshly migrated database: every table empty, every sequence at 1.\<close>

definition empty_db :: db where
  "empty_db = \<lparr>users = [], categories = [], events = [], attendances = [],
     next_category_id = 1, next_event_id = 1, next_attendance_id = 1\<rparr>"

section \<open>The invariant\<close>

definition ids_wf :: "db \<Rightarrow> bool" where
  "ids_wf d \<longleftrightarrow>
     distinct (map user_id (users d)) \<and>
     distinct (map cat_id (categories d)) \<and>
     (\<forall>c \<in> set (categories d). 0 < cat_id c \<and> cat_id c < next_category_id d) \<and>
     distinct (map ev_id (events d)) \<and>
     (\<forall>e \<in> set (events d). 0 < ev_id e \<and> ev_id e < next_event_id d) \<and>
     distinct (map att_id (attendances d)) \<and>
     (\<forall>a \<in> set (attendances d). 0 < att_id a \<and> att_id a < next_attendance_id d) \<and>
     0 < next_category_id d \<and> 0 < next_event_id d \<and> 0 < next_attendance_id d"

definition refs_wf :: "db \<Rightarrow> bool" where
  "refs_wf d \<longleftrightarrow>
     (\<forall>e \<in> set (events d). fk_event_ok d e) \<and> (\<forall>a \<in> set (attendances d). fk_attendance_ok d a)"

definition unique_wf :: "db \<Rightarrow> bool" where
  "unique_wf d \<longleftrightarrow> distinct (map (\<lambda>a. (att_event a, att_user a)) (attendances d))"

definition db_wf :: "db \<Rightarrow> bool" where
  "db_wf d \<longleftrightarrow> ids_wf d \<and> refs_wf d \<and> unique_wf d"

lemmas db_wf_defs [wf_simps] = db_wf_def ids_wf_def refs_wf_def unique_wf_def

lemmas model_defs [model_simps] =
  event_status_of_def attendance_status_of_def
  find_user_def find_category_def find_event_def find_attendance_def
  event_attendances_def user_attendances_def organized_events_def attendance_exists_def
  fk_event_ok_def fk_attendance_ok_def unique_pair_free_def
  create_category_def save_category_def delete_category_def insert_event_def save_event_def
  delete_event_def insert_attendance_def save_attendance_def delete_attendance_def delete_user_def
  create_user_def empty_db_def db_wf_defs

section \<open>Every write keeps the invariant\<close>

lemma fk_event_ok_upd [simp]:
  "fk_event_ok (d\<lparr>attendances := as\<rparr>) = fk_event_ok d"
  "fk_event_ok (d\<lparr>events := es\<rparr>) = fk_event_ok d"
  "fk_event_ok (d\<lparr>next_event_id := n\<rparr>) = fk_event_ok d"
  "fk_event_ok (d\<lparr>next_attendance_id := n\<rparr>) = fk_event_ok d"
  by (simp_all add: fun_eq_iff fk_event_ok_def)

lemma fk_attendance_ok_upd [simp]:
  "fk_attendance_ok (d\<lparr>attendances := as\<rparr>) = fk_attendance_ok d"
  "fk_attendance_ok (d\<lparr>categories := cs\<rparr>) = fk_attendance_ok d"
  "fk_attendance_ok (d\<lparr>next_category_id := n\<rparr>) = fk_attendance_ok d"
  "fk_attendance_ok (d\<lparr>next_attendance_id := n\<rparr>) = fk_attendance_ok d"
  by (simp_all add: fun_eq_iff fk_attendance_ok_def)

lemma insert_attendance_wf:
  assumes wf: "db_wf d" and ok: "insert_attendance d eid uid st now = Inr (a, d')"
  shows "db_wf d'"
proof -
  let ?n = "next_attendance_id d"
  from ok have fk: "fk_attendance_ok d a" and free: "unique_pair_free d ?n eid uid"
    and a: "a = \<lparr>att_id = ?n, att_event = eid, att_user = uid, att_status = st, registered_at = now\<rparr>"
    and d': "d' = d\<lparr>attendances := attendances d @ [a], next_attendance_id := Suc ?n\<rparr>"
    by (auto simp: insert_attendance_def Let_def split: if_splits)
  have fresh: "\<forall>b \<in> set (attendances d). att_id b < ?n"
    using wf by (simp add: db_wf_defs)
  have "ids_wf d'"
    using wf fresh by (auto simp: d' a db_wf_defs less_Suc_eq)
  moreover have "refs_wf d'"
    using wf fk by (simp add: d' db_wf_defs)
  moreover have "\<not> (\<exists>b \<in> set (attendances d). att_event b = eid \<and> att_user b = uid)"
  proof
    assume "\<exists>b \<in> set (attendances d). att_event b = eid \<and> att_user b = uid"
    then obtain b where "b \<in> set (attendances d)" "att_event b = eid" "att_user b = uid" by blast
    moreover from this(1) fresh have "att_id b \<noteq> ?n" by auto
    ultimately show False using free by (auto simp: unique_pair_free_def list_ex_iff)
  qed
  then have "(eid, uid) \<notin> set (map (\<lambda>b. (att_event b, att_user b)) (attendances d))"
    by auto
  then have "unique_wf d'"
    using wf by (simp add: d' a db_wf_defs)
  ultimately show ?thesis by (simp add: db_wf_def)
qed

lemma save_attendance_wf:
  assumes wf: "db_wf d" and ok: "save_attendance d a = Inr (a', d')"
  shows "db_wf d'"
proof -
  from ok have fk: "fk_attendance_ok d a" and free: "unique_pair_free d (att_id a) (att_event a) (att_user a)"
    and d': "d' = d\<lparr>attendances := replace_by att_id a (attendances d)\<rparr>"
    by (auto simp: save_attendance_def split: if_splits)
  have "ids_wf d'"
    using wf by (auto simp: d' db_wf_defs set_replace_by)
  moreover have "refs_wf d'"
    using wf fk by (auto simp: d' db_wf_defs set_replace_by)
  moreover have "unique_wf d'"
    using wf free unfolding d' db_wf_defs unique_pair_free_def list_ex_iff
    by (auto intro!: distinct_map_replace_by)
  ultimately show ?thesis by (simp add: db_wf_def)
qed

lemma ev_id_clear_category [simp]:
  "ev_id (if category e = Some cid then e\<lparr>category := None\<rparr> else e) = ev_id e"
  "ev_id \<circ> (\<lambda>e. if category e = Some cid then e\<lparr>category := None\<rparr> else e) = ev_id"
  by (simp_all add: fun_eq_iff)

lemma delete_category_wf: "db_wf d \<Longrightarrow> db_wf (delete_category d cid)"
proof -
  assume wf: "db_wf d"
  let ?d' = "delete_category d cid"
  have "map ev_id (events ?d') = map ev_id (events d)"
    by (simp add: delete_category_def)
  then have ev: "ev_id ` set (events ?d') = ev_id ` set (events d)"
    by (metis set_map)
  have "ids_wf ?d'"
    using wf by (auto simp: delete_category_def db_wf_defs distinct_map_filter)
  moreover have "\<forall>e \<in> set (events ?d'). fk_event_ok ?d' e"
  proof
    fix e
    assume "e \<in> set (events ?d')"
    then obtain e0 where e0: "e0 \<in> set (events d)"
      and e: "e = (if category e0 = Some cid then e0\<lparr>category := None\<rparr> else e0)"
      by (auto simp: delete_category_def)
    from wf e0 have "fk_event_ok d e0" by (simp add: db_wf_defs)
    then show "fk_event_ok ?d' e"
      using e by (auto simp: fk_event_ok_def delete_category_def intro: image_keep_other)
  qed
  moreover have "\<forall>a \<in> set (attendances ?d'). fk_attendance_ok ?d' a"
    using wf ev by (simp add: db_wf_defs fk_attendance_ok_def) (simp add: delete_category_def)
  moreover have "unique_wf ?d'"
    using wf by (simp add: delete_category_def db_wf_defs)
  ultimately show ?thesis by (simp add: db_wf_def refs_wf_def)
qed

lemma delete_user_wf: "db_wf d \<Longrightarrow> db_wf (delete_user d uid)"
proof -
  assume wf: "db_wf d"
  let ?d' = "delete_user d uid"
  have "ids_wf ?d'"
    using wf by (simp add: delete_user_def db_wf_defs distinct_map_filter)
  moreover have "\<forall>e \<in> set (events ?d'). fk_event_ok ?d' e"
    using wf by (auto simp: delete_user_def db_wf_defs fk_event_ok_def)
  moreover have "\<forall>a \<in> set (attendances ?d'). fk_attendance_ok ?d' a"
  proof
    fix a
    assume "a \<in> set (attendances ?d')"
    then have a: "a \<in> set (attendances d)" "att_user a \<noteq> uid"
      "att_event a \<notin> ev_id ` {e \<in> set (events d). organizer e = uid}"
      by (auto simp: delete_user_def organized_events_def)
    with wf have "att_event a \<in> ev_id ` set (events d)" "att_user a \<in> user_id ` set (users d)"
      by (auto simp: db_wf_defs fk_attendance_ok_def)
    with a show "fk_attendance_ok ?d' a"
      by (auto simp: delete_user_def fk_attendance_ok_def intro: image_filter_compl)
  qed
  moreover have "unique_wf ?d'"
    using wf by (simp add: delete_user_def db_wf_defs distinct_map_filter)
  ultimately show ?thesis by (simp add: db_wf_def refs_wf_def)
qed

lemma delete_attendance_wf: "db_wf d \<Longrightarrow> db_wf (delete_attendance d aid)"
  by (auto simp: delete_attendance_def db_wf_defs fk_attendance_ok_def fk_event_ok_def distinct_map_filter
       split: option.splits)

lemma delete_event_wf: "db_wf d \<Longrightarrow> db_wf (delete_event d eid)"
  by (auto simp: delete_event_def db_wf_defs fk_attendance_ok_def fk_event_ok_def distinct_map_filter
       split: option.splits)

lemma insert_event_wf:
  assumes wf: "db_wf d" and ok: "insert_event d e now = Inr (e', d')"
  shows "db_wf d'"
proof -
  from ok have fk: "fk_event_ok d e'" and key: "ev_id e' = next_event_id d"
    and d': "d' = d\<lparr>events := events d @ [e'], next_event_id := Suc (next_event_id d)\<rparr>"
    by (auto simp: insert_event_def Let_def split: if_splits)
  from wf have "ids_wf d'"
    using fresh_key_append [of ev_id "events d" "next_event_id d" e'] key
    by (simp add: d' db_wf_defs)
  moreover from wf fk have "refs_wf d' \<and> unique_wf d'"
    by (auto simp: d' db_wf_defs fk_attendance_ok_def)
  ultimately show ?thesis by (simp add: db_wf_def)
qed

lemma save_event_wf:
  assumes wf: "db_wf d" and ok: "save_event d e now = Inr (e', d')"
  shows "db_wf d'"
proof -
  from ok have fk: "fk_event_ok d e'" and e': "e' = e\<lparr>updated_at := now\<rparr>"
    and d': "d' = d\<lparr>events := replace_by ev_id e' (events d)\<rparr>"
    by (auto simp: save_event_def Let_def split: if_splits)
  have "ids_wf d'"
    using wf by (auto simp: d' db_wf_defs set_replace_by)
  moreover have "\<forall>x \<in> set (events d'). fk_event_ok d' x"
    using wf fk by (auto simp: d' db_wf_defs set_replace_by)
  moreover have "\<forall>a \<in> set (attendances d'). fk_attendance_ok d' a"
    using wf by (simp add: d' db_wf_defs fk_attendance_ok_def)
  moreover have "unique_wf d'"
    using wf by (simp add: d' db_wf_defs)
  ultimately show ?thesis by (simp add: db_wf_def refs_wf_def)
qed

lemma create_category_wf:
  assumes wf: "db_wf d" and c: "create_category d name descr = (c, d')"
  shows "db_wf d'"
proof -
  from c have d': "d' = d\<lparr>categories := categories d @ [c], next_category_id := Suc (next_category_id d)\<rparr>"
    and key: "cat_id c = next_category_id d"
    by (auto simp: create_category_def Let_def)
  from wf have "ids_wf d'"
    using fresh_key_append [of cat_id "categories d" "next_category_id d" c] key
    by (simp add: d' db_wf_defs)
  moreover from wf have "refs_wf d' \<and> unique_wf d'"
    by (auto simp: d' db_wf_defs fk_event_ok_def fk_attendance_ok_def)
  ultimately show ?thesis by (simp add: db_wf_def)
qed

lemma save_category_wf: "db_wf d \<Longrightarrow> db_wf (save_category d c)"
proof -
  assume wf: "db_wf d"
  then have "ids_wf (save_category d c)"
    by (auto simp: save_category_def db_wf_defs set_replace_by)
  moreover have "refs_wf (save_category d c) \<and> unique_wf (save_category d c)"
    using wf by (simp add: save_category_def db_wf_defs fk_event_ok_def fk_attendance_ok_def)
  ultimately show ?thesis by (simp add: db_wf_def)
qed

lemma create_user_wf: "db_wf d \<Longrightarrow> create_user d u = Inr d' \<Longrightarrow> db_wf d'"
  by (auto simp: create_user_def db_wf_defs fk_event_ok_def fk_attendance_ok_def split: if_splits)

lemma empty_db_wf: "db_wf empty_db"
  by (simp add: empty_db_def db_wf_defs)

section \<open>Cascades\<close>

lemma find_user_in: "find_user d k \<noteq> None \<Longrightarrow> k \<in> user_id ` set (users d)"
  unfolding find_user_def by (rule find_key_mem)

lemma find_category_in: "find_category d k \<noteq> None \<Longrightarrow> k \<in> cat_id ` set (categories d)"
  unfolding find_category_def by (rule find_key_mem)

lemma save_event_ok:
  "fk_event_ok d (e\<lparr>updated_at := now\<rparr>) \<Longrightarrow>
   save_event d e now = Inr (e\<lparr>updated_at := now\<rparr>, d\<lparr>events := replace_by ev_id (e\<lparr>updated_at := now\<rparr>) (events d)\<rparr>)"
  by (simp add: save_event_def Let_def)

lemma fk_event_ok_updated_at [simp]: "fk_event_ok d (e\<lparr>updated_at := t\<rparr>) = fk_event_ok d e"
  by (simp add: fk_event_ok_def)

lemma fresh_event_no_attendances:
  "db_wf d \<Longrightarrow> event_attendances d (next_event_id d) = []"
proof -
  assume wf: "db_wf d"
  have "\<forall>a \<in> set (attendances d). att_event a \<noteq> next_event_id d"
  proof
    fix a assume a: "a \<in> set (attendances d)"
    with wf obtain e where "e \<in> set (events d)" "ev_id e = att_event a"
      by (auto simp: db_wf_defs fk_attendance_ok_def)
    with wf show "att_event a \<noteq> next_event_id d" by (auto simp: db_wf_defs)
  qed
  then show ?thesis by (simp add: event_attendances_def filter_empty_conv)
qed

lemma insert_attendance_ok:
  assumes "eid \<in> ev_id ` set (events d)" and "uid \<in> user_id ` set (users d)"
    and "\<not> attendance_exists d eid uid"
  shows "insert_attendance d eid uid st now =
           Inr (\<lparr>att_id = next_attendance_id d, att_event = eid, att_user = uid, att_status = st,
                  registered_at = now\<rparr>,
                d\<lparr>attendances := attendances d @ [\<lparr>att_id = next_attendance_id d, att_event = eid,
                     att_user = uid, att_status = st, registered_at = now\<rparr>],
                  next_attendance_id := Suc (next_attendance_id d)\<rparr>)"
  using assms
  by (auto simp: insert_attendance_def fk_attendance_ok_def unique_pair_free_def attendance_exists_def
        list_ex_iff Let_def)

lemma insert_attendance_events:
  "insert_attendance d eid uid st now = Inr (a, d') \<Longrightarrow>
     events d' = events d \<and> users d' = users d \<and> attendances d' = attendances d @ [a] \<and>
     att_event a = eid \<and> att_user a = uid"
  by (auto simp: insert_attendance_def Let_def split: if_splits)

text \<open>C12: Deleting a user (the on_delete rules of models.py) removes the user, every event the user organizes, every attendance row of the user and every attendance row of those events; every other event and attendance row stays, and the database stays well formed.\<close>

theorem delete_user_cascade:
  assumes wf: "db_wf d"
  shows "db_wf (delete_user d uid) \<and> uid \<notin> user_id ` set (users (delete_user d uid)) \<and>
    (\<forall>e \<in> set (events (delete_user d uid)). organizer e \<noteq> uid) \<and>
    (\<forall>a \<in> set (attendances (delete_user d uid)). att_user a \<noteq> uid) \<and>
    (\<forall>e \<in> set (events d). organizer e \<noteq> uid \<longrightarrow> e \<in> set (events (delete_user d uid))) \<and>
    (\<forall>a \<in> set (attendances d). att_user a \<noteq> uid \<and> att_event a \<notin> ev_id ` set (organized_events d uid)
        \<longrightarrow> a \<in> set (attendances (delete_user d uid)))"
  using delete_user_wf [OF wf] by (auto simp: delete_user_def)

end
