(* ===== verification/Http.thy ===== *)
theory Http
  imports Models
begin

text \<open>
  The request/response layer the view sets of \<open>src/backend/event_app/views.py\<close> run in,
  as Django REST framework provides it: a request (method, authenticated user, query
  string, the clock of the request), the two permission classes the views name
  (\<open>IsAuthenticated\<close>, \<open>IsAuthenticatedOrReadOnly\<close>), and the errors a handler can
  end in, each with its HTTP status. These parts are framework code, not in the
  repository; they are modelled from the framework's documented behaviour.
\<close>

datatype http_method = GET | HEAD | OPTIONS | POST | PUT | PATCH | DELETE

record request =
  req_method :: http_method
  req_user :: "pk option"
  req_query :: query_dict
  req_now :: timestamp

text \<open>\<open>SAFE_METHODS = ('GET', 'HEAD', 'OPTIONS')\<close>.\<close>

definition safe_method :: "http_method \<Rightarrow> bool" where
  "safe_method m \<longleftrightarrow> m \<in> set [GET, HEAD, OPTIONS]"

definition is_authenticated :: "request \<Rightarrow> bool" where
  "is_authenticated r \<longleftrightarrow> req_user r \<noteq> None"

definition is_authenticated_or_read_only :: "request \<Rightarrow> bool" where
  "is_authenticated_or_read_only r \<longleftrightarrow> safe_method (req_method r) \<or> req_user r \<noteq> None"

text \<open>
  A validation failure carries the field errors (field name, message) in the
  serializer's field order; \<open>non_field_errors\<close> is the name the validators report under.
  \<open>MethodNotAllowed\<close> is the answer of a route to a method it does not map.
  \<open>ServerError\<close> is an exception the handler does not catch (HTTP 500).
\<close>

datatype api_error =
    NotAuthenticated
  | NotFound
  | BadRequest string
  | Invalid "(string \<times> string) list"
  | MethodNotAllowed
  | ServerError string

text \<open>\<open>NotAuthenticated\<close> is 403 under the framework's default authentication classes,
  whose first class (session authentication) sends no \<open>WWW-Authenticate\<close> header.\<close>

fun error_status :: "api_error \<Rightarrow> nat" where
  "error_status NotAuthenticated = 403"
| "error_status NotFound = 404"
| "error_status (BadRequest _) = 400"
| "error_status (Invalid _) = 400"
| "error_status MethodNotAllowed = 405"
| "error_status (ServerError _) = 500"

text \<open>A successful response: its status and body.\<close>

type_synonym 'a response = "api_error + nat \<times> 'a"

text \<open>The case splits a handler's result needs: the response (\<open>sum\<close>), the pair of
  result and new database, the optional rows and representations, and the database's
  \<open>IntegrityError\<close>.\<close>

lemmas handler_splits = sum.splits prod.splits option.splits db_error.splits

lemmas http_defs [model_simps] =
  safe_method_def is_authenticated_def is_authenticated_or_read_only_def

end
