(* ===== verification/Serializers.thy ===== *)
theory Serializers
  imports Http
begin

text \<open>
  The serializers of \<open>src/backend/event_app/serializers.py\<close>. On the way out, a row
  becomes its JSON representation: \<open>user_repr\<close> (\<open>UserSerializer\<close>), \<open>event_repr\<close>
  (\<open>EventSerializer\<close>, with the nested organizer, the \<open>category_name\<close> passthrough and
  the \<open>attendees_count\<close> computed from the live table) and \<open>attendance_repr\<close>
  (\<open>AttendanceSerializer\<close>, with the nested event and user). A dangling foreign key
  makes the representation fail (\<open>None\<close>), as the ORM's \<open>DoesNotExist\<close> would.
  On the way in, the fields the framework derives from the model fields are validated
  (required, blank, maximal length, existing primary key, choice, minimum) and, for an
  attendance, the \<open>UniqueTogetherValidator\<close> of the serializer's \<open>Meta\<close> runs after
  the fields; the result is the list of field errors or the input to apply.
\<close>

section \<open>Representations\<close>

record user_out =
  uo_id :: pk
  uo_username :: string
  uo_email :: string
  uo_first_name :: string
  uo_last_name :: string

definition user_repr :: "user \<Rightarrow> user_out" where
  "user_repr u = \<lparr>uo_id = user_id u, uo_username = username u, uo_email = email u,
                  uo_first_name = first_name u, uo_last_name = last_name u\<rparr>"

record event_out =
  eo_id :: pk
  eo_title :: string
  eo_description :: string
  eo_location :: string
  eo_start_date :: timestamp
  eo_end_date :: timestamp
  eo_created_at :: timestamp
  eo_updated_at :: timestamp
  eo_image :: "string option"
  eo_organizer :: user_out
  eo_category :: "pk option"
  eo_category_name :: "string option"
  eo_status :: string
  eo_is_featured :: bool
  eo_max_attendees :: "nat option"
  eo_attendees_count :: nat

text \<open>\<open>get_attendees_count\<close>: \<open>obj.attendances.count()\<close>, every status counted.\<close>

definition get_attendees_count :: "db \<Rightarrow> event \<Rightarrow> nat" where
  "get_attendees_count d e = length (event_attendances d (ev_id e))"

text \<open>\<open>ReadOnlyField(source='category.name')\<close>: no name without a category.\<close>

definition category_name_of :: "db \<Rightarrow> event \<Rightarrow> string option" where
  "category_name_of d e = Option.bind (category e) (\<lambda>c. map_option cat_name (find_category d c))"

definition event_repr :: "db \<Rightarrow> event \<Rightarrow> event_out option" where
  "event_repr d e =
     map_option (\<lambda>u. \<lparr>eo_id = ev_id e, eo_title = title e, eo_description = description e,
        eo_location = location e, eo_start_date = start_date e, eo_end_date = end_date e,
        eo_created_at = created_at e, eo_updated_at = updated_at e, eo_image = ev_image e,
        eo_organizer = user_repr u, eo_category = category e,
        eo_category_name = category_name_of d e, eo_status = event_status_value (ev_status e),
        eo_is_featured = is_featured e, eo_max_attendees = max_attendees e,
        eo_attendees_count = get_attendees_count d e\<rparr>)
       (find_user d (organizer e))"

record attendance_out =
  ao_id :: pk
  ao_event :: event_out
  ao_user :: user_out
  ao_status :: string
  ao_registered_at :: timestamp

definition attendance_repr :: "db \<Rightarrow> attendance \<Rightarrow> attendance_out option" where
  "attendance_repr d a =
     (case find_event d (att_event a) of
        None \<Rightarrow> None
      | Some e \<Rightarrow>
          (case find_user d (att_user a) of
             None \<Rightarrow> None
           | Some u \<Rightarrow>
               map_option (\<lambda>eo. \<lparr>ao_id = att_id a, ao_event = eo, ao_user = user_repr u,
                   ao_status = attendance_status_value (att_status a),
                   ao_registered_at = registered_at a\<rparr>)
                 (event_repr d e)))"

text \<open>\<open>many=True\<close>: every row of the query set, in order.\<close>

definition repr_many :: "('a \<Rightarrow> 'b option) \<Rightarrow> 'a list \<Rightarrow> 'b list option" where
  "repr_many f xs = those (map f xs)"

section \<open>Input\<close>

text \<open>A field of a request body that may be nullable: absent, \<open>null\<close>, or a value.\<close>

datatype 'a field = Absent | Null | Given 'a

definition apply_field :: "'a field \<Rightarrow> 'a option \<Rightarrow> 'a option" where
  "apply_field f old = (case f of Absent \<Rightarrow> old | Null \<Rightarrow> None | Given x \<Rightarrow> Some x)"

definition msg_required :: string where "msg_required = ''This field is required.''"
definition msg_null :: string where "msg_null = ''This field may not be null.''"
definition msg_blank :: string where "msg_blank = ''This field may not be blank.''"

definition msg_max_length :: "nat \<Rightarrow> string" where
  "msg_max_length n = ''Ensure this field has no more than '' @ nat_str n @ '' characters.''"

definition msg_invalid_pk :: "pk \<Rightarrow> string" where
  "msg_invalid_pk k = ''Invalid pk \"'' @ nat_str k @ ''\" - object does not exist.''"

definition msg_invalid_choice :: "string \<Rightarrow> string" where
  "msg_invalid_choice s = ''\"'' @ s @ ''\" is not a valid choice.''"

definition msg_unique :: string where
  "msg_unique = ''You have already registered for this event.''"

subsection \<open>Field validators\<close>

text \<open>
  A \<open>CharField\<close> (from a model \<open>CharField\<close> or \<open>TextField\<close> without \<open>blank=True\<close>):
  the value is stripped first, then may not be blank nor longer than \<open>max_length\<close>.
  In a partial update (\<open>PATCH\<close>) no field is required.
\<close>

definition char_field_errors ::
  "bool \<Rightarrow> string \<Rightarrow> nat option \<Rightarrow> string option \<Rightarrow> (string \<times> string) list" where
  "char_field_errors partial name maxlen v =
     (case v of
        None \<Rightarrow> if partial then [] else [(name, msg_required)]
      | Some s \<Rightarrow>
          (let t = py_strip s
           in if t = [] then [(name, msg_blank)]
              else (case maxlen of
                      Some n \<Rightarrow> if n < length t then [(name, msg_max_length n)] else []
                    | None \<Rightarrow> []))) "

definition required_errors :: "bool \<Rightarrow> string \<Rightarrow> 'a option \<Rightarrow> (string \<times> string) list" where
  "required_errors partial name v = (if v = None \<and> \<not> partial then [(name, msg_required)] else [])"

text \<open>A \<open>PrimaryKeyRelatedField\<close>: the key must name a row of its query set.\<close>

definition pk_field_errors ::
  "bool \<Rightarrow> bool \<Rightarrow> bool \<Rightarrow> string \<Rightarrow> (pk \<Rightarrow> bool) \<Rightarrow> pk field \<Rightarrow> (string \<times> string) list" where
  "pk_field_errors partial required allow_null name exists v =
     (case v of
        Absent \<Rightarrow> if required \<and> \<not> partial then [(name, msg_required)] else []
      | Null \<Rightarrow> if allow_null then [] else [(name, msg_null)]
      | Given k \<Rightarrow> if exists k then [] else [(name, msg_invalid_pk k)])"

definition choice_errors :: "string \<Rightarrow> (string \<Rightarrow> 'a option) \<Rightarrow> string option \<Rightarrow> (string \<times> string) list" where
  "choice_errors name parse v =
     (case v of None \<Rightarrow> [] | Some s \<Rightarrow> if parse s = None then [(name, msg_invalid_choice s)] else [])"

subsection \<open>Event input\<close>

record event_in =
  ei_title :: "string option"
  ei_description :: "string option"
  ei_location :: "string option"
  ei_start_date :: "timestamp option"
  ei_end_date :: "timestamp option"
  ei_image :: "string field"
  ei_organizer_id :: "pk field"
  ei_category :: "pk field"
  ei_status :: "string option"
  ei_is_featured :: "bool option"
  ei_max_attendees :: "int field"

text \<open>The writable fields of \<open>EventSerializer\<close> in its field order (serializers.py:27-30):
  \<open>organizer_id\<close> is required and not nullable (serializers.py:17-21); \<open>category\<close>,
  \<open>image\<close> and \<open>max_attendees\<close> are nullable and optional (\<open>null=True\<close>);
  \<open>max_attendees\<close> lies in the range Django gives \<open>PositiveIntegerField\<close>, 0 to 2147483647
  (\<open>integer_field_ranges\<close>), which the serializer checks as \<open>min_value\<close> and \<open>max_value\<close>.\<close>

definition event_in_errors :: "db \<Rightarrow> bool \<Rightarrow> event_in \<Rightarrow> (string \<times> string) list" where
  "event_in_errors d partial i =
     char_field_errors partial ''title'' (Some 200) (ei_title i) @
     char_field_errors partial ''description'' None (ei_description i) @
     char_field_errors partial ''location'' (Some 200) (ei_location i) @
     required_errors partial ''start_date'' (ei_start_date i) @
     required_errors partial ''end_date'' (ei_end_date i) @
     pk_field_errors partial True False ''organizer_id'' (\<lambda>k. find_user d k \<noteq> None) (ei_organizer_id i) @
     pk_field_errors partial False True ''category'' (\<lambda>k. find_category d k \<noteq> None) (ei_category i) @
     choice_errors ''status'' event_status_of (ei_status i) @
     (case ei_max_attendees i of
        Given n \<Rightarrow>
          if n < 0 then [(''max_attendees'', ''Ensure this value is greater than or equal to 0.'')]
          else if 2147483647 < n then [(''max_attendees'', ''Ensure this value is less than or equal to 2147483647.'')]
          else []
      | _ \<Rightarrow> [])"

text \<open>\<open>serializer.save()\<close>: the validated fields are written over the instance (or over
  the model defaults when creating); fields not sent keep their value.\<close>

definition apply_event_in :: "event \<Rightarrow> event_in \<Rightarrow> event" where
  "apply_event_in e i =
     e\<lparr>title := case_option (title e) py_strip (ei_title i),
       description := case_option (description e) py_strip (ei_description i),
       location := case_option (location e) py_strip (ei_location i),
       start_date := case_option (start_date e) id (ei_start_date i),
       end_date := case_option (end_date e) id (ei_end_date i),
       ev_image := apply_field (ei_image i) (ev_image e),
       organizer := (case ei_organizer_id i of Given k \<Rightarrow> k | _ \<Rightarrow> organizer e),
       category := apply_field (ei_category i) (category e),
       ev_status := case_option (ev_status e) id (Option.bind (ei_status i) event_status_of),
       is_featured := case_option (is_featured e) id (ei_is_featured i),
       max_attendees := apply_field (map_field nat (ei_max_attendees i)) (max_attendees e)\<rparr>"

text \<open>The model defaults (models.py:32-34) a new row starts from.\<close>

definition event_defaults :: event where
  "event_defaults = \<lparr>ev_id = 0, title = [], description = [], location = [], start_date = 0,
     end_date = 0, created_at = 0, updated_at = 0, ev_image = None, organizer = 0, category = None,
     ev_status = Upcoming, is_featured = False, max_attendees = None\<rparr>"

subsection \<open>Attendance input\<close>

record attendance_in =
  ai_event_id :: "pk field"
  ai_user_id :: "pk field"
  ai_status :: "string option"

text \<open>\<open>UniqueTogetherValidator(fields=['event', 'user'])\<close> (serializers.py:52-57): on
  create the pair may not exist; on update it is checked only when the pair changes, and
  the instance itself is excluded.\<close>

definition unique_together_errors ::
  "db \<Rightarrow> attendance option \<Rightarrow> pk \<Rightarrow> pk \<Rightarrow> (string \<times> string) list" where
  "unique_together_errors d inst eid uid =
     (let changed = (case inst of None \<Rightarrow> True | Some a \<Rightarrow> eid \<noteq> att_event a \<or> uid \<noteq> att_user a);
          clash = list_ex (\<lambda>b. (case inst of None \<Rightarrow> True | Some a \<Rightarrow> att_id b \<noteq> att_id a)
                               \<and> att_event b = eid \<and> att_user b = uid) (attendances d)
      in if changed \<and> clash then [(''non_field_errors'', msg_unique)] else [])"

definition given_or :: "'a field \<Rightarrow> 'a \<Rightarrow> 'a" where
  "given_or f x = (case f of Given y \<Rightarrow> y | _ \<Rightarrow> x)"

text \<open>Field errors first (\<open>event_id\<close>, \<open>user_id\<close>, \<open>status\<close>); the validator runs
  only on valid fields, with the fields a partial update leaves out taken from the
  instance.\<close>

definition attendance_in_errors ::
  "db \<Rightarrow> bool \<Rightarrow> attendance option \<Rightarrow> attendance_in \<Rightarrow> (string \<times> string) list" where
  "attendance_in_errors d partial inst i =
     (let errs = pk_field_errors partial True False ''event_id'' (\<lambda>k. find_event d k \<noteq> None) (ai_event_id i) @
                 pk_field_errors partial True False ''user_id'' (\<lambda>k. find_user d k \<noteq> None) (ai_user_id i) @
                 choice_errors ''status'' attendance_status_of (ai_status i)
      in if errs \<noteq> [] then errs
         else unique_together_errors d inst
                (given_or (ai_event_id i) (case inst of Some a \<Rightarrow> att_event a | None \<Rightarrow> 0))
                (given_or (ai_user_id i) (case inst of Some a \<Rightarrow> att_user a | None \<Rightarrow> 0)))"

lemmas serializer_defs [model_simps] =
  user_repr_def get_attendees_count_def category_name_of_def event_repr_def attendance_repr_def
  repr_many_def apply_field_def msg_required_def msg_null_def msg_blank_def msg_max_length_def
  msg_invalid_pk_def msg_invalid_choice_def msg_unique_def char_field_errors_def required_errors_def
  pk_field_errors_def choice_errors_def event_in_errors_def apply_event_in_def event_defaults_def
  unique_together_errors_def given_or_def attendance_in_errors_def

section \<open>Representations exist under the invariant\<close>

lemma event_repr_Some:
  "fk_event_ok d e \<Longrightarrow> \<exists>out. event_repr d e = Some out \<and> eo_id out = ev_id e
     \<and> uo_id (eo_organizer out) = organizer e
     \<and> eo_attendees_count out = length (event_attendances d (ev_id e))"
  using find_key_Some [of "organizer e" user_id "users d"]
  by (auto simp: event_repr_def fk_event_ok_def find_user_def get_attendees_count_def user_repr_def)

lemma attendance_repr_Some:
  assumes "db_wf d" and "a \<in> set (attendances d)"
  shows "\<exists>out. attendance_repr d a = Some out \<and> ao_id out = att_id a
           \<and> ao_status out = attendance_status_value (att_status a)
           \<and> uo_id (ao_user out) = att_user a \<and> eo_id (ao_event out) = att_event a"
proof -
  from assms have fk: "fk_attendance_ok d a" by (simp add: db_wf_defs)
  then obtain e where e: "find_event d (att_event a) = Some e" "e \<in> set (events d)" "ev_id e = att_event a"
    using find_key_Some [of "att_event a" ev_id "events d"]
    by (auto simp: fk_attendance_ok_def find_event_def)
  from fk obtain u where u: "find_user d (att_user a) = Some u" "user_id u = att_user a"
    using find_key_Some [of "att_user a" user_id "users d"]
    by (auto simp: fk_attendance_ok_def find_user_def)
  from assms e have "fk_event_ok d e" by (simp add: db_wf_defs)
  then obtain eo where "event_repr d e = Some eo" "eo_id eo = ev_id e"
    using event_repr_Some by blast
  with e u show ?thesis by (simp add: attendance_repr_def user_repr_def)
qed

text \<open>\<open>many=True\<close> over rows of a well-formed database succeeds, row by row.\<close>

lemma repr_many_attendance:
  assumes "db_wf d" and "set xs \<subseteq> set (attendances d)"
  shows "\<exists>outs. repr_many (attendance_repr d) xs = Some outs \<and> map ao_id outs = map att_id xs
           \<and> map (\<lambda>x. uo_id (ao_user x)) outs = map att_user xs"
  using assms(2)
proof (induction xs)
  case Nil
  then show ?case by (simp add: repr_many_def)
next
  case (Cons a xs)
  then obtain outs where outs: "repr_many (attendance_repr d) xs = Some outs"
      "map ao_id outs = map att_id xs" "map (\<lambda>x. uo_id (ao_user x)) outs = map att_user xs"
    by auto
  from Cons.prems assms(1) obtain out where "attendance_repr d a = Some out" "ao_id out = att_id a"
      "uo_id (ao_user out) = att_user a"
    using attendance_repr_Some [of d a] by auto
  with outs show ?case by (simp add: repr_many_def)
qed

section \<open>Validated input keeps the foreign keys\<close>

lemma event_in_errors_Nil:
  "event_in_errors d p i = [] \<Longrightarrow>
     pk_field_errors p True False ''organizer_id'' (\<lambda>k. find_user d k \<noteq> None) (ei_organizer_id i) = [] \<and>
     pk_field_errors p False True ''category'' (\<lambda>k. find_category d k \<noteq> None) (ei_category i) = []"
  by (simp add: event_in_errors_def)

lemma apply_event_in_sel [simp]:
  "organizer (apply_event_in e i) = (case ei_organizer_id i of Given k \<Rightarrow> k | _ \<Rightarrow> organizer e)"
  "category (apply_event_in e i) = apply_field (ei_category i) (category e)"
  "ev_id (apply_event_in e i) = ev_id e"
  by (simp_all add: apply_event_in_def)

lemma event_in_organizer_ok:
  assumes errs: "event_in_errors d p i = []" and org: "organizer e \<in> user_id ` set (users d)"
  shows "organizer (apply_event_in e i) \<in> user_id ` set (users d)"
proof (cases "ei_organizer_id i")
  case Absent
  with org show ?thesis by simp
next
  case Null
  with event_in_errors_Nil [OF errs] show ?thesis by (simp add: pk_field_errors_def)
next
  case (Given u)
  with event_in_errors_Nil [OF errs] have "find_user d u \<noteq> None"
    by (simp add: pk_field_errors_def split: if_splits)
  with Given show ?thesis by (simp add: find_user_in)
qed

lemma event_in_category_ok:
  assumes errs: "event_in_errors d p i = []"
    and cat: "\<forall>c \<in> set_option (category e). c \<in> cat_id ` set (categories d)"
  shows "\<forall>c \<in> set_option (category (apply_event_in e i)). c \<in> cat_id ` set (categories d)"
proof (cases "ei_category i")
  case Absent
  with cat show ?thesis by (simp add: apply_field_def)
next
  case Null
  then show ?thesis by (simp add: apply_field_def)
next
  case (Given c)
  with event_in_errors_Nil [OF errs] have "find_category d c \<noteq> None"
    by (simp add: pk_field_errors_def split: if_splits)
  with Given show ?thesis by (simp add: apply_field_def find_category_in)
qed

lemma event_in_fk:
  "event_in_errors d p i = [] \<Longrightarrow> fk_event_ok d e \<Longrightarrow> fk_event_ok d (apply_event_in e i)"
  unfolding fk_event_ok_def using event_in_organizer_ok event_in_category_ok by blast

lemma char_field_ok:
  "char_field_errors p n (Some m) (Some s) = [] \<Longrightarrow> 0 < length (py_strip s) \<and> length (py_strip s) \<le> m"
  by (auto simp: char_field_errors_def Let_def split: if_splits)

lemma event_repr_id: "event_repr d e = Some out \<Longrightarrow> eo_id out = ev_id e"
  by (auto simp: event_repr_def split: option.splits)

end
