(* ===== verification/Filters.thy ===== *)
theory Filters
  imports Http "HOL-Library.Multiset"
begin

text \<open>
  The two filter backends the view sets of \<open>src/backend/event_app/views.py\<close> declare
  (\<open>filter_backends = [filters.SearchFilter, filters.OrderingFilter]\<close>, views.py:13
  and 21), from Django REST framework, modelled over any row type: a view set hands
  in its \<open>search_fields\<close> as getters and its \<open>ordering_fields\<close> as named sort keys.
  \<open>SearchFilter\<close> keeps the rows in which every search term occurs, case-insensitively,
  in one of the search fields. \<open>OrderingFilter\<close> sorts by the valid terms of the
  \<open>ordering\<close> parameter, a leading \<open>-\<close> for descending; the sort is a stable insertion
  sort, so rows with equal keys keep their order (a database promises no order for
  ties; the lemmas below hold for every order of ties).
\<close>

section \<open>Python string splitting\<close>

text \<open>\<open>s.split()\<close>: maximal runs of non-whitespace.\<close>

fun py_split_acc :: "string \<Rightarrow> string \<Rightarrow> string list" where
  "py_split_acc cur [] = (if cur = [] then [] else [rev cur])"
| "py_split_acc cur (c # cs) =
     (if py_isspace c then (if cur = [] then py_split_acc [] cs else rev cur # py_split_acc [] cs)
      else py_split_acc (c # cur) cs)"

definition py_split :: "string \<Rightarrow> string list" where
  "py_split s = py_split_acc [] s"

text \<open>\<open>s.split(sep)\<close>: every separator splits, empty parts stay.\<close>

fun split_on_acc :: "char \<Rightarrow> string \<Rightarrow> string \<Rightarrow> string list" where
  "split_on_acc sep cur [] = [rev cur]"
| "split_on_acc sep cur (c # cs) =
     (if c = sep then rev cur # split_on_acc sep [] cs else split_on_acc sep (c # cur) cs)"

definition split_on :: "char \<Rightarrow> string \<Rightarrow> string list" where
  "split_on sep s = split_on_acc sep [] s"

section \<open>SearchFilter\<close>

text \<open>\<open>get_search_terms\<close>: the \<open>search\<close> parameter without NUL characters, commas read
  as spaces, split on whitespace.\<close>

definition search_terms :: "query_dict \<Rightarrow> string list" where
  "search_terms q =
     (case qd_get q ''search'' of
        None \<Rightarrow> []
      | Some p \<Rightarrow> py_split (map (\<lambda>c. if c = CHR '','' then CHR '' '' else c) (filter (\<lambda>c. c \<noteq> CHR 0x00) p)))"

text \<open>A field that is \<open>NULL\<close> (\<open>None\<close>) contains no term.\<close>

definition search_match :: "('a \<Rightarrow> string option) list \<Rightarrow> string \<Rightarrow> 'a \<Rightarrow> bool" where
  "search_match sfields t x \<longleftrightarrow> list_ex (\<lambda>f. case f x of None \<Rightarrow> False | Some s \<Rightarrow> icontains s t) sfields"

definition search_filter :: "('a \<Rightarrow> string option) list \<Rightarrow> query_dict \<Rightarrow> 'a list \<Rightarrow> 'a list" where
  "search_filter sfields q xs =
     (let ts = search_terms q
      in if ts = [] then xs else filter (\<lambda>x. list_all (\<lambda>t. search_match sfields t x) ts) xs)"

section \<open>OrderingFilter\<close>

datatype cmp = LT | EQ | GT

datatype sort_key = KNat nat | KStr string

fun cmp_str :: "string \<Rightarrow> string \<Rightarrow> cmp" where
  "cmp_str [] [] = EQ"
| "cmp_str [] (_ # _) = LT"
| "cmp_str (_ # _) [] = GT"
| "cmp_str (x # xs) (y # ys) = (if x < y then LT else if y < x then GT else cmp_str xs ys)"

fun cmp_key :: "sort_key \<Rightarrow> sort_key \<Rightarrow> cmp" where
  "cmp_key (KNat a) (KNat b) = (if a < b then LT else if b < a then GT else EQ)"
| "cmp_key (KStr a) (KStr b) = cmp_str a b"
| "cmp_key (KNat _) (KStr _) = LT"
| "cmp_key (KStr _) (KNat _) = GT"

fun flip_cmp :: "cmp \<Rightarrow> cmp" where
  "flip_cmp LT = GT"
| "flip_cmp EQ = EQ"
| "flip_cmp GT = LT"

text \<open>\<open>order_by(t1, t2, ...)\<close>: the first term that tells the rows apart decides.\<close>

fun cmp_terms :: "(('a \<Rightarrow> sort_key) \<times> bool) list \<Rightarrow> 'a \<Rightarrow> 'a \<Rightarrow> cmp" where
  "cmp_terms [] x y = EQ"
| "cmp_terms ((k, desc) # ts) x y =
     (let c = cmp_key (k x) (k y) in
      if c = EQ then cmp_terms ts x y else if desc then flip_cmp c else c)"

fun insort_cmp :: "('a \<Rightarrow> 'a \<Rightarrow> cmp) \<Rightarrow> 'a \<Rightarrow> 'a list \<Rightarrow> 'a list" where
  "insort_cmp c x [] = [x]"
| "insort_cmp c x (y # ys) = (if c x y = GT then y # insort_cmp c x ys else x # y # ys)"

fun sort_cmp :: "('a \<Rightarrow> 'a \<Rightarrow> cmp) \<Rightarrow> 'a list \<Rightarrow> 'a list" where
  "sort_cmp c [] = []"
| "sort_cmp c (x # xs) = insort_cmp c x (sort_cmp c xs)"

text \<open>\<open>remove_invalid_fields\<close>: a term is valid when, without one leading \<open>-\<close>, it is
  one of the view's \<open>ordering_fields\<close>.\<close>

definition term_field :: "string \<Rightarrow> string \<times> bool" where
  "term_field t = (case t of c # r \<Rightarrow> if c = CHR ''-'' then (r, True) else (t, False) | [] \<Rightarrow> (t, False))"

definition ordering_terms :: "(string \<times> ('a \<Rightarrow> sort_key)) list \<Rightarrow> query_dict \<Rightarrow> (('a \<Rightarrow> sort_key) \<times> bool) list" where
  "ordering_terms valid q =
     (case qd_get q ''ordering'' of
        None \<Rightarrow> []
      | Some p \<Rightarrow>
          if p = [] then []
          else List.map_filter (\<lambda>t. let (f, desc) = term_field t in map_option (\<lambda>k. (k, desc)) (map_of valid f))
                 (map py_strip (split_on CHR '','' p)))"

text \<open>No valid term and no default \<open>ordering\<close> on the view: the rows stay as they are.\<close>

definition ordering_filter :: "(string \<times> ('a \<Rightarrow> sort_key)) list \<Rightarrow> query_dict \<Rightarrow> 'a list \<Rightarrow> 'a list" where
  "ordering_filter valid q xs =
     (let ts = ordering_terms valid q in if ts = [] then xs else sort_cmp (cmp_terms ts) xs)"

lemmas filter_defs [model_simps] =
  py_split_def split_on_def search_terms_def search_match_def search_filter_def term_field_def
  ordering_terms_def ordering_filter_def

section \<open>Lemmas\<close>

lemma mset_insort_cmp [simp]: "mset (insort_cmp c x xs) = add_mset x (mset xs)"
  by (induction xs) auto

lemma mset_sort_cmp [simp]: "mset (sort_cmp c xs) = mset xs"
  by (induction xs) auto

lemma set_sort_cmp [simp]: "set (sort_cmp c xs) = set xs"
  by (metis mset_sort_cmp set_mset_mset)

lemma set_ordering_filter [simp]: "set (ordering_filter valid q xs) = set xs"
  by (simp add: ordering_filter_def Let_def)

lemma mset_ordering_filter [simp]: "mset (ordering_filter valid q xs) = mset xs"
  by (simp add: ordering_filter_def Let_def)

lemma set_search_filter: "set (search_filter sfields q xs) \<subseteq> set xs"
  by (auto simp: search_filter_def Let_def)

lemma insort_cmp_insort_key:
  "(\<And>x y. c x y = GT \<longleftrightarrow> f y < f x) \<Longrightarrow> insort_cmp c x xs = insort_key f x xs"
  by (induction xs) (auto simp: not_le)

lemma sort_cmp_sort_key:
  "(\<And>x y. c x y = GT \<longleftrightarrow> f y < f x) \<Longrightarrow> sort_cmp c xs = sort_key f xs"
  by (induction xs) (simp_all add: insort_cmp_insort_key)

lemma cmp_terms_nat_asc: "cmp_terms [(\<lambda>x. KNat (f x), False)] x y = GT \<longleftrightarrow> f y < f x"
  by (simp add: Let_def)

lemma cmp_terms_nat_desc: "cmp_terms [(\<lambda>x. KNat (f x), True)] x y = GT \<longleftrightarrow> f x < f y"
  by (auto simp: Let_def)

end
