(* ===== verification/EventViews.thy ===== *)
theory EventViews
  imports Serializers Filters
begin

text \<open>
  \<open>EventViewSet\<close> (src/backend/event_app/views.py:17-67). Every handler of the view set
  starts from \<open>get_queryset\<close> (the \<open>category\<close>, \<open>status\<close> and \<open>featured\<close> query
  parameters) and the two filter backends; \<open>get_object\<close> looks the primary key up in
  that filtered query set, so the query parameters of a detail request decide whether
  the event is found. \<open>register\<close> is the registration flow: duplicate check, capacity
  check, insert; \<open>attendees\<close> lists the event's attendance rows. The generic handlers of
  \<open>ModelViewSet\<close> (list, retrieve, create, update, destroy) come from the framework;
  \<open>perform_create\<close> is overridden to set the organizer to the requester.
\<close>

section \<open>The query set\<close>

text \<open>\<open>queryset.filter(category__id=category)\<close> converts the parameter with \<open>int()\<close>;
  a parameter \<open>int()\<close> rejects raises \<open>ValueError\<close>, which no code catches.\<close>

definition filter_category :: "string option \<Rightarrow> event list \<Rightarrow> api_error + event list" where
  "filter_category category_p qs =
     (if py_truthy category_p then
        (case py_int (the category_p) of
           None \<Rightarrow> Inl (ServerError ''ValueError: Field 'id' expected a number'')
         | Some k \<Rightarrow> Inr (filter (\<lambda>e. map_option int (category e) = Some k) qs))
      else Inr qs)"

definition event_get_queryset :: "query_dict \<Rightarrow> event list \<Rightarrow> api_error + event list" where
  "event_get_queryset q evs =
     (let category_p = qd_get q ''category'';
          status_param = qd_get q ''status'';
          featured = qd_get q ''featured''
      in case filter_category category_p evs of
           Inl err \<Rightarrow> Inl err
         | Inr qs1 \<Rightarrow>
             (let qs2 = (if py_truthy status_param
                         then filter (\<lambda>e. event_status_value (ev_status e) = the status_param) qs1
                         else qs1)
              in Inr (if py_truthy featured \<and> py_lower (the featured) = ''true''
                      then filter is_featured qs2 else qs2)))"

text \<open>\<open>search_fields\<close> and \<open>ordering_fields\<close> (views.py:22-23).\<close>

definition event_search_fields :: "(event \<Rightarrow> string option) list" where
  "event_search_fields = [\<lambda>e. Some (title e), \<lambda>e. Some (description e), \<lambda>e. Some (location e)]"

definition event_ordering_fields :: "(string \<times> (event \<Rightarrow> sort_key)) list" where
  "event_ordering_fields =
     [(''start_date'', \<lambda>e. KNat (start_date e)), (''created_at'', \<lambda>e. KNat (created_at e)),
      (''title'', \<lambda>e. KStr (title e))]"

definition event_filter_queryset :: "query_dict \<Rightarrow> event list \<Rightarrow> event list" where
  "event_filter_queryset q qs =
     ordering_filter event_ordering_fields q (search_filter event_search_fields q qs)"

definition event_queryset :: "db \<Rightarrow> request \<Rightarrow> api_error + event list" where
  "event_queryset d r =
     (case event_get_queryset (req_query r) (events d) of
        Inl err \<Rightarrow> Inl err
      | Inr qs \<Rightarrow> Inr (event_filter_queryset (req_query r) qs))"

text \<open>\<open>get_object\<close>: \<open>get_object_or_404(self.filter_queryset(self.get_queryset()), pk=pk)\<close>.\<close>

definition event_get_object :: "db \<Rightarrow> request \<Rightarrow> pk \<Rightarrow> api_error + event" where
  "event_get_object d r k =
     (case event_queryset d r of
        Inl err \<Rightarrow> Inl err
      | Inr qs \<Rightarrow> (case find (\<lambda>e. ev_id e = k) qs of None \<Rightarrow> Inl NotFound | Some e \<Rightarrow> Inr e))"

section \<open>register\<close>

text \<open>\<open>event.max_attendees and event.attendances.count() >= event.max_attendees\<close>
  (views.py:54): a limit of \<open>None\<close> or \<open>0\<close> is false in Python, and every attendance
  row of the event counts, whatever its status.\<close>

definition capacity_reached :: "db \<Rightarrow> event \<Rightarrow> bool" where
  "capacity_reached d e =
     (case max_attendees e of
        None \<Rightarrow> False
      | Some m \<Rightarrow> m \<noteq> 0 \<and> m \<le> length (event_attendances d (ev_id e)))"

definition msg_already_registered :: string where
  "msg_already_registered = ''You are already registered for this event.''"

definition msg_capacity :: string where
  "msg_capacity = ''This event has reached maximum capacity.''"

text \<open>views.py:43-60, behind \<open>permission_classes=[permissions.IsAuthenticated]\<close>.\<close>

definition register :: "db \<Rightarrow> request \<Rightarrow> pk \<Rightarrow> attendance_out response \<times> db" where
  "register d r k =
     (case req_user r of
        None \<Rightarrow> (Inl NotAuthenticated, d)
      | Some uid \<Rightarrow>
          (case event_get_object d r k of
             Inl err \<Rightarrow> (Inl err, d)
           | Inr ev \<Rightarrow>
               if attendance_exists d (ev_id ev) uid then (Inl (BadRequest msg_already_registered), d)
               else if capacity_reached d ev then (Inl (BadRequest msg_capacity), d)
               else
                 (case insert_attendance d (ev_id ev) uid Registered (req_now r) of
                    Inl (IntegrityError m) \<Rightarrow> (Inl (ServerError m), d)
                  | Inr (a, d') \<Rightarrow>
                      (case attendance_repr d' a of
                         None \<Rightarrow> (Inl (ServerError ''DoesNotExist''), d')
                       | Some out \<Rightarrow> (Inr (201, out), d')))))"

section \<open>attendees\<close>

text \<open>views.py:62-67: the event's attendance rows, serialized; a read, so the database
  is unchanged.\<close>

definition attendees :: "db \<Rightarrow> request \<Rightarrow> pk \<Rightarrow> attendance_out list response" where
  "attendees d r k =
     (if \<not> is_authenticated r then Inl NotAuthenticated
      else case event_get_object d r k of
             Inl err \<Rightarrow> Inl err
           | Inr ev \<Rightarrow>
               (case repr_many (attendance_repr d) (event_attendances d (ev_id ev)) of
                  None \<Rightarrow> Inl (ServerError ''DoesNotExist'')
                | Some outs \<Rightarrow> Inr (200, outs)))"

section \<open>The generic handlers\<close>

definition event_list :: "db \<Rightarrow> request \<Rightarrow> event_out list response" where
  "event_list d r =
     (if \<not> is_authenticated_or_read_only r then Inl NotAuthenticated
      else case event_queryset d r of
             Inl err \<Rightarrow> Inl err
           | Inr qs \<Rightarrow> (case repr_many (event_repr d) qs of
                          None \<Rightarrow> Inl (ServerError ''DoesNotExist'')
                        | Some outs \<Rightarrow> Inr (200, outs)))"

definition event_retrieve :: "db \<Rightarrow> request \<Rightarrow> pk \<Rightarrow> event_out response" where
  "event_retrieve d r k =
     (if \<not> is_authenticated_or_read_only r then Inl NotAuthenticated
      else case event_get_object d r k of
             Inl err \<Rightarrow> Inl err
           | Inr e \<Rightarrow> (case event_repr d e of
                         None \<Rightarrow> Inl (ServerError ''DoesNotExist'')
                       | Some out \<Rightarrow> Inr (200, out)))"

text \<open>\<open>create\<close>: validate, then \<open>perform_create\<close> (views.py:25-26) saves with
  \<open>organizer=self.request.user\<close>, which overrides the validated \<open>organizer_id\<close>.\<close>

definition event_create :: "db \<Rightarrow> request \<Rightarrow> event_in \<Rightarrow> event_out response \<times> db" where
  "event_create d r i =
     (case req_user r of
        None \<Rightarrow> (Inl NotAuthenticated, d)
      | Some uid \<Rightarrow>
          (let errs = event_in_errors d False i
           in if errs \<noteq> [] then (Inl (Invalid errs), d)
              else
                (case insert_event d ((apply_event_in event_defaults i)\<lparr>organizer := uid\<rparr>) (req_now r) of
                   Inl (IntegrityError m) \<Rightarrow> (Inl (ServerError m), d)
                 | Inr (e, d') \<Rightarrow>
                     (case event_repr d' e of
                        None \<Rightarrow> (Inl (ServerError ''DoesNotExist''), d')
                      | Some out \<Rightarrow> (Inr (201, out), d')))))"

text \<open>\<open>update\<close> and \<open>partial_update\<close>: \<open>perform_update\<close> is not overridden, so the
  validated \<open>organizer_id\<close> is written.\<close>

definition event_update :: "db \<Rightarrow> request \<Rightarrow> pk \<Rightarrow> event_in \<Rightarrow> event_out response \<times> db" where
  "event_update d r k i =
     (if \<not> is_authenticated_or_read_only r then (Inl NotAuthenticated, d)
      else case event_get_object d r k of
             Inl err \<Rightarrow> (Inl err, d)
           | Inr e \<Rightarrow>
               (let errs = event_in_errors d (req_method r = PATCH) i
                in if errs \<noteq> [] then (Inl (Invalid errs), d)
                   else
                     (case save_event d (apply_event_in e i) (req_now r) of
                        Inl (IntegrityError m) \<Rightarrow> (Inl (ServerError m), d)
                      | Inr (e', d') \<Rightarrow>
                          (case event_repr d' e' of
                             None \<Rightarrow> (Inl (ServerError ''DoesNotExist''), d')
                           | Some out \<Rightarrow> (Inr (200, out), d')))))"

definition event_destroy :: "db \<Rightarrow> request \<Rightarrow> pk \<Rightarrow> unit response \<times> db" where
  "event_destroy d r k =
     (if \<not> is_authenticated_or_read_only r then (Inl NotAuthenticated, d)
      else case event_get_object d r k of
             Inl err \<Rightarrow> (Inl err, d)
           | Inr e \<Rightarrow> (Inr (204, ()), delete_event d (ev_id e)))"

lemmas event_view_defs [model_simps] =
  filter_category_def event_get_queryset_def event_search_fields_def event_ordering_fields_def
  event_filter_queryset_def event_queryset_def event_get_object_def capacity_reached_def
  msg_already_registered_def msg_capacity_def register_def attendees_def event_list_def
  event_retrieve_def event_create_def event_update_def event_destroy_def

text \<open>A client's sequence of registrations for one event: the same request sent once by
  each user of a list, each on the database the previous one left.\<close>

fun register_all :: "db \<Rightarrow> request \<Rightarrow> pk \<Rightarrow> pk list \<Rightarrow> attendance_out response list \<times> db" where
  "register_all d r k [] = ([], d)"
| "register_all d r k (u # us) =
     (let (res, d1) = register d (r\<lparr>req_user := Some u\<rparr>) k;
          (rs, d2) = register_all d1 r k us
      in (res # rs, d2))"

section \<open>Properties of the handlers\<close>

lemma filter_category_subset: "filter_category c qs = Inr qs' \<Longrightarrow> set qs' \<subseteq> set qs"
  by (auto simp: filter_category_def split: if_splits option.splits)

lemma event_get_queryset_subset: "event_get_queryset q evs = Inr qs \<Longrightarrow> set qs \<subseteq> set evs"
  by (auto simp: event_get_queryset_def Let_def split: sum.splits if_splits dest!: filter_category_subset)

lemma event_filter_queryset_subset: "set (event_filter_queryset q qs) \<subseteq> set qs"
  using set_search_filter by (simp add: event_filter_queryset_def)

lemma event_get_object_in:
  "event_get_object d r k = Inr e \<Longrightarrow> e \<in> set (events d) \<and> ev_id e = k"
  using event_get_queryset_subset event_filter_queryset_subset
  by (fastforce simp: event_get_object_def event_queryset_def split: sum.splits option.splits
       dest!: find_key_in)

lemma event_get_object_events_cong:
  "events d' = events d \<Longrightarrow> event_get_object d' r k = event_get_object d r k"
  by (simp add: event_get_object_def event_queryset_def)

lemma event_get_object_user [simp]: "event_get_object d (r\<lparr>req_user := x\<rparr>) k = event_get_object d r k"
  by (cases "event_get_queryset (req_query r) (events d)")
     (simp_all add: event_get_object_def event_queryset_def)

lemma register_effect:
  "snd (register d r k) = d \<or>
   (\<exists>uid ev a. req_user r = Some uid \<and> event_get_object d r k = Inr ev \<and>
      \<not> attendance_exists d (ev_id ev) uid \<and> \<not> capacity_reached d ev \<and>
      insert_attendance d (ev_id ev) uid Registered (req_now r) = Inr (a, snd (register d r k)))"
  by (auto simp: register_def split: handler_splits if_splits)

lemma register_Inr:
  "register d r k = (Inr res, d') \<Longrightarrow>
   (\<exists>uid ev a. req_user r = Some uid \<and> event_get_object d r k = Inr ev \<and>
      \<not> attendance_exists d (ev_id ev) uid \<and> \<not> capacity_reached d ev \<and>
      insert_attendance d (ev_id ev) uid Registered (req_now r) = Inr (a, d'))"
  by (auto simp: register_def split: handler_splits if_splits)

text \<open>\<open>Attendance.objects.create(event=event, user=user, status='registered')\<close>
  (views.py:58) and the serializer's output for the new row, when the database accepts it.\<close>

lemma registration_insert:
  assumes wf: "db_wf d" and uid: "uid \<in> user_id ` set (users d)" and ev: "ev \<in> set (events d)"
    and fresh: "\<not> attendance_exists d (ev_id ev) uid"
  shows "\<exists>out. insert_attendance d (ev_id ev) uid Registered t =
             Inr (\<lparr>att_id = next_attendance_id d, att_event = ev_id ev, att_user = uid,
                    att_status = Registered, registered_at = t\<rparr>,
                  d\<lparr>attendances := attendances d @ [\<lparr>att_id = next_attendance_id d, att_event = ev_id ev,
                       att_user = uid, att_status = Registered, registered_at = t\<rparr>],
                    next_attendance_id := Suc (next_attendance_id d)\<rparr>)
           \<and> attendance_repr (d\<lparr>attendances := attendances d @ [\<lparr>att_id = next_attendance_id d,
                 att_event = ev_id ev, att_user = uid, att_status = Registered, registered_at = t\<rparr>],
                 next_attendance_id := Suc (next_attendance_id d)\<rparr>)
               \<lparr>att_id = next_attendance_id d, att_event = ev_id ev, att_user = uid,
                 att_status = Registered, registered_at = t\<rparr> = Some out
           \<and> ao_id out = next_attendance_id d \<and> ao_status out = ''registered''"
proof -
  let ?a = "\<lparr>att_id = next_attendance_id d, att_event = ev_id ev, att_user = uid,
             att_status = Registered, registered_at = t\<rparr>"
  let ?d' = "d\<lparr>attendances := attendances d @ [?a], next_attendance_id := Suc (next_attendance_id d)\<rparr>"
  have ins: "insert_attendance d (ev_id ev) uid Registered t = Inr (?a, ?d')"
    using insert_attendance_ok [of "ev_id ev" d uid] ev uid fresh by auto
  have "db_wf ?d'" using insert_attendance_wf [OF wf ins] .
  then have "\<exists>out. attendance_repr ?d' ?a = Some out \<and> ao_id out = next_attendance_id d
      \<and> ao_status out = ''registered''"
    using attendance_repr_Some [of ?d' ?a] by auto
  with ins show ?thesis by blast
qed

lemma register_creates:
  assumes wf: "db_wf d" and user: "req_user r = Some uid" and uid: "uid \<in> user_id ` set (users d)"
    and obj: "event_get_object d r k = Inr ev"
    and fresh: "\<not> attendance_exists d k uid" and room: "\<not> capacity_reached d ev"
  shows "\<exists>out. register d r k =
           (Inr (201, out),
            d\<lparr>attendances := attendances d @ [\<lparr>att_id = next_attendance_id d, att_event = k,
                 att_user = uid, att_status = Registered, registered_at = req_now r\<rparr>],
              next_attendance_id := Suc (next_attendance_id d)\<rparr>)
         \<and> ao_id out = next_attendance_id d \<and> ao_status out = ''registered''"
proof -
  from obj have ev: "ev \<in> set (events d)" "ev_id ev = k" by (auto dest: event_get_object_in)
  from registration_insert [OF wf uid ev(1), of "req_now r"] fresh ev(2) show ?thesis
    using user obj room by (auto simp: register_def)
qed

text \<open>C1: A registration by an authenticated user of an event the request can see, who has no attendance row for it and finds the event below capacity, answers 201 with the new row, whose status is registered, and appends exactly that row (next id, the event, the user, status registered, the request time) to the attendance table.\<close>

theorem register_success:
  assumes "db_wf d" and "req_user r = Some uid" and "uid \<in> user_id ` set (users d)"
    and "event_get_object d r k = Inr ev"
    and "\<not> attendance_exists d k uid" and "\<not> capacity_reached d ev"
  shows "\<exists>out. register d r k =
           (Inr (201, out),
            d\<lparr>attendances := attendances d @ [\<lparr>att_id = next_attendance_id d, att_event = k,
                 att_user = uid, att_status = Registered, registered_at = req_now r\<rparr>],
              next_attendance_id := Suc (next_attendance_id d)\<rparr>)
         \<and> ao_id out = next_attendance_id d \<and> ao_status out = ''registered''"
  using register_creates [OF assms] .

text \<open>C2: A registration for an event the user already has an attendance row for (of any status) answers 400 "You are already registered for this event." and leaves the database unchanged.\<close>

theorem register_already_registered:
  "req_user r = Some uid \<Longrightarrow> event_get_object d r k = Inr ev \<Longrightarrow> attendance_exists d k uid \<Longrightarrow>
   register d r k = (Inl (BadRequest msg_already_registered), d)"
  by (auto simp: register_def dest: event_get_object_in)

text \<open>C3: A registration by a user without a row for the event, when the event has a positive max_attendees and at least that many attendance rows, answers 400 "This event has reached maximum capacity." and leaves the database unchanged.\<close>

theorem register_capacity_exceeded:
  "req_user r = Some uid \<Longrightarrow> event_get_object d r k = Inr ev \<Longrightarrow> \<not> attendance_exists d k uid \<Longrightarrow>
   max_attendees ev = Some m \<Longrightarrow> 0 < m \<Longrightarrow> m \<le> length (event_attendances d k) \<Longrightarrow>
   register d r k = (Inl (BadRequest msg_capacity), d)"
  by (auto simp: register_def capacity_reached_def dest: event_get_object_in)

text \<open>C4: Capacity is a safety property of sequential registrations: if an event with a positive limit m has at most m attendance rows, it still has at most m after any register request.\<close>

theorem register_within_capacity:
  assumes wf: "db_wf d" and e: "e \<in> set (events d)" and m: "max_attendees e = Some m" "0 < m"
    and within: "length (event_attendances d (ev_id e)) \<le> m"
  shows "length (event_attendances (snd (register d r k)) (ev_id e)) \<le> m"
  using register_effect [of d r k]
proof
  assume "snd (register d r k) = d"
  with within show ?thesis by simp
next
  assume "\<exists>uid ev a. req_user r = Some uid \<and> event_get_object d r k = Inr ev \<and>
      \<not> attendance_exists d (ev_id ev) uid \<and> \<not> capacity_reached d ev \<and>
      insert_attendance d (ev_id ev) uid Registered (req_now r) = Inr (a, snd (register d r k))"
  then obtain uid ev a where obj: "event_get_object d r k = Inr ev" and room: "\<not> capacity_reached d ev"
      and ins: "insert_attendance d (ev_id ev) uid Registered (req_now r) = Inr (a, snd (register d r k))"
    by blast
  from ins have atts: "attendances (snd (register d r k)) = attendances d @ [a]" and ae: "att_event a = ev_id ev"
    by (auto dest: insert_attendance_events)
  show ?thesis
  proof (cases "ev_id ev = ev_id e")
    case True
    from obj have "ev \<in> set (events d)" by (auto dest: event_get_object_in)
    with wf e True have "ev = e" by (auto simp: db_wf_defs intro: distinct_key_eq)
    with room m have "length (event_attendances d (ev_id e)) < m"
      by (auto simp: capacity_reached_def)
    with atts ae True show ?thesis by (simp add: event_attendances_def)
  next
    case False
    with atts ae within show ?thesis by (simp add: event_attendances_def)
  qed
qed

text \<open>C5: Registering the same user twice for the same event with the same request: the second call answers "already registered", changes nothing, and exactly one attendance row exists for the pair.\<close>

theorem register_twice:
  assumes user: "req_user r = Some uid" and first: "register d r k = (Inr res, d')"
  shows "register d' r k = (Inl (BadRequest msg_already_registered), d') \<and>
         length (filter (\<lambda>a. att_event a = k \<and> att_user a = uid) (attendances d')) = 1"
proof -
  from first user obtain ev a where obj: "event_get_object d r k = Inr ev"
      and fresh: "\<not> attendance_exists d (ev_id ev) uid"
      and ins: "insert_attendance d (ev_id ev) uid Registered (req_now r) = Inr (a, d')"
    by (auto dest!: register_Inr)
  from obj have k: "ev_id ev = k" by (auto dest: event_get_object_in)
  from ins have d': "events d' = events d" "attendances d' = attendances d @ [a]"
      "att_event a = k" "att_user a = uid"
    using k by (auto dest: insert_attendance_events)
  then have obj': "event_get_object d' r k = Inr ev"
    using obj event_get_object_events_cong [of d' d r k] by simp
  have "attendance_exists d' k uid"
    using d' by (simp add: attendance_exists_def)
  then have "register d' r k = (Inl (BadRequest msg_already_registered), d')"
    using user obj' by (auto simp: register_def dest: event_get_object_in)
  moreover have "filter (\<lambda>a. att_event a = k \<and> att_user a = uid) (attendances d) = []"
    using fresh k by (auto simp: attendance_exists_def list_ex_iff filter_empty_conv)
  ultimately show ?thesis using d' by simp
qed

text \<open>Every register request, whatever its outcome, keeps the database well formed: primary keys, foreign keys and the unique (event, user) pair.\<close>

theorem register_preserves_wf: "db_wf d \<Longrightarrow> db_wf (snd (register d r k))"
  using register_effect [of d r k] insert_attendance_wf by metis

lemma event_handlers_wf:
  "db_wf d \<Longrightarrow> db_wf (snd (event_create d r i)) \<and> db_wf (snd (event_update d r k i))
     \<and> db_wf (snd (event_destroy d r k))"
  by (auto simp: event_create_def event_update_def event_destroy_def Let_def
      split: handler_splits
      intro: insert_event_wf save_event_wf delete_event_wf)

lemma register_all_fills:
  assumes "db_wf d" and "event_get_object d r k = Inr ev" and "max_attendees ev = Some n"
    and "length (event_attendances d k) + length us \<le> n" and "distinct us"
    and "set us \<subseteq> user_id ` set (users d)" and "list_all (\<lambda>u. \<not> attendance_exists d k u) us"
  shows "list_all (\<lambda>res. \<exists>out. res = Inr (201, out)) (fst (register_all d r k us))
    \<and> db_wf (snd (register_all d r k us)) \<and> events (snd (register_all d r k us)) = events d
    \<and> length (event_attendances (snd (register_all d r k us)) k) = length (event_attendances d k) + length us
    \<and> (\<forall>w. attendance_exists (snd (register_all d r k us)) k w \<longleftrightarrow> attendance_exists d k w \<or> w \<in> set us)"
  using assms
proof (induction us arbitrary: d)
  case Nil
  then show ?case by simp
next
  case (Cons u us)
  let ?r = "r\<lparr>req_user := Some u\<rparr>"
  let ?d1 = "d\<lparr>attendances := attendances d @ [\<lparr>att_id = next_attendance_id d, att_event = k,
                 att_user = u, att_status = Registered, registered_at = req_now ?r\<rparr>],
              next_attendance_id := Suc (next_attendance_id d)\<rparr>"
  from Cons.prems(2) have k: "ev_id ev = k" by (auto dest: event_get_object_in)
  have room: "\<not> capacity_reached d ev"
    using Cons.prems(3,4) k by (auto simp: capacity_reached_def)
  from register_creates [of d ?r u k ev] Cons.prems room obtain out
    where reg: "register d ?r k = (Inr (201, out), ?d1)" by auto
  have wf1: "db_wf ?d1" using register_preserves_wf [OF Cons.prems(1), of ?r k] reg by simp
  have obj1: "event_get_object ?d1 r k = Inr ev"
    using Cons.prems(2) event_get_object_events_cong [of ?d1 d r k] by simp
  have cnt1: "length (event_attendances ?d1 k) = Suc (length (event_attendances d k))"
    by (simp add: event_attendances_def)
  have ex1: "\<forall>w. attendance_exists ?d1 k w \<longleftrightarrow> attendance_exists d k w \<or> w = u"
    by (auto simp: attendance_exists_def)
  have prems1: "length (event_attendances ?d1 k) + length us \<le> n" "distinct us"
      "set us \<subseteq> user_id ` set (users ?d1)" "list_all (\<lambda>u. \<not> attendance_exists ?d1 k u) us"
    using Cons.prems(4-7) cnt1 ex1 by (auto simp: list_all_iff)
  from Cons.IH [OF wf1 obj1 Cons.prems(3) prems1] reg cnt1 ex1 show ?case
    by (auto simp: Let_def split: prod.splits)
qed

text \<open>C6: The capacity rule of specification section 8 for every database: if an event with a positive max_attendees n holds c rows and n - c distinct users without a row register one after another, every registration answers 201, the event then holds n rows, and the next registration, by any further user without a row, is refused with 400 "This event has reached maximum capacity." and changes nothing.\<close>

theorem register_fills_capacity:
  assumes wf: "db_wf d" and obj: "event_get_object d r k = Inr ev"
    and cap: "max_attendees ev = Some n" "0 < n"
    and fill: "length (event_attendances d k) + length us = n" and us: "distinct us"
      "set us \<subseteq> user_id ` set (users d)" "list_all (\<lambda>u. \<not> attendance_exists d k u) us"
    and v: "v \<notin> set us" "\<not> attendance_exists d k v"
  shows "list_all (\<lambda>res. \<exists>out. res = Inr (201, out)) (fst (register_all d r k us))
    \<and> length (event_attendances (snd (register_all d r k us)) k) = n
    \<and> register (snd (register_all d r k us)) (r\<lparr>req_user := Some v\<rparr>) k
        = (Inl (BadRequest msg_capacity), snd (register_all d r k us))"
proof -
  let ?d' = "snd (register_all d r k us)"
  from register_all_fills [OF wf obj cap(1) _ us] fill have all:
    "list_all (\<lambda>res. \<exists>out. res = Inr (201, out)) (fst (register_all d r k us))"
    "events ?d' = events d" "length (event_attendances ?d' k) = n"
    "\<forall>w. attendance_exists ?d' k w \<longleftrightarrow> attendance_exists d k w \<or> w \<in> set us"
    by auto
  have obj': "event_get_object ?d' r k = Inr ev"
    using obj event_get_object_events_cong [of ?d' d r k] all(2) by simp
  from obj' have "ev_id ev = k" by (auto dest: event_get_object_in)
  with obj' all(3,4) v cap have "register ?d' (r\<lparr>req_user := Some v\<rparr>) k = (Inl (BadRequest msg_capacity), ?d')"
    by (simp add: register_def capacity_reached_def)
  with all show ?thesis by simp
qed

section \<open>Properties of the view set\<close>

text \<open>The attendees_count of a retrieved event is the live number of attendance rows of that event, whatever their status.\<close>

theorem retrieve_attendees_count:
  "event_retrieve d r k = Inr (200, out) \<Longrightarrow>
   eo_id out = k \<and> eo_attendees_count out = length (filter (\<lambda>a. att_event a = k) (attendances d))"
  by (auto simp: event_retrieve_def event_repr_def get_attendees_count_def event_attendances_def
      split: if_splits sum.splits option.splits dest: event_get_object_in)

text \<open>C14: Finding: an event whose max_attendees is 0 has no limit at all; any user without a row for it is registered, whatever the number of rows.\<close>

theorem capacity_zero_unlimited:
  assumes "db_wf d" and "req_user r = Some uid" and "uid \<in> user_id ` set (users d)"
    and "event_get_object d r k = Inr ev" and "\<not> attendance_exists d k uid"
    and zero: "max_attendees ev = Some 0"
  shows "\<exists>out d'. register d r k = (Inr (201, out), d') \<and>
           length (event_attendances d' k) = Suc (length (event_attendances d k))"
proof -
  from zero have "\<not> capacity_reached d ev" by (simp add: capacity_reached_def)
  from register_creates [OF assms(1-5) this] obtain out where
    reg: "register d r k = (Inr (201, out),
            d\<lparr>attendances := attendances d @ [\<lparr>att_id = next_attendance_id d, att_event = k,
                 att_user = uid, att_status = Registered, registered_at = req_now r\<rparr>],
              next_attendance_id := Suc (next_attendance_id d)\<rparr>)"
    by blast
  show ?thesis
    by (rule exI [of _ out], rule exI, rule conjI [OF reg]) (simp add: event_attendances_def)
qed

text \<open>C16: Finding: an update (PUT or PATCH) by any authenticated user that passes validation and sends organizer_id u sets the event's organizer to u, so the organizer is not immutable after creation.\<close>

theorem event_update_changes_organizer:
  assumes wf: "db_wf d" and auth: "req_user r = Some uid" and obj: "event_get_object d r k = Inr e"
    and ok: "event_in_errors d (req_method r = PATCH) i = []" and org: "ei_organizer_id i = Given u'"
  shows "\<exists>out d'. event_update d r k i = (Inr (200, out), d') \<and> uo_id (eo_organizer out) = u'
           \<and> (\<exists>e' \<in> set (events d'). ev_id e' = k \<and> organizer e' = u') \<and> db_wf d'"
proof -
  from obj have e: "e \<in> set (events d)" "ev_id e = k" by (auto dest: event_get_object_in)
  with wf have "fk_event_ok d e" by (simp add: db_wf_defs)
  then have "fk_event_ok d (apply_event_in e i)"
    by (rule event_in_fk [OF ok])
  then have fk': "fk_event_ok d ((apply_event_in e i)\<lparr>updated_at := req_now r\<rparr>)" by simp
  let ?e' = "(apply_event_in e i)\<lparr>updated_at := req_now r\<rparr>"
  let ?d' = "d\<lparr>events := replace_by ev_id ?e' (events d)\<rparr>"
  have save: "save_event d (apply_event_in e i) (req_now r) = Inr (?e', ?d')"
    using save_event_ok [OF fk'] .
  have wf': "db_wf ?d'" using save_event_wf [OF wf save] .
  have in': "?e' \<in> set (events ?d')"
    using e by (auto simp: set_replace_by)
  with wf' have "fk_event_ok ?d' ?e'" unfolding db_wf_def refs_wf_def by blast
  then obtain out where out: "event_repr ?d' ?e' = Some out" "uo_id (eo_organizer out) = organizer ?e'"
    using event_repr_Some by blast
  have "organizer ?e' = u'" using org by simp
  moreover have "event_update d r k i = (Inr (200, out), ?d')"
    using auth obj ok save out by (simp add: event_update_def is_authenticated_or_read_only_def)
  moreover have "ev_id ?e' = k" using e by simp
  ultimately show ?thesis using out in' wf' by blast
qed

text \<open>C17: Creating an event as an authenticated user that passes validation answers 201 with a new event whose organizer is the requester (whatever organizer_id was sent), with the next id and no attendees, appended to the table; the database stays well formed.\<close>

theorem event_create_sets_organizer:
  assumes wf: "db_wf d" and auth: "req_user r = Some uid" and uid: "uid \<in> user_id ` set (users d)"
    and ok: "event_in_errors d False i = []"
  shows "\<exists>out d'. event_create d r i = (Inr (201, out), d') \<and> uo_id (eo_organizer out) = uid
           \<and> eo_id out = next_event_id d \<and> eo_attendees_count out = 0
           \<and> events d' = events d @ [(apply_event_in event_defaults i)\<lparr>organizer := uid,
                 ev_id := next_event_id d, created_at := req_now r, updated_at := req_now r\<rparr>]
           \<and> db_wf d'"
proof -
  let ?e0 = "(apply_event_in event_defaults i)\<lparr>organizer := uid\<rparr>"
  let ?e' = "?e0\<lparr>ev_id := next_event_id d, created_at := req_now r, updated_at := req_now r\<rparr>"
  let ?d' = "d\<lparr>events := events d @ [?e'], next_event_id := Suc (next_event_id d)\<rparr>"
  have "\<forall>c \<in> set_option (category (apply_event_in event_defaults i)). c \<in> cat_id ` set (categories d)"
    using event_in_category_ok [OF ok, of event_defaults] by (simp add: event_defaults_def)
  with uid have fk: "fk_event_ok d ?e'" by (simp add: fk_event_ok_def)
  have ins: "insert_event d ?e0 (req_now r) = Inr (?e', ?d')"
    using fk by (simp add: insert_event_def Let_def)
  have wf': "db_wf ?d'" using insert_event_wf [OF wf ins] .
  have "?e' \<in> set (events ?d')" by simp
  with wf' have "fk_event_ok ?d' ?e'" unfolding db_wf_def refs_wf_def by blast
  then obtain out where out: "event_repr ?d' ?e' = Some out" "uo_id (eo_organizer out) = uid"
      "eo_id out = next_event_id d" "eo_attendees_count out = length (event_attendances ?d' (next_event_id d))"
    using event_repr_Some [of ?d' ?e'] by auto
  have "event_attendances ?d' (next_event_id d) = []"
    using fresh_event_no_attendances [OF wf] by (simp add: event_attendances_def)
  moreover have "event_create d r i = (Inr (201, out), ?d')"
    using auth ok ins out by (simp add: event_create_def)
  ultimately show ?thesis using out wf' by auto
qed

lemma filter_status_excludes:
  "qd_get q ''category'' = None \<Longrightarrow> qd_get q ''status'' = Some s \<Longrightarrow> s \<noteq> [] \<Longrightarrow>
   event_get_queryset q evs = Inr qs \<Longrightarrow> x \<in> set qs \<Longrightarrow> event_status_value (ev_status x) = s"
  by (auto simp: event_get_queryset_def filter_category_def py_truthy_def Let_def split: if_splits)

text \<open>C18: Finding: creating an event without organizer_id is refused with 400 and the error "This field is required." on organizer_id, although perform_create sets the organizer to the requester and discards what was sent.\<close>

theorem event_create_requires_organizer_id:
  "req_user r = Some uid \<Longrightarrow> ei_organizer_id i = Absent \<Longrightarrow>
   \<exists>errs. event_create d r i = (Inl (Invalid errs), d) \<and> (''organizer_id'', msg_required) \<in> set errs"
  by (simp add: event_create_def event_in_errors_def pk_field_errors_def)

text \<open>C19: Finding: the detail routes (register included) look the event up in the filtered query set, so with ?status=s for a status s other than the event's, a register request for an existing event answers 404 and changes nothing.\<close>

theorem detail_lookup_depends_on_query:
  assumes wf: "db_wf d" and user: "req_user r = Some uid"
    and nocat: "qd_get (req_query r) ''category'' = None"
    and st: "qd_get (req_query r) ''status'' = Some s" "s \<noteq> []"
    and e: "e \<in> set (events d)" and other: "event_status_value (ev_status e) \<noteq> s"
  shows "register d r (ev_id e) = (Inl NotFound, d)"
proof -
  obtain qs where qs: "event_get_queryset (req_query r) (events d) = Inr qs"
    using nocat by (auto simp: event_get_queryset_def filter_category_def py_truthy_def Let_def)
  have "find (\<lambda>x. ev_id x = ev_id e) (event_filter_queryset (req_query r) qs) = None"
  proof (rule ccontr)
    assume "find (\<lambda>x. ev_id x = ev_id e) (event_filter_queryset (req_query r) qs) \<noteq> None"
    then obtain x where "find (\<lambda>x. ev_id x = ev_id e) (event_filter_queryset (req_query r) qs) = Some x"
      by blast
    from find_key_in [OF this] have x: "x \<in> set (event_filter_queryset (req_query r) qs)" "ev_id x = ev_id e"
      by auto
    with event_filter_queryset_subset have xq: "x \<in> set qs" by blast
    with event_get_queryset_subset [OF qs] have "x \<in> set (events d)" by blast
    with wf e x(2) have "x = e" by (auto simp: db_wf_defs intro: distinct_key_eq)
    with filter_status_excludes [OF nocat st qs xq] other show False by simp
  qed
  with qs user show ?thesis
    by (simp add: register_def event_get_object_def event_queryset_def)
qed

text \<open>C20: Finding: a non-empty ?category= value that int() cannot parse is passed to filter(category_id=...), which raises ValueError: the list and every detail request answer a server error instead of 400.\<close>

theorem category_param_value_error:
  assumes cat: "qd_get (req_query r) ''category'' = Some c" "c \<noteq> []" "py_int c = None"
    and perm: "is_authenticated_or_read_only r"
  shows "event_list d r = Inl (ServerError ''ValueError: Field 'id' expected a number'') \<and>
         event_retrieve d r k = Inl (ServerError ''ValueError: Field 'id' expected a number'')"
  using assms
  by (simp add: event_list_def event_retrieve_def event_get_object_def event_queryset_def
      event_get_queryset_def filter_category_def py_truthy_def)

text \<open>Ordering the event list by ?ordering=start_date is exactly the library's stable sort by start date (List.sort_key): the OrderingFilter's insertion sort agrees with the reference sort, ties keeping the table's order; ?ordering=-start_date sorts by the negated date.\<close>

theorem ordering_start_date_sort_key:
  assumes "qd_get q ''ordering'' = Some ''start_date''"
  shows "ordering_filter event_ordering_fields q evs = sort_key start_date evs"
proof -
  have "ordering_terms event_ordering_fields q = [(\<lambda>e. KNat (start_date e), False)]"
    using assms by (simp add: ordering_terms_def event_ordering_fields_def split_on_def term_field_def
        py_strip_def py_isspace_def)
  then show ?thesis
    by (simp add: ordering_filter_def sort_cmp_sort_key cmp_terms_nat_asc)
qed

lemma ordering_desc_start_date:
  assumes "qd_get q ''ordering'' = Some ''-start_date''"
  shows "ordering_filter event_ordering_fields q evs = sort_key (\<lambda>e. - int (start_date e)) evs"
proof -
  have "ordering_terms event_ordering_fields q = [(\<lambda>e. KNat (start_date e), True)]"
    using assms by (simp add: ordering_terms_def event_ordering_fields_def split_on_def term_field_def
        py_strip_def py_isspace_def)
  then show ?thesis
    by (simp add: ordering_filter_def sort_cmp_sort_key cmp_terms_nat_desc)
qed

end
