(* ===== verification/AttendanceViews.thy ===== *)
theory AttendanceViews
  imports Serializers
begin

text \<open>
  \<open>AttendanceViewSet\<close> (src/backend/event_app/views.py:69-85), behind
  \<open>IsAuthenticated\<close>. \<open>get_queryset\<close> decides what a caller sees: all rows for a
  staff user, the caller's own rows otherwise; the generic handlers of
  \<open>ModelViewSet\<close> list that query set and look rows up in it, so a non-staff caller
  can neither read nor change another user's row. Creation goes through the serializer
  only: its fields and the \<open>UniqueTogetherValidator\<close>, no capacity check and no check
  that \<open>user_id\<close> is the caller. \<open>my_events\<close> lists the caller's own rows.
\<close>

section \<open>The query set\<close>

text \<open>views.py:74-78. An authenticated request always carries a user; a user id that
  names no row counts as a non-staff user.\<close>

definition attendance_get_queryset :: "db \<Rightarrow> request \<Rightarrow> attendance list" where
  "attendance_get_queryset d r =
     (case req_user r of
        None \<Rightarrow> []
      | Some uid \<Rightarrow>
          if (case find_user d uid of Some u \<Rightarrow> is_staff u | None \<Rightarrow> False)
          then attendances d
          else user_attendances d uid)"

definition attendance_get_object :: "db \<Rightarrow> request \<Rightarrow> pk \<Rightarrow> api_error + attendance" where
  "attendance_get_object d r k =
     (case find (\<lambda>a. att_id a = k) (attendance_get_queryset d r) of
        None \<Rightarrow> Inl NotFound
      | Some a \<Rightarrow> Inr a)"

section \<open>Handlers\<close>

definition attendance_list :: "db \<Rightarrow> request \<Rightarrow> attendance_out list response" where
  "attendance_list d r =
     (if \<not> is_authenticated r then Inl NotAuthenticated
      else case repr_many (attendance_repr d) (attendance_get_queryset d r) of
             None \<Rightarrow> Inl (ServerError ''DoesNotExist'')
           | Some outs \<Rightarrow> Inr (200, outs))"

definition attendance_retrieve :: "db \<Rightarrow> request \<Rightarrow> pk \<Rightarrow> attendance_out response" where
  "attendance_retrieve d r k =
     (if \<not> is_authenticated r then Inl NotAuthenticated
      else case attendance_get_object d r k of
             Inl err \<Rightarrow> Inl err
           | Inr a \<Rightarrow> (case attendance_repr d a of
                         None \<Rightarrow> Inl (ServerError ''DoesNotExist'')
                       | Some out \<Rightarrow> Inr (200, out)))"

text \<open>\<open>create\<close>: validation, then \<open>Attendance.objects.create\<close> with the validated
  event, user and status (the model default \<open>registered\<close> when none is sent).\<close>

definition attendance_create :: "db \<Rightarrow> request \<Rightarrow> attendance_in \<Rightarrow> attendance_out response \<times> db" where
  "attendance_create d r i =
     (if \<not> is_authenticated r then (Inl NotAuthenticated, d)
      else
        (let errs = attendance_in_errors d False None i
         in if errs \<noteq> [] then (Inl (Invalid errs), d)
            else
              (case insert_attendance d (given_or (ai_event_id i) 0) (given_or (ai_user_id i) 0)
                      (case Option.bind (ai_status i) attendance_status_of of Some st \<Rightarrow> st | None \<Rightarrow> Registered)
                      (req_now r) of
                 Inl (IntegrityError m) \<Rightarrow> (Inl (ServerError m), d)
               | Inr (a, d') \<Rightarrow>
                   (case attendance_repr d' a of
                      None \<Rightarrow> (Inl (ServerError ''DoesNotExist''), d')
                    | Some out \<Rightarrow> (Inr (201, out), d')))))"

definition apply_attendance_in :: "attendance \<Rightarrow> attendance_in \<Rightarrow> attendance" where
  "apply_attendance_in a i =
     a\<lparr>att_event := given_or (ai_event_id i) (att_event a),
       att_user := given_or (ai_user_id i) (att_user a),
       att_status := case_option (att_status a) id (Option.bind (ai_status i) attendance_status_of)\<rparr>"

definition attendance_update :: "db \<Rightarrow> request \<Rightarrow> pk \<Rightarrow> attendance_in \<Rightarrow> attendance_out response \<times> db" where
  "attendance_update d r k i =
     (if \<not> is_authenticated r then (Inl NotAuthenticated, d)
      else case attendance_get_object d r k of
             Inl err \<Rightarrow> (Inl err, d)
           | Inr a \<Rightarrow>
               (let errs = attendance_in_errors d (req_method r = PATCH) (Some a) i
                in if errs \<noteq> [] then (Inl (Invalid errs), d)
                   else
                     (case save_attendance d (apply_attendance_in a i) of
                        Inl (IntegrityError m) \<Rightarrow> (Inl (ServerError m), d)
                      | Inr (a', d') \<Rightarrow>
                          (case attendance_repr d' a' of
                             None \<Rightarrow> (Inl (ServerError ''DoesNotExist''), d')
                           | Some out \<Rightarrow> (Inr (200, out), d')))))"

definition attendance_destroy :: "db \<Rightarrow> request \<Rightarrow> pk \<Rightarrow> unit response \<times> db" where
  "attendance_destroy d r k =
     (if \<not> is_authenticated r then (Inl NotAuthenticated, d)
      else case attendance_get_object d r k of
             Inl err \<Rightarrow> (Inl err, d)
           | Inr a \<Rightarrow> (Inr (204, ()), delete_attendance d (att_id a)))"

text \<open>views.py:80-85: \<open>Attendance.objects.filter(user=user)\<close>, for staff users too.\<close>

definition my_events :: "db \<Rightarrow> request \<Rightarrow> attendance_out list response" where
  "my_events d r =
     (case req_user r of
        None \<Rightarrow> Inl NotAuthenticated
      | Some uid \<Rightarrow>
          (case repr_many (attendance_repr d) (user_attendances d uid) of
             None \<Rightarrow> Inl (ServerError ''DoesNotExist'')
           | Some outs \<Rightarrow> Inr (200, outs)))"

lemmas attendance_view_defs [model_simps] =
  attendance_get_queryset_def attendance_get_object_def attendance_list_def attendance_retrieve_def
  attendance_create_def apply_attendance_in_def attendance_update_def attendance_destroy_def
  my_events_def

section \<open>Properties\<close>

lemma attendance_get_queryset_subset: "set (attendance_get_queryset d r) \<subseteq> set (attendances d)"
  by (auto simp: attendance_get_queryset_def user_attendances_def split: option.splits)

lemma attendance_get_queryset_user:
  "req_user r = Some uid \<Longrightarrow> find_user d uid = Some u \<Longrightarrow>
   attendance_get_queryset d r = (if is_staff u then attendances d else filter (\<lambda>a. att_user a = uid) (attendances d))"
  by (simp add: attendance_get_queryset_def user_attendances_def)

lemma attendance_get_object_in:
  "attendance_get_object d r k = Inr a \<Longrightarrow> a \<in> set (attendances d) \<and> att_id a = k"
  using attendance_get_queryset_subset [of d r]
  by (auto simp: attendance_get_object_def split: option.splits dest!: find_key_in)

lemma attendance_update_counts:
  assumes wf: "db_wf d" and keep: "ai_event_id i = Absent"
  shows "events (snd (attendance_update d r j i)) = events d
    \<and> length (event_attendances (snd (attendance_update d r j i)) k) = length (event_attendances d k)"
proof (cases "\<exists>a a' d'. attendance_get_object d r j = Inr a \<and>
                 save_attendance d (apply_attendance_in a i) = Inr (a', d') \<and> snd (attendance_update d r j i) = d'")
  case True
  then obtain a a' d' where obj: "attendance_get_object d r j = Inr a"
      and sv: "save_attendance d (apply_attendance_in a i) = Inr (a', d')"
      and res: "snd (attendance_update d r j i) = d'" by blast
  from sv have d': "d' = d\<lparr>attendances := replace_by att_id (apply_attendance_in a i) (attendances d)\<rparr>"
    by (auto simp: save_attendance_def split: if_splits)
  from obj have "a \<in> set (attendances d)" by (auto dest: attendance_get_object_in)
  moreover from wf have "distinct (map att_id (attendances d))" by (simp add: db_wf_defs)
  ultimately have "length (filter (\<lambda>b. att_event b = k) (replace_by att_id (apply_attendance_in a i) (attendances d)))
      = length (filter (\<lambda>b. att_event b = k) (attendances d))"
    using keep by (intro length_filter_replace_by) (auto simp: apply_attendance_in_def given_or_def)
  then show ?thesis using res d' by (simp add: event_attendances_def)
next
  case False
  then have "snd (attendance_update d r j i) = d"
    by (auto simp: attendance_update_def Let_def split: handler_splits if_splits)
  then show ?thesis by simp
qed

text \<open>C7: Listing /attendances/ as an authenticated user answers 200 with exactly the rows of the table, in order, when the user is staff, and exactly the user's own rows otherwise.\<close>

theorem attendance_list_visibility:
  assumes wf: "db_wf d" and user: "req_user r = Some uid" and u: "find_user d uid = Some u"
  shows "\<exists>outs. attendance_list d r = Inr (200, outs) \<and>
           map ao_id outs = map att_id (if is_staff u then attendances d
                                        else filter (\<lambda>a. att_user a = uid) (attendances d))"
proof -
  obtain outs where outs: "repr_many (attendance_repr d) (attendance_get_queryset d r) = Some outs"
      "map ao_id outs = map att_id (attendance_get_queryset d r)"
    using repr_many_attendance [OF wf attendance_get_queryset_subset] by blast
  with user u show ?thesis
    by (simp add: attendance_list_def is_authenticated_def attendance_get_queryset_user)
qed

text \<open>C8: my_events answers 200 with exactly the caller's own attendance rows, for staff users too, and every row it returns names the caller as its user.\<close>

theorem my_events_own:
  assumes wf: "db_wf d" and user: "req_user r = Some uid"
  shows "\<exists>outs. my_events d r = Inr (200, outs) \<and>
           map ao_id outs = map att_id (filter (\<lambda>a. att_user a = uid) (attendances d)) \<and>
           (\<forall>x \<in> set outs. uo_id (ao_user x) = uid)"
proof -
  have "set (user_attendances d uid) \<subseteq> set (attendances d)"
    by (auto simp: user_attendances_def)
  then obtain outs where outs: "repr_many (attendance_repr d) (user_attendances d uid) = Some outs"
      "map ao_id outs = map att_id (user_attendances d uid)"
      "map (\<lambda>x. uo_id (ao_user x)) outs = map att_user (user_attendances d uid)"
    using repr_many_attendance [OF wf] by blast
  have "\<forall>x \<in> set outs. uo_id (ao_user x) = uid"
  proof
    fix x assume "x \<in> set outs"
    then have "uo_id (ao_user x) \<in> set (map att_user (user_attendances d uid))"
      using outs(3) by (metis image_eqI list.set_map)
    then show "uo_id (ao_user x) = uid" by (auto simp: user_attendances_def)
  qed
  with outs user show ?thesis by (simp add: my_events_def user_attendances_def)
qed

lemma attendance_get_object_other:
  assumes wf: "db_wf d" and user: "req_user r = Some uid" and u: "find_user d uid = Some u"
    and ns: "\<not> is_staff u" and a: "a \<in> set (attendances d)" and other: "att_user a \<noteq> uid"
  shows "attendance_get_object d r (att_id a) = Inl NotFound"
proof -
  have "find (\<lambda>b. att_id b = att_id a) (filter (\<lambda>b. att_user b = uid) (attendances d)) = None"
  proof (rule ccontr)
    assume "find (\<lambda>b. att_id b = att_id a) (filter (\<lambda>b. att_user b = uid) (attendances d)) \<noteq> None"
    then obtain b where "find (\<lambda>b. att_id b = att_id a) (filter (\<lambda>b. att_user b = uid) (attendances d)) = Some b"
      by blast
    from find_key_in [OF this] have "b \<in> set (attendances d)" "att_user b = uid" "att_id b = att_id a"
      by auto
    with wf a have "b = a" by (auto simp: db_wf_defs intro: distinct_key_eq)
    with \<open>att_user b = uid\<close> other show False by simp
  qed
  with user u ns show ?thesis
    by (simp add: attendance_get_object_def attendance_get_queryset_user)
qed

text \<open>C9: A non-staff user cannot read, update or delete another user's attendance row: retrieve, update and destroy of that row answer 404 and leave the database unchanged.\<close>

theorem attendance_other_user_hidden:
  assumes wf: "db_wf d" and user: "req_user r = Some uid" and u: "find_user d uid = Some u"
    and ns: "\<not> is_staff u" and a: "a \<in> set (attendances d)" and other: "att_user a \<noteq> uid"
  shows "attendance_retrieve d r (att_id a) = Inl NotFound \<and>
         attendance_update d r (att_id a) i = (Inl NotFound, d) \<and>
         attendance_destroy d r (att_id a) = (Inl NotFound, d)"
  using attendance_get_object_other [OF assms] user
  by (simp add: attendance_retrieve_def attendance_update_def attendance_destroy_def is_authenticated_def)

text \<open>C10: Creating an attendance through the generic endpoint for an (event, user) pair that already has a row answers 400 with "You have already registered for this event." under non_field_errors and leaves the database unchanged.\<close>

theorem attendance_create_duplicate:
  assumes user: "req_user r = Some uid'"
    and ev: "find_event d eid \<noteq> None" and us: "find_user d uid \<noteq> None"
    and st: "ai_status i = None" and ei: "ai_event_id i = Given eid" and ui: "ai_user_id i = Given uid"
    and dup: "attendance_exists d eid uid"
  shows "attendance_create d r i = (Inl (Invalid [(''non_field_errors'', msg_unique)]), d)"
  using assms
  by (simp add: attendance_create_def attendance_in_errors_def pk_field_errors_def choice_errors_def
      unique_together_errors_def given_or_def attendance_exists_def is_authenticated_def)

lemma attendance_create_wf: "db_wf d \<Longrightarrow> db_wf (snd (attendance_create d r i))"
  by (auto simp: attendance_create_def Let_def split: handler_splits
      intro: insert_attendance_wf)

lemma attendance_update_wf: "db_wf d \<Longrightarrow> db_wf (snd (attendance_update d r k i))"
  by (auto simp: attendance_update_def Let_def split: handler_splits
      intro: save_attendance_wf)

lemma attendance_destroy_wf: "db_wf d \<Longrightarrow> db_wf (snd (attendance_destroy d r k))"
  by (auto simp: attendance_destroy_def split: sum.splits intro: delete_attendance_wf)

text \<open>The writing handlers of the attendance endpoint (create, update, destroy) keep the database well formed, whatever their outcome.\<close>

theorem attendance_handlers_preserve_wf:
  "db_wf d \<Longrightarrow> db_wf (snd (attendance_create d r i)) \<and> db_wf (snd (attendance_update d r k i))
     \<and> db_wf (snd (attendance_destroy d r k))"
  by (simp add: attendance_create_wf attendance_update_wf attendance_destroy_wf)

lemma attendance_create_ok:
  assumes wf: "db_wf d" and auth: "req_user r = Some u"
    and ev: "eid \<in> ev_id ` set (events d)" and us: "uid \<in> user_id ` set (users d)"
    and fresh: "\<not> attendance_exists d eid uid"
  shows "\<exists>out d'. attendance_create d r \<lparr>ai_event_id = Given eid, ai_user_id = Given uid, ai_status = None\<rparr>
            = (Inr (201, out), d') \<and> uo_id (ao_user out) = uid
          \<and> attendances d' = attendances d @ [\<lparr>att_id = next_attendance_id d, att_event = eid,
               att_user = uid, att_status = Registered, registered_at = req_now r\<rparr>]"
proof -
  let ?i = "\<lparr>ai_event_id = Given eid, ai_user_id = Given uid, ai_status = None\<rparr>"
  let ?a = "\<lparr>att_id = next_attendance_id d, att_event = eid, att_user = uid,
             att_status = Registered, registered_at = req_now r\<rparr>"
  let ?d' = "d\<lparr>attendances := attendances d @ [?a], next_attendance_id := Suc (next_attendance_id d)\<rparr>"
  have fe: "find_event d eid \<noteq> None" using find_key_Some [OF ev] by (auto simp: find_event_def)
  have fu: "find_user d uid \<noteq> None" using find_key_Some [OF us] by (auto simp: find_user_def)
  have errs: "attendance_in_errors d False None ?i = []"
    using fe fu fresh
    by (simp add: attendance_in_errors_def pk_field_errors_def choice_errors_def
        unique_together_errors_def given_or_def attendance_exists_def)
  have ins: "insert_attendance d eid uid Registered (req_now r) = Inr (?a, ?d')"
    using insert_attendance_ok [OF ev us fresh] .
  have wf': "db_wf ?d'" using insert_attendance_wf [OF wf ins] .
  then obtain out where out: "attendance_repr ?d' ?a = Some out" "uo_id (ao_user out) = uid"
    using attendance_repr_Some [of ?d' ?a] by auto
  have "attendance_create d r ?i = (Inr (201, out), ?d')"
    using auth errs ins out by (simp add: attendance_create_def is_authenticated_def given_or_def)
  with out show ?thesis by auto
qed

text \<open>C22: Finding: AttendanceViewSet.create takes user_id from the request body, so a non-staff user creates an attendance row for another user, answering 201 with that user in the row.\<close>

theorem attendance_create_for_other_user:
  assumes "db_wf d" and "req_user r = Some u" and "find_user d u = Some usr" and "\<not> is_staff usr"
    and "eid \<in> ev_id ` set (events d)" and "uid \<in> user_id ` set (users d)" and "uid \<noteq> u"
    and "\<not> attendance_exists d eid uid"
  shows "\<exists>out d'. attendance_create d r \<lparr>ai_event_id = Given eid, ai_user_id = Given uid, ai_status = None\<rparr>
            = (Inr (201, out), d') \<and> uo_id (ao_user out) = uid \<and>
          (\<exists>a \<in> set (attendances d'). att_user a = uid \<and> att_event a = eid)"
proof -
  from attendance_create_ok [OF assms(1,2,5,6,8)] show ?thesis by auto
qed

end
