(* ===== verification/CategoryViews.thy ===== *)
theory CategoryViews
  imports Serializers Filters
begin

text \<open>
  \<open>CategoryViewSet\<close> (src/backend/event_app/views.py:9-15): the generic handlers of
  \<open>ModelViewSet\<close> over all categories, behind \<open>IsAuthenticatedOrReadOnly\<close>, with
  \<open>SearchFilter\<close> over \<open>name\<close> and \<open>description\<close> and \<open>OrderingFilter\<close> over
  \<open>name\<close>. \<open>CategorySerializer\<close> (serializers.py:10-13) exposes every field: \<open>name\<close>
  is a required \<open>CharField\<close> of at most 100 characters, \<open>description\<close> may be blank,
  \<open>null\<close> or absent. Deleting a category clears the category of its events
  (\<open>SET_NULL\<close>, models.py:31).
\<close>

section \<open>The query set\<close>

definition category_search_fields :: "(category \<Rightarrow> string option) list" where
  "category_search_fields = [\<lambda>c. Some (cat_name c), cat_description]"

definition category_ordering_fields :: "(string \<times> (category \<Rightarrow> sort_key)) list" where
  "category_ordering_fields = [(''name'', \<lambda>c. KStr (cat_name c))]"

definition category_queryset :: "db \<Rightarrow> request \<Rightarrow> category list" where
  "category_queryset d r =
     ordering_filter category_ordering_fields (req_query r)
       (search_filter category_search_fields (req_query r) (categories d))"

definition category_get_object :: "db \<Rightarrow> request \<Rightarrow> pk \<Rightarrow> api_error + category" where
  "category_get_object d r k =
     (case find (\<lambda>c. cat_id c = k) (category_queryset d r) of None \<Rightarrow> Inl NotFound | Some c \<Rightarrow> Inr c)"

section \<open>Serializer\<close>

record category_out =
  co_id :: pk
  co_name :: string
  co_description :: "string option"

definition category_repr :: "category \<Rightarrow> category_out" where
  "category_repr c = \<lparr>co_id = cat_id c, co_name = cat_name c, co_description = cat_description c\<rparr>"

record category_in =
  ci_name :: "string option"
  ci_description :: "string field"

definition category_in_errors :: "bool \<Rightarrow> category_in \<Rightarrow> (string \<times> string) list" where
  "category_in_errors partial i = char_field_errors partial ''name'' (Some 100) (ci_name i)"

definition apply_category_in :: "category \<Rightarrow> category_in \<Rightarrow> category" where
  "apply_category_in c i =
     c\<lparr>cat_name := case_option (cat_name c) py_strip (ci_name i),
       cat_description := apply_field (map_field py_strip (ci_description i)) (cat_description c)\<rparr>"

section \<open>Handlers\<close>

definition category_list :: "db \<Rightarrow> request \<Rightarrow> category_out list response" where
  "category_list d r =
     (if \<not> is_authenticated_or_read_only r then Inl NotAuthenticated
      else Inr (200, map category_repr (category_queryset d r)))"

definition category_retrieve :: "db \<Rightarrow> request \<Rightarrow> pk \<Rightarrow> category_out response" where
  "category_retrieve d r k =
     (if \<not> is_authenticated_or_read_only r then Inl NotAuthenticated
      else case category_get_object d r k of
             Inl err \<Rightarrow> Inl err
           | Inr c \<Rightarrow> Inr (200, category_repr c))"

definition category_create :: "db \<Rightarrow> request \<Rightarrow> category_in \<Rightarrow> category_out response \<times> db" where
  "category_create d r i =
     (if \<not> is_authenticated_or_read_only r then (Inl NotAuthenticated, d)
      else
        (let errs = category_in_errors False i
         in if errs \<noteq> [] then (Inl (Invalid errs), d)
            else
              (let c0 = apply_category_in \<lparr>cat_id = 0, cat_name = [], cat_description = None\<rparr> i;
                   (c, d') = create_category d (cat_name c0) (cat_description c0)
               in (Inr (201, category_repr c), d'))))"

definition category_update_view :: "db \<Rightarrow> request \<Rightarrow> pk \<Rightarrow> category_in \<Rightarrow> category_out response \<times> db" where
  "category_update_view d r k i =
     (if \<not> is_authenticated_or_read_only r then (Inl NotAuthenticated, d)
      else case category_get_object d r k of
             Inl err \<Rightarrow> (Inl err, d)
           | Inr c \<Rightarrow>
               (let errs = category_in_errors (req_method r = PATCH) i
                in if errs \<noteq> [] then (Inl (Invalid errs), d)
                   else (let c' = apply_category_in c i in (Inr (200, category_repr c'), save_category d c'))))"

definition category_destroy :: "db \<Rightarrow> request \<Rightarrow> pk \<Rightarrow> unit response \<times> db" where
  "category_destroy d r k =
     (if \<not> is_authenticated_or_read_only r then (Inl NotAuthenticated, d)
      else case category_get_object d r k of
             Inl err \<Rightarrow> (Inl err, d)
           | Inr c \<Rightarrow> (Inr (204, ()), delete_category d (cat_id c)))"

text \<open>\<open>name = models.CharField(max_length=100)\<close> (models.py:5): a name of 1 to 100
  characters after the serializer's stripping.\<close>

definition cat_names_ok :: "db \<Rightarrow> bool" where
  "cat_names_ok d \<longleftrightarrow> (\<forall>c \<in> set (categories d). 0 < length (cat_name c) \<and> length (cat_name c) \<le> 100)"

lemmas category_view_defs [model_simps] =
  category_search_fields_def category_ordering_fields_def category_queryset_def
  category_get_object_def category_repr_def category_in_errors_def apply_category_in_def
  category_list_def category_retrieve_def category_create_def category_update_view_def category_destroy_def

section \<open>Properties\<close>

lemma category_get_object_in:
  "category_get_object d r k = Inr c \<Longrightarrow> c \<in> set (categories d) \<and> cat_id c = k"
  using set_search_filter
  by (fastforce simp: category_get_object_def category_queryset_def split: option.splits dest!: find_key_in)

text \<open>C11: Deleting a category through the API (an authenticated DELETE on a category the request can see) answers 204 and keeps every event: the events of that category stay with their category cleared, all other events are unchanged, no event refers to the category afterwards, and attendance rows are untouched.\<close>

theorem category_destroy_keeps_events:
  assumes auth: "req_user r = Some uid" and obj: "category_get_object d r k = Inr c"
  shows "\<exists>d'. category_destroy d r k = (Inr (204, ()), d') \<and>
           map ev_id (events d') = map ev_id (events d) \<and>
           (\<forall>e \<in> set (events d). category e \<noteq> Some k \<longrightarrow> e \<in> set (events d')) \<and>
           (\<forall>e \<in> set (events d). category e = Some k \<longrightarrow> e\<lparr>category := None\<rparr> \<in> set (events d')) \<and>
           (\<forall>e \<in> set (events d'). category e \<noteq> Some k) \<and>
           attendances d' = attendances d \<and> k \<notin> cat_id ` set (categories d')"
proof -
  from obj have k: "cat_id c = k" by (auto dest: category_get_object_in)
  have "category_destroy d r k = (Inr (204, ()), delete_category d k)"
    using auth obj k by (simp add: category_destroy_def is_authenticated_or_read_only_def)
  moreover have "map ev_id (events (delete_category d k)) = map ev_id (events d)"
    by (simp add: delete_category_def)
  ultimately show ?thesis
    by (auto simp: delete_category_def)
qed

lemma category_handlers_wf:
  "db_wf d \<Longrightarrow> db_wf (snd (category_create d r i)) \<and> db_wf (snd (category_update_view d r k i))
     \<and> db_wf (snd (category_destroy d r k))"
  by (auto simp: category_create_def category_update_view_def category_destroy_def Let_def
      split: sum.splits prod.splits intro: create_category_wf save_category_wf delete_category_wf)

lemma cat_names_ok_subset:
  "set (categories d') \<subseteq> set (categories d) \<union> {c. 0 < length (cat_name c) \<and> length (cat_name c) \<le> 100} \<Longrightarrow>
   cat_names_ok d \<Longrightarrow> cat_names_ok d'"
  by (auto simp: cat_names_ok_def)

lemma apply_category_in_name:
  "category_in_errors p i = [] \<Longrightarrow> 0 < length (cat_name c) \<and> length (cat_name c) \<le> 100 \<Longrightarrow>
   0 < length (cat_name (apply_category_in c i)) \<and> length (cat_name (apply_category_in c i)) \<le> 100"
  by (cases "ci_name i") (auto simp: apply_category_in_def category_in_errors_def dest: char_field_ok)

lemma apply_category_in_new_name:
  "category_in_errors False i = [] \<Longrightarrow>
   0 < length (cat_name (apply_category_in c i)) \<and> length (cat_name (apply_category_in c i)) \<le> 100"
proof (cases "ci_name i")
  case None
  moreover assume "category_in_errors False i = []"
  ultimately show ?thesis by (simp add: category_in_errors_def char_field_errors_def)
next
  case (Some s)
  moreover assume "category_in_errors False i = []"
  ultimately show ?thesis by (auto simp: apply_category_in_def category_in_errors_def dest: char_field_ok)
qed

lemma category_handlers_names:
  "cat_names_ok d \<Longrightarrow> cat_names_ok (snd (category_create d r i)) \<and> cat_names_ok (snd (category_update_view d r k i))
     \<and> cat_names_ok (snd (category_destroy d r k))"
proof (intro conjI)
  assume ok: "cat_names_ok d"
  show "cat_names_ok (snd (category_create d r i))"
    using ok apply_category_in_new_name [of i]
    by (auto simp: category_create_def create_category_def Let_def cat_names_ok_def)
  show "cat_names_ok (snd (category_update_view d r k i))"
  proof (rule cat_names_ok_subset [OF _ ok])
    show "set (categories (snd (category_update_view d r k i))) \<subseteq>
          set (categories d) \<union> {c. 0 < length (cat_name c) \<and> length (cat_name c) \<le> 100}"
      using ok apply_category_in_name
      by (auto simp: category_update_view_def save_category_def set_replace_by Let_def cat_names_ok_def
          split: sum.splits if_splits dest!: category_get_object_in)
  qed
  show "cat_names_ok (snd (category_destroy d r k))"
    using ok by (auto simp: category_destroy_def delete_category_def cat_names_ok_def split: sum.splits)
qed

end
