(* ===== verification/Router.thy ===== *)
theory Router
  imports EventViews AttendanceViews CategoryViews
begin

text \<open>
  The routing table of \<open>src/backend/event_app/urls.py\<close>: a \<open>DefaultRouter\<close> with the
  three view sets registered under \<open>categories\<close>, \<open>events\<close> and \<open>attendances\<close>
  (urls.py:5-8), included at the root (urls.py:10-12). The router's URL list is modelled
  as the framework builds it: the API root first, then per view set the list route, its
  extra list actions, the detail route with the lookup \<open>[^/.]+\<close>, and its extra detail
  actions (extra actions in name order); a path resolves to the first pattern it
  matches. A request then runs as \<open>APIView.dispatch\<close> runs it: the permission check of
  the route's view, then the handler the method maps to, or 405. The lookup string
  becomes a key as Django's \<open>AutoField\<close> reads it (\<open>int()\<close>); a lookup \<open>int()\<close>
  rejects is caught by \<open>get_object_or_404\<close> and answers 404 after the query set is built.
  Format suffixes (\<open>.json\<close>), the browsable API and \<open>OPTIONS\<close> metadata are not modelled.
\<close>

section \<open>The URL table\<close>

datatype resource = Categories | Events | Attendances

datatype endpoint =
    ApiRoot
  | ListE resource
  | DetailE resource
  | RegisterE
  | AttendeesE
  | MyEventsE

datatype seg = Lit string | Lookup

text \<open>\<open>lookup_value_regex = '[^/.]+'\<close>; a segment never holds \<open>/\<close>.\<close>

definition lookup_ok :: "string \<Rightarrow> bool" where
  "lookup_ok s \<longleftrightarrow> s \<noteq> [] \<and> CHR ''.'' \<notin> set s"

definition router_urls :: "(seg list \<times> endpoint) list" where
  "router_urls =
     [([], ApiRoot),
      ([Lit ''categories''], ListE Categories),
      ([Lit ''categories'', Lookup], DetailE Categories),
      ([Lit ''events''], ListE Events),
      ([Lit ''events'', Lookup], DetailE Events),
      ([Lit ''events'', Lookup, Lit ''attendees''], AttendeesE),
      ([Lit ''events'', Lookup, Lit ''register''], RegisterE),
      ([Lit ''attendances''], ListE Attendances),
      ([Lit ''attendances'', Lit ''my_events''], MyEventsE),
      ([Lit ''attendances'', Lookup], DetailE Attendances)]"

fun match_segs :: "seg list \<Rightarrow> string list \<Rightarrow> string list option" where
  "match_segs [] [] = Some []"
| "match_segs (Lit s # ps) (x # xs) = (if x = s then match_segs ps xs else None)"
| "match_segs (Lookup # ps) (x # xs) =
     (if lookup_ok x then map_option (Cons x) (match_segs ps xs) else None)"
| "match_segs _ _ = None"

fun first_match :: "(seg list \<times> endpoint) list \<Rightarrow> string list \<Rightarrow> (endpoint \<times> string list) option" where
  "first_match [] parts = None"
| "first_match ((ps, e) # us) parts =
     (case match_segs ps parts of Some args \<Rightarrow> Some (e, args) | None \<Rightarrow> first_match us parts)"

text \<open>Every pattern ends in \<open>/$\<close> (\<open>trailing_slash = '/'\<close>): the path is its segments,
  each followed by a slash.\<close>

definition resolve :: "string \<Rightarrow> (endpoint \<times> string list) option" where
  "resolve p =
     (let parts = split_on CHR ''/'' p
      in if last parts = [] then first_match router_urls (butlast parts) else None)"

text \<open>The key a lookup denotes: \<open>int()\<close> of the segment; a negative number names no row.\<close>

definition lookup_pk :: "string \<Rightarrow> pk option" where
  "lookup_pk s = (case py_int s of Some i \<Rightarrow> if 0 \<le> i then Some (nat i) else None | None \<Rightarrow> None)"

definition detail_key :: "string list \<Rightarrow> pk option" where
  "detail_key args = (case args of [s] \<Rightarrow> lookup_pk s | _ \<Rightarrow> None)"

section \<open>Dispatch\<close>

text \<open>The parsed JSON body, as each serializer reads it.\<close>

record body =
  b_category :: category_in
  b_event :: event_in
  b_attendance :: attendance_in

datatype payload =
    PNone
  | PRoot "(string \<times> string) list"
  | PCategory category_out
  | PCategories "category_out list"
  | PEvent event_out
  | PEvents "event_out list"
  | PAttendance attendance_out
  | PAttendances "attendance_out list"

datatype action = AList | ACreate | ARetrieve | AUpdate | ADestroy | ARegister | AAttendees | AMyEvents
  | ARoot | AOptions

text \<open>The method map of each route (\<open>SimpleRouter.routes\<close> and the \<open>@action\<close>
  decorators, views.py:43, 62, 80); \<open>HEAD\<close> runs the \<open>GET\<close> handler.\<close>

fun action_of :: "endpoint \<Rightarrow> http_method \<Rightarrow> action option" where
  "action_of e OPTIONS = Some AOptions"
| "action_of ApiRoot m = (if m \<in> {GET, HEAD} then Some ARoot else None)"
| "action_of (ListE _) m = (if m \<in> {GET, HEAD} then Some AList else if m = POST then Some ACreate else None)"
| "action_of (DetailE _) m =
     (if m \<in> {GET, HEAD} then Some ARetrieve else if m \<in> {PUT, PATCH} then Some AUpdate
      else if m = DELETE then Some ADestroy else None)"
| "action_of RegisterE m = (if m = POST then Some ARegister else None)"
| "action_of AttendeesE m = (if m \<in> {GET, HEAD} then Some AAttendees else None)"
| "action_of MyEventsE m = (if m \<in> {GET, HEAD} then Some AMyEvents else None)"

text \<open>The \<open>permission_classes\<close> of each view set and of the actions that override
  them: \<open>IsAuthenticatedOrReadOnly\<close> on \<open>CategoryViewSet\<close> and \<open>EventViewSet\<close>,
  \<open>IsAuthenticated\<close> on the \<open>register\<close> and \<open>attendees\<close> actions and on
  \<open>AttendanceViewSet\<close>, whose \<open>my_events\<close> action keeps the view set's class.\<close>

definition category_permission :: "request \<Rightarrow> bool" where
  "category_permission r \<longleftrightarrow> is_authenticated_or_read_only r"

definition event_permission :: "request \<Rightarrow> bool" where
  "event_permission r \<longleftrightarrow> is_authenticated_or_read_only r"

definition register_permission :: "request \<Rightarrow> bool" where
  "register_permission r \<longleftrightarrow> is_authenticated r"

definition attendees_permission :: "request \<Rightarrow> bool" where
  "attendees_permission r \<longleftrightarrow> is_authenticated r"

definition attendance_permission :: "request \<Rightarrow> bool" where
  "attendance_permission r \<longleftrightarrow> is_authenticated r"

lemmas permission_defs [model_simps] = category_permission_def event_permission_def
  register_permission_def attendees_permission_def attendance_permission_def

text \<open>\<open>APIView.check_permissions\<close>: the classes of the view a route builds; the API root
  allows everyone.\<close>

fun route_permission :: "endpoint \<Rightarrow> request \<Rightarrow> bool" where
  "route_permission ApiRoot r = True"
| "route_permission (ListE Categories) r = category_permission r"
| "route_permission (DetailE Categories) r = category_permission r"
| "route_permission (ListE Events) r = event_permission r"
| "route_permission (DetailE Events) r = event_permission r"
| "route_permission (ListE Attendances) r = attendance_permission r"
| "route_permission (DetailE Attendances) r = attendance_permission r"
| "route_permission RegisterE r = register_permission r"
| "route_permission AttendeesE r = attendees_permission r"
| "route_permission MyEventsE r = attendance_permission r"

definition lift :: "('a \<Rightarrow> payload) \<Rightarrow> 'a response \<times> db \<Rightarrow> payload response \<times> db" where
  "lift f rd = (map_sum id (\<lambda>(c, x). (c, f x)) (fst rd), snd rd)"

definition lift_read :: "('a \<Rightarrow> payload) \<Rightarrow> 'a response \<Rightarrow> db \<Rightarrow> payload response \<times> db" where
  "lift_read f res d = lift f (res, d)"

definition api_root_links :: "(string \<times> string) list" where
  "api_root_links = [(''categories'', ''categories/''), (''events'', ''events/''), (''attendances'', ''attendances/'')]"

text \<open>A detail request whose lookup names no key: \<open>get_object\<close> builds the query set
  (where the event filters may raise) and then answers 404.\<close>

fun missing_object :: "db \<Rightarrow> request \<Rightarrow> resource \<Rightarrow> payload response" where
  "missing_object d r Events = (case event_queryset d r of Inl err \<Rightarrow> Inl err | Inr _ \<Rightarrow> Inl NotFound)"
| "missing_object d r _ = Inl NotFound"

fun run_action :: "db \<Rightarrow> request \<Rightarrow> resource \<Rightarrow> action \<Rightarrow> pk option \<Rightarrow> body \<Rightarrow> payload response \<times> db" where
  "run_action d r Categories AList k b = lift_read PCategories (category_list d r) d"
| "run_action d r Categories ACreate k b = lift PCategory (category_create d r (b_category b))"
| "run_action d r Events AList k b = lift_read PEvents (event_list d r) d"
| "run_action d r Events ACreate k b = lift PEvent (event_create d r (b_event b))"
| "run_action d r Attendances AList k b = lift_read PAttendances (attendance_list d r) d"
| "run_action d r Attendances ACreate k b = lift PAttendance (attendance_create d r (b_attendance b))"
| "run_action d r Attendances AMyEvents k b = lift_read PAttendances (my_events d r) d"
| "run_action d r res a None b = (missing_object d r res, d)"
| "run_action d r Categories ARetrieve (Some k) b = lift_read PCategory (category_retrieve d r k) d"
| "run_action d r Categories AUpdate (Some k) b = lift PCategory (category_update_view d r k (b_category b))"
| "run_action d r Categories ADestroy (Some k) b = lift (\<lambda>_. PNone) (category_destroy d r k)"
| "run_action d r Events ARetrieve (Some k) b = lift_read PEvent (event_retrieve d r k) d"
| "run_action d r Events AUpdate (Some k) b = lift PEvent (event_update d r k (b_event b))"
| "run_action d r Events ADestroy (Some k) b = lift (\<lambda>_. PNone) (event_destroy d r k)"
| "run_action d r Events ARegister (Some k) b = lift PAttendance (register d r k)"
| "run_action d r Events AAttendees (Some k) b = lift_read PAttendances (attendees d r k) d"
| "run_action d r Attendances ARetrieve (Some k) b = lift_read PAttendance (attendance_retrieve d r k) d"
| "run_action d r Attendances AUpdate (Some k) b = lift PAttendance (attendance_update d r k (b_attendance b))"
| "run_action d r Attendances ADestroy (Some k) b = lift (\<lambda>_. PNone) (attendance_destroy d r k)"
| "run_action d r res a k b = (Inl MethodNotAllowed, d)"

fun endpoint_resource :: "endpoint \<Rightarrow> resource" where
  "endpoint_resource (ListE res) = res"
| "endpoint_resource (DetailE res) = res"
| "endpoint_resource RegisterE = Events"
| "endpoint_resource AttendeesE = Events"
| "endpoint_resource MyEventsE = Attendances"
| "endpoint_resource ApiRoot = Categories"

definition dispatch :: "db \<Rightarrow> request \<Rightarrow> string \<Rightarrow> body \<Rightarrow> payload response \<times> db" where
  "dispatch d r p b =
     (case resolve p of
        None \<Rightarrow> (Inl NotFound, d)
      | Some (e, args) \<Rightarrow>
          if \<not> route_permission e r then (Inl NotAuthenticated, d)
          else
            (case action_of e (req_method r) of
               None \<Rightarrow> (Inl MethodNotAllowed, d)
             | Some AOptions \<Rightarrow> (Inr (200, PNone), d)
             | Some ARoot \<Rightarrow> (Inr (200, PRoot api_root_links), d)
             | Some a \<Rightarrow> run_action d r (endpoint_resource e) a (detail_key args) b))"

lemmas router_defs [model_simps] =
  lookup_ok_def router_urls_def resolve_def lookup_pk_def detail_key_def lift_def lift_read_def
  api_root_links_def dispatch_def

section \<open>Reverse: the URL of a route\<close>

datatype route = RootR | ListR resource | DetailR resource pk | RegisterR pk | AttendeesR pk | MyEventsR

fun resource_prefix :: "resource \<Rightarrow> string" where
  "resource_prefix Categories = ''categories''"
| "resource_prefix Events = ''events''"
| "resource_prefix Attendances = ''attendances''"

fun url_of :: "route \<Rightarrow> string" where
  "url_of RootR = []"
| "url_of (ListR res) = resource_prefix res @ ''/''"
| "url_of (DetailR res k) = resource_prefix res @ ''/'' @ nat_str k @ ''/''"
| "url_of (RegisterR k) = ''events/'' @ nat_str k @ ''/register/''"
| "url_of (AttendeesR k) = ''events/'' @ nat_str k @ ''/attendees/''"
| "url_of MyEventsR = ''attendances/my_events/''"

fun route_endpoint :: "route \<Rightarrow> endpoint" where
  "route_endpoint RootR = ApiRoot"
| "route_endpoint (ListR res) = ListE res"
| "route_endpoint (DetailR res k) = DetailE res"
| "route_endpoint (RegisterR k) = RegisterE"
| "route_endpoint (AttendeesR k) = AttendeesE"
| "route_endpoint MyEventsR = MyEventsE"

fun route_key :: "route \<Rightarrow> pk option" where
  "route_key (DetailR res k) = Some k"
| "route_key (RegisterR k) = Some k"
| "route_key (AttendeesR k) = Some k"
| "route_key _ = None"

section \<open>Reachable databases\<close>

text \<open>The databases the running system can reach: a fresh database, changed by API
  requests (any method, path, user and body) and by user accounts created and deleted
  through \<open>django.contrib.auth\<close>.\<close>

inductive api_reachable :: "db \<Rightarrow> bool" where
  start: "api_reachable empty_db"
| request: "api_reachable d \<Longrightarrow> api_reachable (snd (dispatch d r p b))"
| signup: "api_reachable d \<Longrightarrow> create_user d u = Inr d' \<Longrightarrow> api_reachable d'"
| remove_user: "api_reachable d \<Longrightarrow> api_reachable (delete_user d k)"

section \<open>Lemmas\<close>

lemma split_on_acc_append:
  "sep \<notin> set xs \<Longrightarrow> split_on_acc sep cur (xs @ ys) = split_on_acc sep (rev xs @ cur) ys"
  by (induction xs arbitrary: cur) auto

lemma nat_str_is_digit: "c \<in> set (nat_str n) \<Longrightarrow> is_digit c"
  using nat_str_digits digit_char_props(1) by blast

lemma nat_str_chars [simp]:
  "CHR ''/'' \<notin> set (nat_str n)" "CHR ''.'' \<notin> set (nat_str n)"
  "nat_str n \<noteq> ''my_events''"
proof -
  have "\<not> is_digit CHR ''/''" "\<not> is_digit CHR ''.''" "\<not> is_digit CHR ''m''"
    by (simp_all add: is_digit_def less_eq_char_def)
  then show "CHR ''/'' \<notin> set (nat_str n)" "CHR ''.'' \<notin> set (nat_str n)"
    "nat_str n \<noteq> ''my_events''"
    using nat_str_is_digit [of _ n] by (metis list.set_intros(1))+
qed

lemma lookup_pk_nat_str [simp]: "lookup_pk (nat_str k) = Some k"
  by (simp add: lookup_pk_def py_int_nat_str)

lemma lookup_ok_nat_str [simp]: "lookup_ok (nat_str k)"
  by (simp add: lookup_ok_def)



text \<open>Round trip of the routing table: the URL the router reverses for any route (the API root, a list, an item, register, attendees, my_events) resolves back to that route's endpoint, and its lookup reads back as the route's key; in particular attendances/my_events/ reaches my_events, not the detail route with the lookup my_events.\<close>

theorem resolve_url_of:
  "\<exists>args. resolve (url_of rt) = Some (route_endpoint rt, args) \<and> detail_key args = route_key rt"
proof (cases rt)
  case (ListR res)
  then show ?thesis by (cases res) (simp_all add: resolve_def router_urls_def split_on_def split_on_acc_append detail_key_def Let_def)
next
  case (DetailR res k)
  then show ?thesis by (cases res) (simp_all add: resolve_def router_urls_def split_on_def split_on_acc_append detail_key_def Let_def)
qed (simp_all add: resolve_def router_urls_def split_on_def split_on_acc_append detail_key_def Let_def)


lemma run_action_wf: "db_wf d \<Longrightarrow> db_wf (snd (run_action d r res a k b))"
proof (induction d r res a k b rule: run_action.induct)
  case (15 d r k b)
  then show ?case
    using register_effect [of d r k] insert_attendance_wf by (simp add: lift_def) metis
qed (simp_all add: lift_def lift_read_def event_handlers_wf category_handlers_wf
      attendance_create_wf attendance_update_wf attendance_destroy_wf)

lemma dispatch_preserves_wf: "db_wf d \<Longrightarrow> db_wf (snd (dispatch d r p b))"
  by (auto simp: dispatch_def run_action_wf split: option.splits prod.splits action.splits)

lemma run_action_reads:
  "a \<in> {AList, ARetrieve, AAttendees, AMyEvents} \<Longrightarrow> snd (run_action d r res a k b) = d"
  by (cases "(d, r, res, a, k, b)" rule: run_action.cases) (auto simp: lift_read_def lift_def)

lemma action_of_safe:
  "safe_method m \<Longrightarrow> action_of e m = Some a \<Longrightarrow> a \<in> {AList, ARetrieve, AAttendees, AMyEvents, ARoot, AOptions}"
  by (cases e) (auto simp: safe_method_def split: if_splits)

lemma unsafe_needs_user:
  "\<not> safe_method (req_method r) \<Longrightarrow> req_user r = None \<Longrightarrow> route_permission e r \<Longrightarrow> e = ApiRoot"
  by (cases "(e, r)" rule: route_permission.cases)
     (simp_all add: permission_defs is_authenticated_def is_authenticated_or_read_only_def)

text \<open>C23: Safe methods (GET, HEAD, OPTIONS) and anonymous requests never change the database, on every path of the API, whatever the body.\<close>

theorem reads_never_write:
  "safe_method (req_method r) \<or> req_user r = None \<Longrightarrow> snd (dispatch d r p b) = d"
proof (cases "safe_method (req_method r)")
  case True
  then show ?thesis
    by (auto simp: dispatch_def run_action_reads split: option.splits prod.splits action.splits
        dest: action_of_safe)
next
  case False
  assume "safe_method (req_method r) \<or> req_user r = None"
  with False have anon: "req_user r = None" by simp
  have "action_of ApiRoot (req_method r) \<in> {None, Some AOptions}"
    using False by (cases "req_method r") (simp_all add: safe_method_def)
  with False anon show ?thesis
    by (auto simp: dispatch_def dest: unsafe_needs_user split: option.splits prod.splits action.splits)
qed

text \<open>Every database the system can reach from a fresh one, through any sequence of API requests and account creations and deletions, is well formed: keys distinct and below their sequences, every foreign key resolved, at most one attendance row per (event, user).\<close>

theorem api_reachable_wf: "api_reachable d \<Longrightarrow> db_wf d"
proof (induction rule: api_reachable.induct)
  case start
  then show ?case by (rule empty_db_wf)
next
  case (request d r p b)
  then show ?case by (simp add: dispatch_preserves_wf)
next
  case (signup d u d')
  then show ?case by (blast intro: create_user_wf)
next
  case (remove_user d k)
  then show ?case by (simp add: delete_user_wf)
qed


lemma resolve_detail:
  "lookup_ok s \<Longrightarrow> CHR ''/'' \<notin> set s \<Longrightarrow> s \<noteq> ''my_events'' \<Longrightarrow>
   resolve (resource_prefix res @ ''/'' @ s @ ''/'') = Some (DetailE res, [s])"
  by (cases res) (simp_all add: resolve_def router_urls_def split_on_def split_on_acc_append Let_def)

text \<open>A detail URL whose lookup int() rejects (or that is negative), for instance categories/abc/, answers 404 to a request the route permits, after the query set is built (so ?category=x still raises first on events), and changes nothing.\<close>

theorem unparsable_lookup_not_found:
  assumes "lookup_ok s" "CHR ''/'' \<notin> set s" "s \<noteq> ''my_events''" "lookup_pk s = None"
    and "route_permission (DetailE res) r" and "req_method r \<in> {GET, PUT, PATCH, DELETE}"
  shows "dispatch d r (resource_prefix res @ ''/'' @ s @ ''/'') b = (missing_object d r res, d)
         \<and> (res \<noteq> Events \<longrightarrow> missing_object d r res = Inl NotFound)"
proof -
  have rs: "resolve (resource_prefix res @ ''/'' @ s @ ''/'') = Some (DetailE res, [s])"
    using assms(1-3) by (rule resolve_detail)
  show ?thesis
    unfolding dispatch_def rs using assms(4-) by (cases res) (auto simp: detail_key_def)
qed

text \<open>A method a route does not map answers 405 to a request the route permits and 403 to one it does not: an authenticated DELETE on a list URL answers 405, an anonymous one 403, and neither changes the database.\<close>

theorem list_delete_not_allowed:
  "dispatch d r (url_of (ListR res)) b =
     (if req_user r = None then Inl NotAuthenticated else Inl MethodNotAllowed, d)"
  if "req_method r = DELETE"
  using that
  by (cases res) (simp_all add: dispatch_def resolve_def router_urls_def split_on_def Let_def
      permission_defs is_authenticated_def is_authenticated_or_read_only_def safe_method_def)

lemma other_handlers_names:
  "cat_names_ok (snd (event_create d r i)) = cat_names_ok d"
  "cat_names_ok (snd (event_update d r k i)) = cat_names_ok d"
  "cat_names_ok (snd (event_destroy d r k)) = cat_names_ok d"
  "cat_names_ok (snd (register d r k)) = cat_names_ok d"
  "cat_names_ok (snd (attendance_create d r j)) = cat_names_ok d"
  "cat_names_ok (snd (attendance_update d r k j)) = cat_names_ok d"
  "cat_names_ok (snd (attendance_destroy d r k)) = cat_names_ok d"
  unfolding cat_names_ok_def
  by (auto simp: event_create_def event_update_def event_destroy_def register_def attendance_create_def
      attendance_update_def attendance_destroy_def insert_event_def save_event_def delete_event_def
      insert_attendance_def save_attendance_def delete_attendance_def Let_def
      split: handler_splits if_splits)

lemma run_action_names: "cat_names_ok d \<Longrightarrow> cat_names_ok (snd (run_action d r res a k b))"
  by (induction d r res a k b rule: run_action.induct)
     (simp_all add: lift_def lift_read_def category_handlers_names other_handlers_names)

lemma dispatch_names: "cat_names_ok d \<Longrightarrow> cat_names_ok (snd (dispatch d r p b))"
  by (auto simp: dispatch_def run_action_names split: option.splits prod.splits action.splits)

text \<open>C27: Bounds: in every reachable database every category name has between 1 and 100 characters, the max_length of models.py, although only the serializer enforces it (SQLite does not check varchar lengths): no API request, account creation or deletion breaks it.\<close>

theorem reachable_category_names:
  "api_reachable d \<Longrightarrow> \<forall>c \<in> set (categories d). 0 < length (cat_name c) \<and> length (cat_name c) \<le> 100"
proof (induction rule: api_reachable.induct)
  case start
  then show ?case by (simp add: empty_db_def)
next
  case (request d r p b)
  then show ?case using dispatch_names [of d r p b] by (simp add: cat_names_ok_def)
next
  case (signup d u d')
  then show ?case by (auto simp: create_user_def split: if_splits)
next
  case (remove_user d k)
  then show ?case by (simp add: delete_user_def Let_def)
qed

lemma resolve_detail_url:
  "resolve (url_of (DetailR res k)) = Some (DetailE res, [nat_str k])"
  by (cases res) (simp_all add: resolve_def router_urls_def split_on_def split_on_acc_append Let_def)

lemma event_retrieve_id: "event_retrieve d r k = Inr (c, out) \<Longrightarrow> eo_id out = k \<and> c = 200"
  by (auto simp: event_retrieve_def split: if_splits sum.splits option.splits
      dest: event_get_object_in event_repr_id)

lemma event_update_id: "fst (event_update d r k i) = Inr (c, out) \<Longrightarrow> eo_id out = k \<and> c = 200"
  by (auto simp: event_update_def save_event_def Let_def
      split: handler_splits if_splits
      dest!: event_get_object_in event_repr_id)

lemma event_destroy_code: "fst (event_destroy d r k) = Inr (c, u) \<Longrightarrow> c = 204"
  by (auto simp: event_destroy_def split: if_splits sum.splits)

text \<open>The response type of the event item route: every successful answer to /events/k/ is either an event whose id is k with status 200 (GET, HEAD, PUT, PATCH) or an empty body with 200 or 204 (OPTIONS, DELETE), whatever the method, user, query and body.\<close>

theorem event_detail_payload:
  "fst (dispatch d r (url_of (DetailR Events k)) b) = Inr (c, p) \<Longrightarrow>
   (\<exists>out. p = PEvent out \<and> eo_id out = k \<and> c = 200) \<or> (p = PNone \<and> c \<in> {200, 204})"
  unfolding dispatch_def resolve_detail_url
  by (cases "req_method r")
     (auto simp: detail_key_def lift_def lift_read_def map_sum_eq_Inr
       split: if_splits sum.splits prod.splits
       dest: event_retrieve_id event_update_id event_destroy_code)

end
