(* ===== verification/Concurrency.thy ===== *)
theory Concurrency
  imports EventViews
begin

text \<open>
  Concurrent registrations (specification section 5). \<open>EventViewSet.register\<close>
  (src/backend/event_app/views.py:43-60) is not one database operation but four, each
  its own autocommit statement: \<open>get_object()\<close> reads the event (views.py:45), the
  \<open>exists()\<close> query checks for a row of the pair (views.py:49), the \<open>count()\<close> query
  counts the event's rows against the \<open>max_attendees\<close> of the event object read first
  (views.py:54), and \<open>objects.create\<close> inserts the row, where the database checks the
  foreign keys and the unique pair (views.py:58). A request in flight is a thread with a
  program counter at one of these accesses; the server runs the accesses of concurrent
  requests in any interleaving. The serializer's reads after the insert are part of the
  insert step.
\<close>

section \<open>One request, one access at a time\<close>

datatype reg_pc =
    AtGet
  | AtExists pk event
  | AtCount pk event
  | AtCreate pk event
  | Finished "attendance_out response"

fun reg_step :: "db \<Rightarrow> request \<Rightarrow> pk \<Rightarrow> reg_pc \<Rightarrow> reg_pc \<times> db" where
  "reg_step d r k AtGet =
     (case req_user r of
        None \<Rightarrow> (Finished (Inl NotAuthenticated), d)
      | Some uid \<Rightarrow>
          (case event_get_object d r k of
             Inl err \<Rightarrow> (Finished (Inl err), d)
           | Inr ev \<Rightarrow> (AtExists uid ev, d)))"
| "reg_step d r k (AtExists uid ev) =
     (if attendance_exists d (ev_id ev) uid then (Finished (Inl (BadRequest msg_already_registered)), d)
      else (AtCount uid ev, d))"
| "reg_step d r k (AtCount uid ev) =
     (if capacity_reached d ev then (Finished (Inl (BadRequest msg_capacity)), d)
      else (AtCreate uid ev, d))"
| "reg_step d r k (AtCreate uid ev) =
     (case insert_attendance d (ev_id ev) uid Registered (req_now r) of
        Inl (IntegrityError m) \<Rightarrow> (Finished (Inl (ServerError m)), d)
      | Inr (a, d') \<Rightarrow>
          (case attendance_repr d' a of
             None \<Rightarrow> (Finished (Inl (ServerError ''DoesNotExist'')), d')
           | Some out \<Rightarrow> (Finished (Inr (201, out)), d')))"
| "reg_step d r k (Finished res) = (Finished res, d)"

text \<open>The accesses a thread still has to make.\<close>

fun pc_rank :: "reg_pc \<Rightarrow> nat" where
  "pc_rank AtGet = 4"
| "pc_rank (AtExists _ _) = 3"
| "pc_rank (AtCount _ _) = 2"
| "pc_rank (AtCreate _ _) = 1"
| "pc_rank (Finished _) = 0"

fun finished :: "reg_pc \<Rightarrow> bool" where
  "finished (Finished _) = True"
| "finished _ = False"

text \<open>A request run alone: its accesses back to back.\<close>

fun run_alone :: "nat \<Rightarrow> db \<Rightarrow> request \<Rightarrow> pk \<Rightarrow> reg_pc \<Rightarrow> reg_pc \<times> db" where
  "run_alone 0 d r k pc = (pc, d)"
| "run_alone (Suc n) d r k pc = (let (pc', d') = reg_step d r k pc in run_alone n d' r k pc')"

section \<open>Interleaving\<close>

text \<open>The server: the database and the requests in flight, each with its request,
  the event key of its URL and its program counter. A step runs the next access of one
  unfinished request.\<close>

type_synonym thread = "request \<times> pk \<times> reg_pc"
type_synonym server = "db \<times> thread list"

inductive conc_step :: "server \<Rightarrow> server \<Rightarrow> bool" where
  run: "i < length ts \<Longrightarrow> ts ! i = (r, k, pc) \<Longrightarrow> \<not> finished pc \<Longrightarrow>
        reg_step d r k pc = (pc', d') \<Longrightarrow> conc_step (d, ts) (d', ts[i := (r, k, pc')])"

inductive_cases conc_stepE: "conc_step s s'"

definition total_rank :: "thread list \<Rightarrow> nat" where
  "total_rank ts = sum_list (map (\<lambda>(r, k, pc). pc_rank pc) ts)"

definition all_finished :: "thread list \<Rightarrow> bool" where
  "all_finished ts \<longleftrightarrow> list_all (\<lambda>(r, k, pc). finished pc) ts"

fun run_schedule :: "server \<Rightarrow> nat list \<Rightarrow> server" where
  "run_schedule s [] = s"
| "run_schedule (d, ts) (i # is) =
     (if i < length ts \<and> \<not> finished (snd (snd (ts ! i)))
      then (let (r, k, pc) = ts ! i; (pc', d') = reg_step d r k pc
            in run_schedule (d', ts[i := (r, k, pc')]) is)
      else run_schedule (d, ts) is)"

section \<open>Lemmas\<close>

text \<open>Run alone, the four accesses of a registration, back to back, give exactly the response and the database of the register handler: the step model refines the sequential one.\<close>

theorem register_steps_equiv:
  "run_alone 4 d r k AtGet = (Finished (fst (register d r k)), snd (register d r k))"
  by (simp add: register_def numeral_eq_Suc split: handler_splits)

lemma reg_step_rank:
  "\<not> finished pc \<Longrightarrow> reg_step d r k pc = (pc', d') \<Longrightarrow> pc_rank pc' < pc_rank pc"
  by (cases "(d, r, k, pc)" rule: reg_step.cases)
     (auto split: handler_splits if_splits)

lemma total_rank_update:
  "i < length ts \<Longrightarrow> ts ! i = (r, k, pc) \<Longrightarrow>
   total_rank (ts[i := (r, k, pc')]) + pc_rank pc = total_rank ts + pc_rank pc'"
proof (induction ts arbitrary: i)
  case Nil
  then show ?case by simp
next
  case (Cons t ts)
  then show ?case by (cases i) (auto simp: total_rank_def)
qed

lemma conc_step_rank: "conc_step s s' \<Longrightarrow> total_rank (snd s') < total_rank (snd s)"
proof (induction rule: conc_step.induct)
  case (run i ts r k pc d pc' d')
  from reg_step_rank [OF run(3,4)] total_rank_update [OF run(1,2), of pc'] show ?case by simp
qed

text \<open>No interleaving runs forever: every run of the server from a state is at most as long as the accesses its requests still have to make (four per new request).\<close>

theorem conc_runs_bounded: "(conc_step ^^ n) s s' \<Longrightarrow> n \<le> total_rank (snd s)"
proof (induction n arbitrary: s)
  case 0
  then show ?case by simp
next
  case (Suc n)
  then obtain s1 where st: "conc_step s s1" and rest: "(conc_step ^^ n) s1 s'"
    by (meson relpowp_Suc_D2)
  from Suc.IH [OF rest] conc_step_rank [OF st] show ?case by simp
qed

lemma reg_step_wf: "db_wf d \<Longrightarrow> db_wf (snd (reg_step d r k pc))"
  by (cases "(d, r, k, pc)" rule: reg_step.cases)
     (auto split: handler_splits intro: insert_attendance_wf)

text \<open>C24: Under every interleaving of concurrent registrations the database stays well formed; in particular the unique (event, user) constraint of the database keeps at most one row per pair even when the application's exists() check races.\<close>

theorem conc_preserves_wf: "conc_step\<^sup>*\<^sup>* s s' \<Longrightarrow> db_wf (fst s) \<Longrightarrow> db_wf (fst s')"
proof (induction rule: rtranclp_induct)
  case base
  then show ?case .
next
  case (step s' s'')
  then show ?case
    by (auto elim!: conc_stepE dest: reg_step_wf [of _ _ _ _]) (metis reg_step_wf snd_conv)
qed

lemma progress:
  assumes "\<not> all_finished ts"
  shows "\<exists>s'. conc_step (d, ts) s'"
proof -
  from assms obtain i where i: "i < length ts" "\<not> finished (snd (snd (ts ! i)))"
    by (auto simp: all_finished_def list_all_length case_prod_beta)
  obtain r k pc where t: "ts ! i = (r, k, pc)" by (cases "ts ! i") auto
  obtain pc' d' where st: "reg_step d r k pc = (pc', d')" by fastforce
  from i t have "\<not> finished pc" by simp
  from conc_step.run [OF i(1) t this st] show ?thesis by blast
qed

text \<open>Progress: from every server state some interleaving finishes every request in flight.\<close>

theorem conc_can_finish: "\<exists>s'. conc_step\<^sup>*\<^sup>* (d, ts) s' \<and> all_finished (snd s')"
proof (induction "total_rank ts" arbitrary: d ts rule: less_induct)
  case less
  show ?case
  proof (cases "all_finished ts")
    case True
    then show ?thesis by auto
  next
    case False
    from progress [OF False] obtain s1 where "conc_step (d, ts) s1" by blast
    moreover obtain d' ts' where "s1 = (d', ts')" by fastforce
    ultimately have st: "conc_step (d, ts) (d', ts')" by simp
    from conc_step_rank [OF st] have "total_rank ts' < total_rank ts" by simp
    from less [OF this] obtain s' where "conc_step\<^sup>*\<^sup>* (d', ts') s'" "all_finished (snd s')" by blast
    with st show ?thesis by (meson converse_rtranclp_into_rtranclp)
  qed
qed

lemma run_schedule_reach: "conc_step\<^sup>*\<^sup>* s (run_schedule s is)"
proof (induction "is" arbitrary: s)
  case Nil
  then show ?case by simp
next
  case (Cons i "is")
  obtain d ts where s: "s = (d, ts)" by fastforce
  show ?case
  proof (cases "i < length ts \<and> \<not> finished (snd (snd (ts ! i)))")
    case True
    obtain r k pc where t: "ts ! i = (r, k, pc)" by (cases "ts ! i") auto
    obtain pc' d' where st: "reg_step d r k pc = (pc', d')" by fastforce
    from True t have "conc_step (d, ts) (d', ts[i := (r, k, pc')])"
      by (intro conc_step.run [OF _ t _ st]) auto
    moreover have "run_schedule (d, ts) (i # is) = run_schedule (d', ts[i := (r, k, pc')]) is"
      using True t st by simp
    ultimately show ?thesis
      using Cons.IH [of "(d', ts[i := (r, k, pc')])"] s by (metis converse_rtranclp_into_rtranclp)
  next
    case False
    then have "run_schedule (d, ts) (i # is) = run_schedule (d, ts) is"
      by (simp only: run_schedule.simps if_False)
    with Cons.IH [of s] s show ?thesis by simp
  qed
qed

lemma reg_step_create_ok:
  assumes wf: "db_wf d" and uid: "uid \<in> user_id ` set (users d)" and ev: "ev \<in> set (events d)"
    and fresh: "\<not> attendance_exists d (ev_id ev) uid"
  shows "\<exists>out. reg_step d r k (AtCreate uid ev) =
           (Finished (Inr (201, out)),
            d\<lparr>attendances := attendances d @ [\<lparr>att_id = next_attendance_id d, att_event = ev_id ev,
                 att_user = uid, att_status = Registered, registered_at = req_now r\<rparr>],
              next_attendance_id := Suc (next_attendance_id d)\<rparr>)
         \<and> db_wf (d\<lparr>attendances := attendances d @ [\<lparr>att_id = next_attendance_id d, att_event = ev_id ev,
                 att_user = uid, att_status = Registered, registered_at = req_now r\<rparr>],
              next_attendance_id := Suc (next_attendance_id d)\<rparr>)"
proof -
  from registration_insert [OF assms, of "req_now r"] obtain out where
    ins: "insert_attendance d (ev_id ev) uid Registered (req_now r) =
            Inr (\<lparr>att_id = next_attendance_id d, att_event = ev_id ev, att_user = uid,
                   att_status = Registered, registered_at = req_now r\<rparr>,
                 d\<lparr>attendances := attendances d @ [\<lparr>att_id = next_attendance_id d, att_event = ev_id ev,
                      att_user = uid, att_status = Registered, registered_at = req_now r\<rparr>],
                   next_attendance_id := Suc (next_attendance_id d)\<rparr>)"
    and out: "attendance_repr (d\<lparr>attendances := attendances d @ [\<lparr>att_id = next_attendance_id d,
                 att_event = ev_id ev, att_user = uid, att_status = Registered, registered_at = req_now r\<rparr>],
                 next_attendance_id := Suc (next_attendance_id d)\<rparr>)
               \<lparr>att_id = next_attendance_id d, att_event = ev_id ev, att_user = uid,
                 att_status = Registered, registered_at = req_now r\<rparr> = Some out"
    by blast
  from ins out insert_attendance_wf [OF wf ins] show ?thesis by auto
qed

text \<open>The losing insert of a racing duplicate: the unique constraint rejects it.\<close>

lemma reg_step_create_dup:
  assumes wf: "db_wf d" and dup: "attendance_exists d (ev_id ev) uid"
  shows "\<exists>m. reg_step d r k (AtCreate uid ev) = (Finished (Inl (ServerError m)), d)"
proof -
  from wf dup have "\<not> unique_pair_free d (next_attendance_id d) (ev_id ev) uid"
    by (fastforce simp: unique_pair_free_def attendance_exists_def list_ex_iff db_wf_defs)
  then show ?thesis by (auto simp: insert_attendance_def Let_def)
qed

text \<open>C25: Concurrent registrations overrun capacity (specification section 5): on every well-formed database where an event has one place left, two registrations by distinct users without a row for it, interleaved so that both pass the exists() and count() checks before either inserts, both answer 201, and the event ends with one row more than its max_attendees.\<close>

theorem race_overruns_capacity:
  assumes wf: "db_wf d"
    and users: "req_user r1 = Some u1" "req_user r2 = Some u2" "u1 \<noteq> u2"
      "u1 \<in> user_id ` set (users d)" "u2 \<in> user_id ` set (users d)"
    and objs: "event_get_object d r1 k = Inr ev" "event_get_object d r2 k = Inr ev"
    and fresh: "\<not> attendance_exists d k u1" "\<not> attendance_exists d k u2"
    and cap: "max_attendees ev = Some m" "Suc (length (event_attendances d k)) = m"
  shows "\<exists>s'. conc_step\<^sup>*\<^sup>* (d, [(r1, k, AtGet), (r2, k, AtGet)]) s'
     \<and> (\<exists>out1 out2. snd s' = [(r1, k, Finished (Inr (201, out1))), (r2, k, Finished (Inr (201, out2)))])
     \<and> length (event_attendances (fst s') k) = Suc m"
proof -
  from objs(1) have ev: "ev \<in> set (events d)" "ev_id ev = k" by (auto dest: event_get_object_in)
  have room: "\<not> capacity_reached d ev" using cap ev(2) by (simp add: capacity_reached_def)
  define d1 where "d1 = d\<lparr>attendances := attendances d @ [\<lparr>att_id = next_attendance_id d, att_event = k,
            att_user = u1, att_status = Registered, registered_at = req_now r1\<rparr>],
         next_attendance_id := Suc (next_attendance_id d)\<rparr>"
  obtain out1 where c1: "reg_step d r1 k (AtCreate u1 ev) = (Finished (Inr (201, out1)), d1)"
      and wf1: "db_wf d1"
    using reg_step_create_ok [OF wf users(4) ev(1)] fresh(1) ev(2) by (auto simp: d1_def)
  have ev1: "ev \<in> set (events d1)" "u2 \<in> user_id ` set (users d1)" "\<not> attendance_exists d1 (ev_id ev) u2"
    using ev users fresh by (auto simp: d1_def attendance_exists_def)
  obtain out2 where c2: "reg_step d1 r2 k (AtCreate u2 ev) =
      (Finished (Inr (201, out2)),
       d1\<lparr>attendances := attendances d1 @ [\<lparr>att_id = next_attendance_id d1, att_event = k,
            att_user = u2, att_status = Registered, registered_at = req_now r2\<rparr>],
         next_attendance_id := Suc (next_attendance_id d1)\<rparr>)"
    using reg_step_create_ok [OF wf1 ev1(2) ev1(1) ev1(3)] ev(2) by auto
  let ?init = "(d, [(r1, k, AtGet), (r2, k, AtGet)])"
  let ?s = "run_schedule ?init [0, 0, 0, 1, 1, 1, 0, 1]"
  have s: "?s = (d1\<lparr>attendances := attendances d1 @ [\<lparr>att_id = next_attendance_id d1, att_event = k,
            att_user = u2, att_status = Registered, registered_at = req_now r2\<rparr>],
         next_attendance_id := Suc (next_attendance_id d1)\<rparr>,
      [(r1, k, Finished (Inr (201, out1))), (r2, k, Finished (Inr (201, out2)))])"
    using users objs fresh room ev(2) c1 c2 by simp
  have "length (event_attendances (fst ?s) k) = Suc m"
    using cap unfolding s by (simp add: d1_def event_attendances_def)
  with s show ?thesis using run_schedule_reach [of ?init "[0, 0, 0, 1, 1, 1, 0, 1]"] by auto
qed

text \<open>C26: Finding: two concurrent registrations of the same user for the same event, on every well-formed database where the user has no row for it and the event has room, can both pass the exists() check; the database's unique constraint rejects the second insert, which register does not catch: the first answers 201, the second 500 (not the 400 "already registered"), and one row exists for the pair.\<close>

theorem race_duplicate_server_error:
  assumes wf: "db_wf d"
    and users: "req_user r1 = Some u" "req_user r2 = Some u" "u \<in> user_id ` set (users d)"
    and objs: "event_get_object d r1 k = Inr ev" "event_get_object d r2 k = Inr ev"
    and fresh: "\<not> attendance_exists d k u" and room: "\<not> capacity_reached d ev"
  shows "\<exists>s'. conc_step\<^sup>*\<^sup>* (d, [(r1, k, AtGet), (r2, k, AtGet)]) s'
     \<and> (\<exists>out m. snd s' = [(r1, k, Finished (Inr (201, out))), (r2, k, Finished (Inl (ServerError m)))])
     \<and> length (filter (\<lambda>a. att_event a = k \<and> att_user a = u) (attendances (fst s'))) = 1"
proof -
  from objs(1) have ev: "ev \<in> set (events d)" "ev_id ev = k" by (auto dest: event_get_object_in)
  define d1 where "d1 = d\<lparr>attendances := attendances d @ [\<lparr>att_id = next_attendance_id d, att_event = k,
            att_user = u, att_status = Registered, registered_at = req_now r1\<rparr>],
         next_attendance_id := Suc (next_attendance_id d)\<rparr>"
  obtain out where c1: "reg_step d r1 k (AtCreate u ev) = (Finished (Inr (201, out)), d1)"
      and wf1: "db_wf d1"
    using reg_step_create_ok [OF wf users(3) ev(1)] fresh ev(2) by (auto simp: d1_def)
  have "attendance_exists d1 (ev_id ev) u" using ev(2) by (simp add: d1_def attendance_exists_def)
  from reg_step_create_dup [OF wf1 this] obtain m where c2:
    "reg_step d1 r2 k (AtCreate u ev) = (Finished (Inl (ServerError m)), d1)" by blast
  let ?init = "(d, [(r1, k, AtGet), (r2, k, AtGet)])"
  let ?s = "run_schedule ?init [0, 0, 0, 1, 1, 1, 0, 1]"
  have s: "?s = (d1, [(r1, k, Finished (Inr (201, out))), (r2, k, Finished (Inl (ServerError m)))])"
    using users objs fresh room ev(2) c1 c2 by simp
  have "filter (\<lambda>a. att_event a = k \<and> att_user a = u) (attendances d) = []"
    using fresh by (auto simp: attendance_exists_def list_ex_iff filter_empty_conv)
  then have "length (filter (\<lambda>a. att_event a = k \<and> att_user a = u) (attendances (fst ?s))) = 1"
    unfolding s by (simp add: d1_def)
  with s show ?thesis using run_schedule_reach [of ?init "[0, 0, 0, 1, 1, 1, 0, 1]"] by auto
qed

end
