(* ===== verification/Abstract.thy ===== *)
theory Abstract
  imports EventViews
begin

text \<open>
  Abstract specifications the code refines. The event table is a finite map from keys
  to events, and the ORM operations on it are the map's lookup, update and deletion
  (the shape of the map ADT). Registration (specification section 4.2) is an operation
  on the set of (event, user) pairs that hold an attendance row: refused when the pair
  is present, refused when the event's \<open>max_attendees\<close> is set and the event's pairs
  have reached it, otherwise the pair is added. Each concrete definition is related to
  its abstraction by an abstraction function under the invariant \<open>db_wf\<close>.
\<close>

section \<open>The event table as a map\<close>

definition event_map :: "db \<Rightarrow> pk \<rightharpoonup> event" where
  "event_map d = map_of (map (\<lambda>e. (ev_id e, e)) (events d))"

section \<open>Registration as an operation on pairs\<close>

definition att_pairs :: "db \<Rightarrow> (pk \<times> pk) set" where
  "att_pairs d = (\<lambda>a. (att_event a, att_user a)) ` set (attendances d)"

definition attendees_of :: "(pk \<times> pk) set \<Rightarrow> pk \<Rightarrow> pk set" where
  "attendees_of S e = {u. (e, u) \<in> S}"

datatype reg_outcome = RegCreated | RegAlready | RegFull

text \<open>Section 4.2: \<open>AlreadyRegistered\<close> if a record exists for the pair;
  \<open>CapacityExceeded\<close> if \<open>max_attendees\<close> is set and the count has reached it;
  otherwise a record is created.\<close>

definition spec_register :: "(pk \<times> pk) set \<Rightarrow> nat option \<Rightarrow> pk \<Rightarrow> pk \<Rightarrow> reg_outcome \<times> (pk \<times> pk) set" where
  "spec_register S cap e u =
     (if (e, u) \<in> S then (RegAlready, S)
      else if (case cap of Some m \<Rightarrow> m \<le> card (attendees_of S e) | None \<Rightarrow> False) then (RegFull, S)
      else (RegCreated, insert (e, u) S))"

text \<open>The outcome a response of the register handler stands for.\<close>

definition reg_outcome_of :: "attendance_out response \<Rightarrow> reg_outcome option" where
  "reg_outcome_of res =
     (case res of
        Inr (c, _) \<Rightarrow> if c = 201 then Some RegCreated else None
      | Inl (BadRequest m) \<Rightarrow>
          if m = msg_already_registered then Some RegAlready else if m = msg_capacity then Some RegFull else None
      | Inl _ \<Rightarrow> None)"

section \<open>Lemmas\<close>

lemma find_map_of_key: "find (\<lambda>x. key x = k) xs = map_of (map (\<lambda>x. (key x, x)) xs) k"
  by (induction xs) auto

lemma map_of_keyed_replace_by:
  "distinct (map key xs) \<Longrightarrow> key x \<in> key ` set xs \<Longrightarrow>
   map_of (map (\<lambda>y. (key y, y)) (replace_by key x xs)) = (map_of (map (\<lambda>y. (key y, y)) xs))(key x \<mapsto> x)"
proof (induction xs)
  case Nil
  then show ?case by simp
next
  case (Cons y ys)
  show ?case
  proof (cases "key y = key x")
    case True
    with Cons.prems have "key x \<notin> key ` set ys" by auto
    with True show ?thesis by (simp add: replace_by_absent fun_eq_iff)
  next
    case False
    with Cons have "map_of (map (\<lambda>y. (key y, y)) (replace_by key x ys)) = (map_of (map (\<lambda>y. (key y, y)) ys))(key x \<mapsto> x)"
      by auto
    with False show ?thesis by (auto simp: fun_eq_iff)
  qed
qed

lemma map_of_keyed_filter:
  "map_of (map (\<lambda>y. (key y, y)) (filter (\<lambda>y. key y \<noteq> k) xs)) = (map_of (map (\<lambda>y. (key y, y)) xs))(k := None)"
  by (induction xs) (auto simp: fun_eq_iff)

lemma map_of_snoc_fresh: "k \<notin> fst ` set xs \<Longrightarrow> map_of (xs @ [(k, v)]) = (map_of xs)(k \<mapsto> v)"
  by (induction xs) (auto simp: fun_eq_iff)

lemma dom_event_map: "dom (event_map d) = ev_id ` set (events d)"
  by (simp add: event_map_def dom_map_of_conv_image_fst image_image)

lemma attendance_exists_pairs: "attendance_exists d e u \<longleftrightarrow> (e, u) \<in> att_pairs d"
  by (auto simp: attendance_exists_def att_pairs_def list_ex_iff)

lemma length_filter_distinct_card:
  "distinct (map f xs) \<Longrightarrow> length (filter P xs) = card (f ` {x \<in> set xs. P x})"
proof -
  assume "distinct (map f xs)"
  then have "distinct (map f (filter P xs))" by (simp add: distinct_map_filter)
  then have "card (set (map f (filter P xs))) = length (filter P xs)"
    by (metis distinct_card length_map)
  then show ?thesis by (simp add: set_filter)
qed

lemma count_attendees:
  assumes "db_wf d"
  shows "length (event_attendances d e) = card (attendees_of (att_pairs d) e)"
proof -
  let ?f = "\<lambda>a. (att_event a, att_user a)"
  from assms have "distinct (map ?f (attendances d))" by (simp add: db_wf_defs)
  then have "length (event_attendances d e) = card (?f ` {a \<in> set (attendances d). att_event a = e})"
    unfolding event_attendances_def by (rule length_filter_distinct_card)
  also have "?f ` {a \<in> set (attendances d). att_event a = e} = Pair e ` attendees_of (att_pairs d) e"
    by (auto simp: attendees_of_def att_pairs_def)
  also have "card \<dots> = card (attendees_of (att_pairs d) e)"
    by (rule card_image) (simp add: inj_on_def)
  finally show ?thesis .
qed

lemma insert_event_map:
  assumes wf: "db_wf d" and ins: "insert_event d e t = Inr (e1, d1)"
  shows "event_map d1 = (event_map d)(ev_id e1 \<mapsto> e1) \<and> ev_id e1 \<notin> dom (event_map d)"
proof -
  from ins have e1: "ev_id e1 = next_event_id d"
    and d1: "events d1 = events d @ [e1]"
    by (auto simp: insert_event_def Let_def split: if_splits)
  from wf e1 have fresh: "ev_id e1 \<notin> ev_id ` set (events d)"
    by (auto simp: db_wf_defs)
  then have "event_map d1 = (event_map d)(ev_id e1 \<mapsto> e1)"
    by (simp add: event_map_def d1 map_of_snoc_fresh image_image del: map_of_append)
  with fresh show ?thesis by (simp add: dom_event_map)
qed

text \<open>Refinement of the map ADT: under the invariant, the event table behaves as a finite map from keys to events: find_event is its lookup, insert_event adds a fresh key, save_event overwrites the value of a present key, and delete_event removes the key.\<close>

theorem event_table_refines_map:
  assumes wf: "db_wf d"
  shows "find_event d k = event_map d k
    \<and> (insert_event d e t = Inr (e1, d1) \<longrightarrow>
         event_map d1 = (event_map d)(ev_id e1 \<mapsto> e1) \<and> ev_id e1 \<notin> dom (event_map d))
    \<and> (save_event d e t = Inr (e2, d2) \<longrightarrow> ev_id e \<in> dom (event_map d) \<longrightarrow>
         event_map d2 = (event_map d)(ev_id e \<mapsto> e2))
    \<and> event_map (delete_event d k) = (event_map d)(k := None)"
proof -
  have find: "find_event d k = event_map d k"
    by (simp add: find_event_def event_map_def find_map_of_key)
  have ins: "insert_event d e t = Inr (e1, d1) \<longrightarrow>
      event_map d1 = (event_map d)(ev_id e1 \<mapsto> e1) \<and> ev_id e1 \<notin> dom (event_map d)"
    using insert_event_map [OF wf] by blast
  have save: "save_event d e t = Inr (e2, d2) \<longrightarrow> ev_id e \<in> dom (event_map d) \<longrightarrow>
      event_map d2 = (event_map d)(ev_id e \<mapsto> e2)"
  proof (intro impI)
    assume save: "save_event d e t = Inr (e2, d2)" and dom: "ev_id e \<in> dom (event_map d)"
    from save have e2: "e2 = e\<lparr>updated_at := t\<rparr>" and d2: "events d2 = replace_by ev_id e2 (events d)"
      by (auto simp: save_event_def Let_def split: if_splits)
    from wf have "distinct (map ev_id (events d))" by (simp add: db_wf_defs)
    moreover from dom e2 have "ev_id e2 \<in> ev_id ` set (events d)" by (simp add: dom_event_map)
    ultimately show "event_map d2 = (event_map d)(ev_id e \<mapsto> e2)"
      by (simp add: event_map_def d2 map_of_keyed_replace_by e2)
  qed
  have del: "event_map (delete_event d k) = (event_map d)(k := None)"
    by (simp add: event_map_def delete_event_def map_of_keyed_filter)
  from find ins save del show ?thesis by blast
qed

lemma reg_outcome_msgs [simp]:
  "reg_outcome_of (Inl (BadRequest msg_already_registered)) = Some RegAlready"
  "reg_outcome_of (Inl (BadRequest msg_capacity)) = Some RegFull"
  "reg_outcome_of (Inr (201, out)) = Some RegCreated"
  by (simp_all add: reg_outcome_of_def msg_already_registered_def msg_capacity_def)

text \<open>C13: Refinement of the registration rule of specification section 4.2: on a well-formed database, for an event whose max_attendees is not 0, the register handler's outcome (created, already registered, full) and its effect on the set of (event, user) pairs are those of the abstract operation on pairs; the case max_attendees = 0 is where code and specification part (C14).\<close>

theorem register_refines_spec:
  assumes wf: "db_wf d" and user: "req_user r = Some u" and uid: "u \<in> user_id ` set (users d)"
    and obj: "event_get_object d r k = Inr ev" and nz: "max_attendees ev \<noteq> Some 0"
  shows "reg_outcome_of (fst (register d r k)) = Some (fst (spec_register (att_pairs d) (max_attendees ev) k u))
     \<and> att_pairs (snd (register d r k)) = snd (spec_register (att_pairs d) (max_attendees ev) k u)"
proof -
  from obj have k: "ev_id ev = k" by (auto dest: event_get_object_in)
  have full: "capacity_reached d ev \<longleftrightarrow>
      (case max_attendees ev of Some m \<Rightarrow> m \<le> card (attendees_of (att_pairs d) k) | None \<Rightarrow> False)"
    using nz count_attendees [OF wf, of k] k
    by (auto simp: capacity_reached_def split: option.splits)
  show ?thesis
  proof (cases "(k, u) \<in> att_pairs d")
    case True
    then have "register d r k = (Inl (BadRequest msg_already_registered), d)"
      using user obj k by (simp add: register_def attendance_exists_pairs)
    with True show ?thesis by (simp add: spec_register_def)
  next
    case fresh: False
    show ?thesis
    proof (cases "capacity_reached d ev")
      case True
      then have "register d r k = (Inl (BadRequest msg_capacity), d)"
        using user obj k fresh by (simp add: register_def attendance_exists_pairs)
      with True fresh full show ?thesis by (simp add: spec_register_def)
    next
      case False
      from register_creates [OF wf user uid obj _ False] fresh obtain out where
        "register d r k = (Inr (201, out),
            d\<lparr>attendances := attendances d @ [\<lparr>att_id = next_attendance_id d, att_event = k,
                 att_user = u, att_status = Registered, registered_at = req_now r\<rparr>],
              next_attendance_id := Suc (next_attendance_id d)\<rparr>)"
        by (auto simp: attendance_exists_pairs)
      moreover have "att_pairs (d\<lparr>attendances := attendances d @ [\<lparr>att_id = next_attendance_id d, att_event = k,
                 att_user = u, att_status = Registered, registered_at = req_now r\<rparr>],
              next_attendance_id := Suc (next_attendance_id d)\<rparr>) = insert (k, u) (att_pairs d)"
        by (auto simp: att_pairs_def)
      ultimately show ?thesis using False fresh full by (simp add: spec_register_def)
    qed
  qed
qed

end
