(* ===== verification/Spec2Isabelle.thy ===== *)
theory Spec2Isabelle
  imports Router Concurrency Abstract
begin

text \<open>
  \<^bold>\<open>A verification development of event_finder.\<close>

  event_finder (\<open>src/backend\<close>) is a Django REST framework backend for events,
  categories and attendee registrations. Its parts and how they interact:
  \<^item> the data model (\<open>event_app/models.py\<close>): \<open>Category\<close>, \<open>Event\<close>, \<open>Attendance\<close>,
    with foreign keys to each other and to \<open>auth.User\<close>, their \<open>on_delete\<close> rules and
    the \<open>unique_together\<close> pair of \<open>Attendance\<close>;
  \<^item> the serializers (\<open>event_app/serializers.py\<close>), which turn rows into JSON (with
    the computed \<open>attendees_count\<close>) and validate request bodies;
  \<^item> the view sets (\<open>event_app/views.py\<close>), which read the request, filter query
    sets, and call the ORM and the serializers: \<open>CategoryViewSet\<close>, \<open>EventViewSet\<close>
    (with the \<open>register\<close> and \<open>attendees\<close> actions) and \<open>AttendanceViewSet\<close>
    (with \<open>my_events\<close>);
  \<^item> the routing table (\<open>event_app/urls.py\<close>).
  A request flows router \<open>\<rightarrow>\<close> view set (permission check, query set, filter backends)
  \<open>\<rightarrow>\<close> serializer validation \<open>\<rightarrow>\<close> ORM write \<open>\<rightarrow>\<close> serializer output.

  \<^bold>\<open>Theories.\<close>
  \<^item> \<open>Prelude\<close>: the Python and Django semantics the handlers use (\<open>QueryDict.get\<close>,
    truthiness, \<open>str.lower\<close>, \<open>int(str)\<close>, \<open>str(n)\<close>, \<open>icontains\<close>), tables as lists of
    rows in key order with \<open>replace_by\<close> for a save, the shared list lemmas, and the
    round trip \<open>int(str(n)) = n\<close>.
  \<^item> \<open>Models\<close>: the rows as records (\<open>user\<close>, \<open>category\<close>, \<open>event\<close>,
    \<open>attendance\<close>), the choices as datatypes, the database \<open>db\<close> with one id sequence
    per table, the ORM reads (\<open>find_*\<close>, the reverse managers) and writes
    (\<open>create_category\<close>, \<open>save_category\<close>, \<open>delete_category\<close> with \<open>SET_NULL\<close>,
    \<open>insert_event\<close>, \<open>save_event\<close>, \<open>delete_event\<close> and \<open>delete_user\<close> with
    \<open>CASCADE\<close>, \<open>insert_attendance\<close> and \<open>save_attendance\<close> with the database's
    foreign-key and unique checks as \<open>IntegrityError\<close>), account creation
    (\<open>create_user\<close>, from \<open>django.contrib.auth\<close>) and the fresh database \<open>empty_db\<close>.
    The invariant \<open>db_wf\<close> (distinct positive keys below their sequence, foreign keys
    that resolve, unique (event, user) pairs) is kept by every write.
  \<^item> \<open>Http\<close>: requests, the permission classes, the errors with their HTTP status.
  \<^item> \<open>Serializers\<close>: \<open>user_repr\<close>, \<open>event_repr\<close>, \<open>attendance_repr\<close> and the
    input validation derived from the model fields, with the \<open>UniqueTogetherValidator\<close>.
  \<^item> \<open>Filters\<close>: the framework's \<open>SearchFilter\<close> and \<open>OrderingFilter\<close>, generic in the
    row type; the ordering's insertion sort agrees with the library's \<open>sort_key\<close>.
  \<^item> \<open>EventViews\<close>: \<open>EventViewSet\<close>: \<open>event_get_queryset\<close> (views.py:28-41), the
    filtered query set behind \<open>event_get_object\<close>, \<open>register\<close> (views.py:43-60),
    \<open>attendees\<close> (views.py:62-67) and the generic list/retrieve/create/update/destroy
    handlers with \<open>perform_create\<close> (views.py:25-26).
  \<^item> \<open>AttendanceViews\<close>: \<open>AttendanceViewSet\<close> (views.py:69-85): the visibility of
    \<open>get_queryset\<close>, the generic handlers over it, and \<open>my_events\<close>.
  \<^item> \<open>CategoryViews\<close>: \<open>CategoryViewSet\<close> (views.py:9-15) with \<open>CategorySerializer\<close>.
  \<^item> \<open>Router\<close>: the \<open>DefaultRouter\<close> of urls.py as its ordered URL list, \<open>resolve\<close>
    (first match), the \<open>permission_classes\<close> of each view set and action
    (\<open>category_permission\<close> \<dots> \<open>attendance_permission\<close>, views.py:12, 20, 43, 62, 72),
    \<open>dispatch\<close> (permission check, method map or 405, the handler of
    the three view sets over one \<open>payload\<close> type), \<open>url_of\<close> (reverse), and
    \<open>api_reachable\<close>, the databases the running system reaches from \<open>empty_db\<close>
    through requests and account creation and deletion (an inductive predicate).
  \<^item> \<open>Concurrency\<close>: \<open>register\<close> as its four database accesses (\<open>reg_step\<close>) and the
    server \<open>conc_step\<close> that interleaves the accesses of requests in flight.
  \<^item> \<open>Abstract\<close>: abstract specifications and their abstraction functions: the
    event table as a finite map (\<open>event_map\<close>), and registration as an operation on the
    set of (event, user) pairs (\<open>att_pairs\<close>, \<open>spec_register\<close>, from section 4.2 of the
    specification).
  Each handler is a function from the database and the request to the response and the
  new database; errors are the \<open>Inl\<close> side of the response, so every early return and
  every uncaught exception of the source is a branch of the model.

  \<^bold>\<open>What is proved.\<close>
  \<^item> \<open>register\<close>: its three outcomes with the exact row it adds, a repeated request,
    capacity as a safety property of one request and, for every database, the rule of
    specification section 8 over a whole sequence of registrations (\<open>register_all\<close>,
    a client sending the same request once per user), and the unlimited event of
    \<open>max_attendees = 0\<close>; \<open>EventViewSet\<close>: the organizer on create and update, and
    the error paths of the query parameters.
  \<^item> \<open>AttendanceViewSet\<close>: visibility of rows, \<open>my_events\<close>, the duplicate pair,
    creation past capacity or for another user, and, with \<open>register\<close>, that an update
    which keeps a row's event (a cancellation) never frees a place.
  \<^item> The model: every write keeps \<open>db_wf\<close>; the cascades of deleting a user or a category.
  \<^item> The system (\<open>Router\<close>): the 1-100 character category names in every reachable
    database (rule induction on \<open>api_reachable\<close>, with \<open>db_wf\<close>), read-only safe and
    anonymous requests; lemmas cover the URL round trip and the 404 and 405 paths.
  \<^item> Concurrency: under every interleaving the unique pair and the rest of \<open>db_wf\<close>
    hold; on every well-formed database two registrations for the last place can both
    succeed (capacity overrun, section 5), and two of the same user can end in 201 and
    500. Lemmas show that the steps run alone equal \<open>register\<close>, that runs are bounded
    by the accesses still to make (at most four per request) and that some run finishes
    every request.
  \<^item> Refinement (\<open>Abstract\<close>): \<open>register\<close> refines the abstract registration rule of
    section 4.2 in outcome and effect on the pairs, for every event whose
    \<open>max_attendees\<close> is not 0 (where the two part, as the finding on the falsy 0 shows);
    a lemma shows the ORM operations on events are those of a finite map.
  Witnesses at the end of this theory apply each theorem with hypotheses to the example
  database \<open>ex_db\<close> (or a database reached from it or from \<open>empty_db\<close>), evaluated by
  the simplifier; the race witnesses run the schedule \<open>[0, 0, 0, 1, 1, 1, 0, 1]\<close>.
  No fuel is used: every loop is structural recursion, and the concurrent system is a
  relation whose runs are bounded by \<open>total_rank\<close>.

  \<^bold>\<open>Not modelled.\<close> Authentication and sessions (a request carries the id of its
  authenticated user or none), image storage (an image is its stored name), date parsing
  (timestamps are numbers), the database's order of ties (the filters keep the table's
  order), format suffixes, the browsable API and \<open>OPTIONS\<close> metadata of the router,
  pagination (the project's settings are not in the repository, so none applies),
  transactions beyond single-statement autocommit, and \<open>events/views.py\<close>: its
  relative imports name modules the package \<open>events\<close> lacks, so it cannot be imported
  and no URL reaches it. Strings are byte lists (so \<open>max_length\<close> counts bytes) and only
  ASCII case and whitespace are modelled. The integer range Django gives
  \<open>PositiveIntegerField\<close> (0 to 2147483647) is the serializer's bound on
  \<open>max_attendees\<close>.
\<close>

section \<open>An example database\<close>

definition ex_user :: "pk \<Rightarrow> string \<Rightarrow> bool \<Rightarrow> user" where
  "ex_user k n st = \<lparr>user_id = k, username = n, email = n @ ''@example.org'', first_name = n,
                     last_name = [], is_staff = st\<rparr>"

definition ex_event :: "pk \<Rightarrow> string \<Rightarrow> pk \<Rightarrow> pk option \<Rightarrow> nat option \<Rightarrow> event" where
  "ex_event k t org cat cap =
     event_defaults\<lparr>ev_id := k, title := t, description := t, location := ''Hall'',
       start_date := 10 * k, end_date := 10 * k + 5, created_at := k, updated_at := k,
       organizer := org, category := cat, max_attendees := cap\<rparr>"

text \<open>Users 1-3 (user 4 is staff); event 1 holds 2, event 3 holds 1; user 2 is
  registered for event 1 and has a cancelled row for event 3.\<close>

definition ex_db :: db where
  "ex_db =
     \<lparr>users = [ex_user 1 ''alice'' False, ex_user 2 ''bob'' False, ex_user 3 ''carol'' False,
               ex_user 4 ''dave'' True],
      categories = [\<lparr>cat_id = 1, cat_name = ''Music'', cat_description = None\<rparr>],
      events = [ex_event 1 ''Concert'' 1 (Some 1) (Some 2), ex_event 2 ''Meetup'' 2 None None,
                ex_event 3 ''Workshop'' 1 (Some 1) (Some 1)],
      attendances = [\<lparr>att_id = 1, att_event = 1, att_user = 2, att_status = Registered, registered_at = 5\<rparr>,
                     \<lparr>att_id = 2, att_event = 3, att_user = 2, att_status = Att_Cancelled, registered_at = 6\<rparr>],
      next_category_id = 2, next_event_id = 4, next_attendance_id = 3\<rparr>"

definition ex_req :: "http_method \<Rightarrow> pk option \<Rightarrow> query_dict \<Rightarrow> request" where
  "ex_req m u q = \<lparr>req_method = m, req_user = u, req_query = q, req_now = 100\<rparr>"

definition ex_db0 :: db where
  "ex_db0 = ex_db\<lparr>events := [ex_event 1 ''Concert'' 1 (Some 1) (Some 2), ex_event 2 ''Meetup'' 2 None (Some 0),
                ex_event 3 ''Workshop'' 1 (Some 1) (Some 1)]\<rparr>"

definition no_event_in :: event_in where
  "no_event_in = \<lparr>ei_title = None, ei_description = None, ei_location = None, ei_start_date = None,
     ei_end_date = None, ei_image = Absent, ei_organizer_id = Absent, ei_category = Absent,
     ei_status = None, ei_is_featured = None, ei_max_attendees = Absent\<rparr>"

definition gig_in :: event_in where
  "gig_in = no_event_in\<lparr>ei_title := Some ''Gig'', ei_description := Some ''Live'',
     ei_location := Some ''Club'', ei_start_date := Some 50, ei_end_date := Some 60,
     ei_organizer_id := Given 2, ei_category := Given 1, ei_max_attendees := Given 2\<rparr>"

text \<open>A trace from a fresh database: three accounts, requests posted at time 7, and one
  request body read by each serializer.\<close>

definition mk_user :: "pk \<Rightarrow> string \<Rightarrow> user" where
  "mk_user k n = \<lparr>user_id = k, username = n, email = [], first_name = [], last_name = [], is_staff = False\<rparr>"

definition post_as :: "pk \<Rightarrow> request" where
  "post_as u = \<lparr>req_method = POST, req_user = Some u, req_query = [], req_now = 7\<rparr>"

definition trace_body :: body where
  "trace_body =
     \<lparr>b_category = \<lparr>ci_name = None, ci_description = Absent\<rparr>,
      b_event = \<lparr>ei_title = Some ''Gig'', ei_description = Some ''Live'', ei_location = Some ''Club'',
        ei_start_date = Some 50, ei_end_date = Some 60, ei_image = Absent, ei_organizer_id = Given 1,
        ei_category = Absent, ei_status = None, ei_is_featured = None, ei_max_attendees = Given 1\<rparr>,
      b_attendance = \<lparr>ai_event_id = Given 1, ai_user_id = Given 3, ai_status = None\<rparr>\<rparr>"

lemmas ex_defs [model_simps] = ex_user_def ex_event_def ex_db_def ex_req_def ex_db0_def
  no_event_in_def gig_in_def mk_user_def post_as_def trace_body_def

lemma ex_db_wf: "db_wf ex_db"
  by (simp add: model_simps)

lemma ex_db0_wf: "db_wf ex_db0"
  by (simp add: model_simps)

section \<open>Scenarios and cross-component properties\<close>

text \<open>C21: Finding: the capacity check lives only in the register action; creating an attendance through AttendanceViewSet.create for an event that has reached its max_attendees succeeds with 201 and adds a row beyond the limit.\<close>

theorem attendance_create_bypasses_capacity:
  assumes "db_wf d" and "req_user r = Some u" and "find_event d eid = Some ev"
    and "uid \<in> user_id ` set (users d)" and "\<not> attendance_exists d eid uid"
    and full: "capacity_reached d ev"
  shows "\<exists>out d'. attendance_create d r \<lparr>ai_event_id = Given eid, ai_user_id = Given uid, ai_status = None\<rparr>
            = (Inr (201, out), d') \<and>
          length (event_attendances d' eid) = Suc (length (event_attendances d eid))"
proof -
  from assms(3) have "eid \<in> ev_id ` set (events d)"
    using find_key_in [of ev_id eid "events d" ev] by (force simp: find_event_def)
  from attendance_create_ok [OF assms(1,2) this assms(4,5)] show ?thesis
    by (auto simp: event_attendances_def)
qed

text \<open>C15: Finding: capacity counts every attendance row, whatever its status, so cancelling does not free a place: on every well-formed database, after any update of an attendance row that does not send event_id (a PATCH of its status to cancelled, say), an event that had reached its positive max_attendees still refuses every user without a row with 400 "This event has reached maximum capacity.". The glossary of the specification defines capacity as a ceiling on registered records.\<close>

theorem cancelling_does_not_free_place:
  assumes wf: "db_wf d"
    and upd: "attendance_update d r1 j i = (res, d1)" and keep: "ai_event_id i = Absent"
    and user: "req_user r2 = Some u" and obj: "event_get_object d r2 k = Inr ev"
    and cap: "max_attendees ev = Some m" "0 < m" "m \<le> length (event_attendances d k)"
    and fresh: "\<not> attendance_exists d1 k u"
  shows "register d1 r2 k = (Inl (BadRequest msg_capacity), d1)"
proof -
  from attendance_update_counts [OF wf keep, of r1 j k] upd
  have ev1: "events d1 = events d" and cnt: "length (event_attendances d1 k) = length (event_attendances d k)"
    by auto
  have obj1: "event_get_object d1 r2 k = Inr ev"
    using obj event_get_object_events_cong [of d1 d r2 k] ev1 by simp
  from obj have "ev_id ev = k" by (auto dest: event_get_object_in)
  with obj1 user fresh cap cnt show ?thesis
    by (simp add: register_def capacity_reached_def)
qed

section \<open>Witnesses\<close>

theorem register_success_witness:
  "db_wf ex_db \<and> req_user (ex_req POST (Some 3) []) = Some 3 \<and> (3::pk) \<in> user_id ` set (users ex_db)
   \<and> event_get_object ex_db (ex_req POST (Some 3) []) 1 = Inr (ex_event 1 ''Concert'' 1 (Some 1) (Some 2))
   \<and> \<not> attendance_exists ex_db 1 3 \<and> \<not> capacity_reached ex_db (ex_event 1 ''Concert'' 1 (Some 1) (Some 2))
   \<and> (\<exists>out. register ex_db (ex_req POST (Some 3) []) 1 =
           (Inr (201, out),
            ex_db\<lparr>attendances := attendances ex_db @ [\<lparr>att_id = 3, att_event = 1,
                 att_user = 3, att_status = Registered, registered_at = 100\<rparr>],
              next_attendance_id := 4\<rparr>)
         \<and> ao_id out = 3 \<and> ao_status out = ''registered'')"
proof -
  have h: "req_user (ex_req POST (Some 3) []) = Some 3" "(3::pk) \<in> user_id ` set (users ex_db)"
      "event_get_object ex_db (ex_req POST (Some 3) []) 1 = Inr (ex_event 1 ''Concert'' 1 (Some 1) (Some 2))"
      "\<not> attendance_exists ex_db 1 3" "\<not> capacity_reached ex_db (ex_event 1 ''Concert'' 1 (Some 1) (Some 2))"
    by (simp_all add: model_simps)
  from register_success [OF ex_db_wf h] h ex_db_wf show ?thesis
    by (simp add: ex_db_def ex_req_def)
qed

theorem register_already_registered_witness:
  "req_user (ex_req POST (Some 2) []) = Some 2
   \<and> event_get_object ex_db (ex_req POST (Some 2) []) 1 = Inr (ex_event 1 ''Concert'' 1 (Some 1) (Some 2))
   \<and> attendance_exists ex_db 1 2
   \<and> register ex_db (ex_req POST (Some 2) []) 1 = (Inl (BadRequest msg_already_registered), ex_db)"
proof -
  have h: "req_user (ex_req POST (Some 2) []) = Some 2"
      "event_get_object ex_db (ex_req POST (Some 2) []) 1 = Inr (ex_event 1 ''Concert'' 1 (Some 1) (Some 2))"
      "attendance_exists ex_db 1 2"
    by (simp_all add: model_simps)
  from register_already_registered [OF h] h show ?thesis by simp
qed

theorem register_capacity_exceeded_witness:
  "req_user (ex_req POST (Some 3) []) = Some 3
   \<and> event_get_object ex_db (ex_req POST (Some 3) []) 3 = Inr (ex_event 3 ''Workshop'' 1 (Some 1) (Some 1))
   \<and> \<not> attendance_exists ex_db 3 3
   \<and> max_attendees (ex_event 3 ''Workshop'' 1 (Some 1) (Some 1)) = Some 1 \<and> (0::nat) < 1
   \<and> 1 \<le> length (event_attendances ex_db 3)
   \<and> register ex_db (ex_req POST (Some 3) []) 3 = (Inl (BadRequest msg_capacity), ex_db)"
proof -
  have h: "req_user (ex_req POST (Some 3) []) = Some 3"
      "event_get_object ex_db (ex_req POST (Some 3) []) 3 = Inr (ex_event 3 ''Workshop'' 1 (Some 1) (Some 1))"
      "\<not> attendance_exists ex_db 3 3"
      "max_attendees (ex_event 3 ''Workshop'' 1 (Some 1) (Some 1)) = Some 1" "(0::nat) < 1"
      "1 \<le> length (event_attendances ex_db 3)"
    by (simp_all add: model_simps)
  from register_capacity_exceeded [OF h] h show ?thesis by simp
qed

theorem register_within_capacity_witness:
  "db_wf ex_db \<and> ex_event 3 ''Workshop'' 1 (Some 1) (Some 1) \<in> set (events ex_db)
   \<and> max_attendees (ex_event 3 ''Workshop'' 1 (Some 1) (Some 1)) = Some 1 \<and> (0::nat) < 1
   \<and> length (event_attendances ex_db 3) \<le> 1
   \<and> length (event_attendances (snd (register ex_db (ex_req POST (Some 3) []) 3)) 3) \<le> 1"
proof -
  have h: "ex_event 3 ''Workshop'' 1 (Some 1) (Some 1) \<in> set (events ex_db)"
      "max_attendees (ex_event 3 ''Workshop'' 1 (Some 1) (Some 1)) = Some 1" "(0::nat) < 1"
      "length (event_attendances ex_db (ev_id (ex_event 3 ''Workshop'' 1 (Some 1) (Some 1)))) \<le> 1"
    by (simp_all add: model_simps)
  from register_within_capacity [OF ex_db_wf h, of "ex_req POST (Some 3) []" 3] h ex_db_wf
  show ?thesis by (simp add: ex_event_def)
qed

theorem register_twice_witness:
  "\<exists>res d'. req_user (ex_req POST (Some 3) []) = Some 3
     \<and> register ex_db (ex_req POST (Some 3) []) 1 = (Inr res, d')
     \<and> register d' (ex_req POST (Some 3) []) 1 = (Inl (BadRequest msg_already_registered), d')
     \<and> length (filter (\<lambda>a. att_event a = 1 \<and> att_user a = 3) (attendances d')) = 1"
proof -
  have u: "req_user (ex_req POST (Some 3) []) = Some 3" by (simp add: ex_req_def)
  have "\<exists>res d'. register ex_db (ex_req POST (Some 3) []) 1 = (Inr res, d')"
    by (simp add: model_simps Let_def)
  then obtain res d' where first: "register ex_db (ex_req POST (Some 3) []) 1 = (Inr res, d')"
    by blast
  from register_twice [OF u first] u first show ?thesis by blast
qed

theorem attendance_list_visibility_witness:
  "req_user (ex_req GET (Some 2) []) = Some 2 \<and> find_user ex_db 2 = Some (ex_user 2 ''bob'' False)
   \<and> req_user (ex_req GET (Some 4) []) = Some 4 \<and> find_user ex_db 4 = Some (ex_user 4 ''dave'' True)
   \<and> (\<exists>outs. attendance_list ex_db (ex_req GET (Some 2) []) = Inr (200, outs) \<and> map ao_id outs = [1, 2])
   \<and> (\<exists>outs. attendance_list ex_db (ex_req GET (Some 4) []) = Inr (200, outs) \<and> map ao_id outs = [1, 2])"
proof -
  have h2: "req_user (ex_req GET (Some 2) []) = Some 2" "find_user ex_db 2 = Some (ex_user 2 ''bob'' False)"
    by (simp_all add: model_simps)
  have h4: "req_user (ex_req GET (Some 4) []) = Some 4" "find_user ex_db 4 = Some (ex_user 4 ''dave'' True)"
    by (simp_all add: model_simps)
  have "map att_id (filter (\<lambda>a. att_user a = 2) (attendances ex_db)) = [1, 2]"
       "map att_id (attendances ex_db) = [1, 2]"
    by (simp_all add: ex_db_def)
  with attendance_list_visibility [OF ex_db_wf h2] attendance_list_visibility [OF ex_db_wf h4] h2 h4
  show ?thesis by (simp add: ex_user_def)
qed

theorem my_events_own_witness:
  "req_user (ex_req GET (Some 2) []) = Some 2
   \<and> (\<exists>outs. my_events ex_db (ex_req GET (Some 2) []) = Inr (200, outs) \<and> map ao_id outs = [1, 2]
        \<and> (\<forall>x \<in> set outs. uo_id (ao_user x) = 2))"
proof -
  have h: "req_user (ex_req GET (Some 2) []) = Some 2" by (simp add: ex_req_def)
  have "map att_id (filter (\<lambda>a. att_user a = 2) (attendances ex_db)) = [1, 2]"
    by (simp add: ex_db_def)
  with my_events_own [OF ex_db_wf h] h show ?thesis by simp
qed

theorem attendance_other_user_hidden_witness:
  "req_user (ex_req DELETE (Some 3) []) = Some 3 \<and> find_user ex_db 3 = Some (ex_user 3 ''carol'' False)
   \<and> \<not> is_staff (ex_user 3 ''carol'' False)
   \<and> \<lparr>att_id = 1, att_event = 1, att_user = 2, att_status = Registered, registered_at = 5\<rparr> \<in> set (attendances ex_db)
   \<and> (2::pk) \<noteq> 3
   \<and> attendance_retrieve ex_db (ex_req DELETE (Some 3) []) 1 = Inl NotFound
   \<and> attendance_update ex_db (ex_req DELETE (Some 3) []) 1
       \<lparr>ai_event_id = Absent, ai_user_id = Given 3, ai_status = None\<rparr> = (Inl NotFound, ex_db)
   \<and> attendance_destroy ex_db (ex_req DELETE (Some 3) []) 1 = (Inl NotFound, ex_db)"
proof -
  have h: "req_user (ex_req DELETE (Some 3) []) = Some 3" "find_user ex_db 3 = Some (ex_user 3 ''carol'' False)"
      "\<not> is_staff (ex_user 3 ''carol'' False)"
      "\<lparr>att_id = 1, att_event = 1, att_user = 2, att_status = Registered, registered_at = 5\<rparr> \<in> set (attendances ex_db)"
      "att_user \<lparr>att_id = 1, att_event = 1, att_user = 2, att_status = Registered, registered_at = 5\<rparr> \<noteq> 3"
    by (simp_all add: model_simps)
  from attendance_other_user_hidden [OF ex_db_wf h, of "\<lparr>ai_event_id = Absent, ai_user_id = Given 3, ai_status = None\<rparr>"] h
  show ?thesis by simp
qed

theorem attendance_create_duplicate_witness:
  "req_user (ex_req POST (Some 3) []) = Some 3 \<and> find_event ex_db 1 \<noteq> None \<and> find_user ex_db 2 \<noteq> None
   \<and> attendance_exists ex_db 1 2
   \<and> attendance_create ex_db (ex_req POST (Some 3) []) \<lparr>ai_event_id = Given 1, ai_user_id = Given 2, ai_status = None\<rparr>
       = (Inl (Invalid [(''non_field_errors'', msg_unique)]), ex_db)"
proof -
  have h: "req_user (ex_req POST (Some 3) []) = Some 3" "find_event ex_db 1 \<noteq> None" "find_user ex_db 2 \<noteq> None"
      "ai_status \<lparr>ai_event_id = Given 1, ai_user_id = Given 2, ai_status = None\<rparr> = None"
      "ai_event_id \<lparr>ai_event_id = Given (1::pk), ai_user_id = Given 2, ai_status = None\<rparr> = Given 1"
      "ai_user_id \<lparr>ai_event_id = Given 1, ai_user_id = Given (2::pk), ai_status = None\<rparr> = Given 2"
      "attendance_exists ex_db 1 2"
    by (simp_all add: model_simps)
  from attendance_create_duplicate [OF h] h show ?thesis by simp
qed

theorem category_destroy_keeps_events_witness:
  "req_user (ex_req DELETE (Some 1) []) = Some 1
   \<and> category_get_object ex_db (ex_req DELETE (Some 1) []) 1 = Inr \<lparr>cat_id = 1, cat_name = ''Music'', cat_description = None\<rparr>
   \<and> (\<exists>d'. category_destroy ex_db (ex_req DELETE (Some 1) []) 1 = (Inr (204, ()), d')
        \<and> map ev_id (events d') = [1, 2, 3] \<and> (\<forall>e \<in> set (events d'). category e \<noteq> Some 1)
        \<and> attendances d' = attendances ex_db)"
proof -
  have h: "req_user (ex_req DELETE (Some 1) []) = Some 1"
    "category_get_object ex_db (ex_req DELETE (Some 1) []) 1 = Inr \<lparr>cat_id = 1, cat_name = ''Music'', cat_description = None\<rparr>"
    by (simp_all add: model_simps)
  from category_destroy_keeps_events [OF h] obtain d' where
    d': "category_destroy ex_db (ex_req DELETE (Some 1) []) 1 = (Inr (204, ()), d')"
      "map ev_id (events d') = map ev_id (events ex_db)" "\<forall>e \<in> set (events d'). category e \<noteq> Some 1"
      "attendances d' = attendances ex_db"
    by blast
  have "map ev_id (events ex_db) = [1, 2, 3]" by (simp add: ex_db_def ex_event_def event_defaults_def)
  with d' h show ?thesis by auto
qed

theorem delete_user_cascade_witness:
  "db_wf ex_db \<and> db_wf (delete_user ex_db 1) \<and> map ev_id (events (delete_user ex_db 1)) = [2]
   \<and> (1::pk) \<notin> user_id ` set (users (delete_user ex_db 1))"
proof -
  have "map ev_id (events (delete_user ex_db 1)) = [2]" by (simp add: model_simps)
  with delete_user_cascade [OF ex_db_wf, of 1] ex_db_wf show ?thesis by simp
qed

theorem capacity_zero_unlimited_witness:
  "db_wf ex_db0 \<and> req_user (ex_req POST (Some 3) []) = Some 3 \<and> (3::pk) \<in> user_id ` set (users ex_db0)
   \<and> event_get_object ex_db0 (ex_req POST (Some 3) []) 2 = Inr (ex_event 2 ''Meetup'' 2 None (Some 0))
   \<and> \<not> attendance_exists ex_db0 2 3 \<and> max_attendees (ex_event 2 ''Meetup'' 2 None (Some 0)) = Some 0
   \<and> (\<exists>out d'. register ex_db0 (ex_req POST (Some 3) []) 2 = (Inr (201, out), d')
        \<and> length (event_attendances d' 2) = 1)"
proof -
  have h: "req_user (ex_req POST (Some 3) []) = Some 3" "(3::pk) \<in> user_id ` set (users ex_db0)"
    "event_get_object ex_db0 (ex_req POST (Some 3) []) 2 = Inr (ex_event 2 ''Meetup'' 2 None (Some 0))"
    "\<not> attendance_exists ex_db0 2 3" "max_attendees (ex_event 2 ''Meetup'' 2 None (Some 0)) = Some 0"
    by (simp_all add: model_simps)
  have "length (event_attendances ex_db0 2) = 0" by (simp add: model_simps)
  with capacity_zero_unlimited [OF ex_db0_wf h] h ex_db0_wf show ?thesis by simp
qed

theorem event_update_changes_organizer_witness:
  "\<exists>out d'. event_update ex_db (ex_req PATCH (Some 3) []) 1 (no_event_in\<lparr>ei_organizer_id := Given 3\<rparr>)
       = (Inr (200, out), d') \<and> uo_id (eo_organizer out) = 3
     \<and> (\<exists>e' \<in> set (events d'). ev_id e' = 1 \<and> organizer e' = 3) \<and> db_wf d'"
proof -
  have h: "req_user (ex_req PATCH (Some 3) []) = Some 3"
    "event_get_object ex_db (ex_req PATCH (Some 3) []) 1 = Inr (ex_event 1 ''Concert'' 1 (Some 1) (Some 2))"
    "event_in_errors ex_db (req_method (ex_req PATCH (Some 3) []) = PATCH) (no_event_in\<lparr>ei_organizer_id := Given 3\<rparr>) = []"
    "ei_organizer_id (no_event_in\<lparr>ei_organizer_id := Given 3\<rparr>) = Given 3"
    by (simp_all add: model_simps)
  from event_update_changes_organizer [OF ex_db_wf h] show ?thesis .
qed

theorem event_create_sets_organizer_witness:
  "\<exists>out d'. event_create ex_db (ex_req POST (Some 1) []) gig_in = (Inr (201, out), d')
     \<and> uo_id (eo_organizer out) = 1 \<and> eo_id out = 4 \<and> eo_attendees_count out = 0 \<and> db_wf d'"
proof -
  have h: "req_user (ex_req POST (Some 1) []) = Some 1" "(1::pk) \<in> user_id ` set (users ex_db)"
    "event_in_errors ex_db False gig_in = []"
    by (simp_all add: model_simps)
  from event_create_sets_organizer [OF ex_db_wf h] show ?thesis by (auto simp: ex_db_def)
qed

theorem event_create_requires_organizer_id_witness:
  "\<exists>errs. event_create ex_db (ex_req POST (Some 1) []) (gig_in\<lparr>ei_organizer_id := Absent\<rparr>)
     = (Inl (Invalid errs), ex_db) \<and> (''organizer_id'', msg_required) \<in> set errs"
proof -
  have h: "req_user (ex_req POST (Some 1) []) = Some 1" "ei_organizer_id (gig_in\<lparr>ei_organizer_id := Absent\<rparr>) = Absent"
    by (simp_all add: ex_req_def)
  from event_create_requires_organizer_id [OF h] show ?thesis .
qed

theorem detail_lookup_depends_on_query_witness:
  "register ex_db (ex_req POST (Some 3) [(''status'', ''completed'')]) 1 = (Inl NotFound, ex_db)"
proof -
  have h: "req_user (ex_req POST (Some 3) [(''status'', ''completed'')]) = Some 3"
    "qd_get (req_query (ex_req POST (Some 3) [(''status'', ''completed'')])) ''category'' = None"
    "qd_get (req_query (ex_req POST (Some 3) [(''status'', ''completed'')])) ''status'' = Some ''completed''"
    "''completed'' \<noteq> []" "ex_event 1 ''Concert'' 1 (Some 1) (Some 2) \<in> set (events ex_db)"
    "event_status_value (ev_status (ex_event 1 ''Concert'' 1 (Some 1) (Some 2))) \<noteq> ''completed''"
    by (simp_all add: model_simps)
  from detail_lookup_depends_on_query [OF ex_db_wf h] show ?thesis by (simp add: ex_event_def)
qed

theorem category_param_value_error_witness:
  "event_list ex_db (ex_req GET None [(''category'', ''music'')])
     = Inl (ServerError ''ValueError: Field 'id' expected a number'')
   \<and> event_retrieve ex_db (ex_req GET None [(''category'', ''music'')]) 1
     = Inl (ServerError ''ValueError: Field 'id' expected a number'')"
proof -
  have h: "qd_get (req_query (ex_req GET None [(''category'', ''music'')])) ''category'' = Some ''music''"
    "''music'' \<noteq> []" "py_int ''music'' = None"
    "is_authenticated_or_read_only (ex_req GET None [(''category'', ''music'')])"
    by (simp_all add: model_simps)
  from category_param_value_error [OF h] show ?thesis .
qed

theorem attendance_create_bypasses_capacity_witness:
  "\<exists>out d'. attendance_create ex_db (ex_req POST (Some 3) []) \<lparr>ai_event_id = Given 3, ai_user_id = Given 3, ai_status = None\<rparr>
     = (Inr (201, out), d') \<and> length (event_attendances d' 3) = 2 \<and> capacity_reached ex_db (ex_event 3 ''Workshop'' 1 (Some 1) (Some 1))"
proof -
  have h: "req_user (ex_req POST (Some 3) []) = Some 3"
    "find_event ex_db 3 = Some (ex_event 3 ''Workshop'' 1 (Some 1) (Some 1))"
    "(3::pk) \<in> user_id ` set (users ex_db)" "\<not> attendance_exists ex_db 3 3"
    "capacity_reached ex_db (ex_event 3 ''Workshop'' 1 (Some 1) (Some 1))"
    by (simp_all add: model_simps)
  have "length (event_attendances ex_db 3) = 1" by (simp add: model_simps)
  with attendance_create_bypasses_capacity [OF ex_db_wf h] h(5) show ?thesis by (simp add: numeral_2_eq_2)
qed

theorem attendance_create_for_other_user_witness:
  "\<exists>out d'. attendance_create ex_db (ex_req POST (Some 3) []) \<lparr>ai_event_id = Given 2, ai_user_id = Given 1, ai_status = None\<rparr>
     = (Inr (201, out), d') \<and> uo_id (ao_user out) = 1
     \<and> (\<exists>a \<in> set (attendances d'). att_user a = 1 \<and> att_event a = 2)"
proof -
  have h: "req_user (ex_req POST (Some 3) []) = Some 3" "find_user ex_db 3 = Some (ex_user 3 ''carol'' False)"
    "\<not> is_staff (ex_user 3 ''carol'' False)" "(2::pk) \<in> ev_id ` set (events ex_db)"
    "(1::pk) \<in> user_id ` set (users ex_db)" "(1::pk) \<noteq> 3" "\<not> attendance_exists ex_db 2 1"
    by (simp_all add: model_simps)
  from attendance_create_for_other_user [OF ex_db_wf h] show ?thesis .
qed

theorem reads_never_write_witness:
  "snd (dispatch ex_db (ex_req POST None []) ''events/1/register/'' trace_body) = ex_db
   \<and> snd (dispatch ex_db (ex_req GET (Some 2) []) ''events/'' trace_body) = ex_db"
proof -
  have h: "safe_method (req_method (ex_req POST None [])) \<or> req_user (ex_req POST None []) = None"
      "safe_method (req_method (ex_req GET (Some 2) [])) \<or> req_user (ex_req GET (Some 2) []) = None"
    by (simp_all add: model_simps)
  from reads_never_write [OF h(1)] reads_never_write [OF h(2)] show ?thesis by blast
qed

theorem conc_preserves_wf_witness:
  "db_wf (fst (run_schedule (ex_db, [(ex_req POST (Some 3) [], 1, AtGet), (ex_req POST (Some 4) [], 1, AtGet)])
     [0, 1, 0, 1, 0, 1, 0, 1]))"
proof -
  have "db_wf (fst (ex_db, [(ex_req POST (Some 3) [], 1::pk, AtGet), (ex_req POST (Some 4) [], 1, AtGet)]))"
    using ex_db_wf by simp
  from conc_preserves_wf [OF run_schedule_reach this] show ?thesis .
qed

theorem reachable_category_names_witness:
  "map cat_name (categories (snd (dispatch empty_db (post_as 1) ''categories/''
      (trace_body\<lparr>b_category := \<lparr>ci_name = Some '' Jazz '', ci_description = Absent\<rparr>\<rparr>)))) = [''Jazz'']
   \<and> list_all (\<lambda>c. 0 < length (cat_name c) \<and> length (cat_name c) \<le> 100)
       (categories (snd (dispatch empty_db (post_as 1) ''categories/''
          (trace_body\<lparr>b_category := \<lparr>ci_name = Some '' Jazz '', ci_description = Absent\<rparr>\<rparr>))))"
proof -
  have "map cat_name (categories (snd (dispatch empty_db (post_as 1) ''categories/''
      (trace_body\<lparr>b_category := \<lparr>ci_name = Some '' Jazz '', ci_description = Absent\<rparr>\<rparr>)))) = [''Jazz'']"
    by (simp add: model_simps Let_def)
  with reachable_category_names [OF api_reachable.request [OF api_reachable.start]]
  show ?thesis by (simp add: list_all_iff)
qed

theorem register_refines_spec_witness:
  "reg_outcome_of (fst (register ex_db (ex_req POST (Some 3) []) 1)) = Some RegCreated
   \<and> att_pairs (snd (register ex_db (ex_req POST (Some 3) []) 1)) = {(1, 3), (1, 2), (3, 2)}"
proof -
  have h: "req_user (ex_req POST (Some 3) []) = Some 3" "(3::pk) \<in> user_id ` set (users ex_db)"
      "event_get_object ex_db (ex_req POST (Some 3) []) 1 = Inr (ex_event 1 ''Concert'' 1 (Some 1) (Some 2))"
      "max_attendees (ex_event 1 ''Concert'' 1 (Some 1) (Some 2)) \<noteq> Some 0"
    by (simp_all add: model_simps)
  have pairs: "att_pairs ex_db = {(1, 2), (3, 2)}" by (simp add: att_pairs_def ex_db_def)
  have "attendees_of {(1, 2), (3, 2)} 1 = {2}" by (auto simp: attendees_of_def)
  then have "spec_register (att_pairs ex_db) (Some 2) 1 3 = (RegCreated, {(1, 3), (1, 2), (3, 2)})"
    by (simp add: pairs spec_register_def)
  with register_refines_spec [OF ex_db_wf h] show ?thesis by (simp add: ex_event_def event_defaults_def)
qed

theorem register_fills_capacity_witness:
  "db_wf ex_db \<and> event_get_object ex_db (ex_req POST None []) 1 = Inr (ex_event 1 ''Concert'' 1 (Some 1) (Some 2))
   \<and> max_attendees (ex_event 1 ''Concert'' 1 (Some 1) (Some 2)) = Some 2
   \<and> length (event_attendances ex_db 1) + length [3::pk] = 2 \<and> distinct [3::pk]
   \<and> set [3::pk] \<subseteq> user_id ` set (users ex_db) \<and> list_all (\<lambda>u. \<not> attendance_exists ex_db 1 u) [3]
   \<and> (1::pk) \<notin> set [3] \<and> \<not> attendance_exists ex_db 1 1
   \<and> list_all (\<lambda>res. \<exists>out. res = Inr (201, out)) (fst (register_all ex_db (ex_req POST None []) 1 [3]))
   \<and> length (event_attendances (snd (register_all ex_db (ex_req POST None []) 1 [3])) 1) = 2
   \<and> register (snd (register_all ex_db (ex_req POST None []) 1 [3])) ((ex_req POST None [])\<lparr>req_user := Some 1\<rparr>) 1
       = (Inl (BadRequest msg_capacity), snd (register_all ex_db (ex_req POST None []) 1 [3]))"
proof -
  have h: "event_get_object ex_db (ex_req POST None []) 1 = Inr (ex_event 1 ''Concert'' 1 (Some 1) (Some 2))"
      "max_attendees (ex_event 1 ''Concert'' 1 (Some 1) (Some 2)) = Some 2" "(0::nat) < 2"
      "length (event_attendances ex_db 1) + length [3::pk] = 2" "distinct [3::pk]"
      "set [3::pk] \<subseteq> user_id ` set (users ex_db)" "list_all (\<lambda>u. \<not> attendance_exists ex_db 1 u) [3]"
      "(1::pk) \<notin> set [3]" "\<not> attendance_exists ex_db 1 1"
    by (simp_all add: model_simps)
  from register_fills_capacity [OF ex_db_wf h] h ex_db_wf show ?thesis by simp
qed

theorem cancelling_does_not_free_place_witness:
  "db_wf (snd (register ex_db (ex_req POST (Some 3) []) 1))
   \<and> event_get_object (snd (register ex_db (ex_req POST (Some 3) []) 1)) (ex_req POST (Some 1) []) 1
       = Inr (ex_event 1 ''Concert'' 1 (Some 1) (Some 2))
   \<and> length (event_attendances (snd (register ex_db (ex_req POST (Some 3) []) 1)) 1) = 2
   \<and> fst (attendance_update (snd (register ex_db (ex_req POST (Some 3) []) 1)) (ex_req PATCH (Some 2) []) 1
          \<lparr>ai_event_id = Absent, ai_user_id = Absent, ai_status = Some ''cancelled''\<rparr>) \<noteq> Inl NotFound
   \<and> map att_status (attendances (snd (attendance_update (snd (register ex_db (ex_req POST (Some 3) []) 1))
          (ex_req PATCH (Some 2) []) 1 \<lparr>ai_event_id = Absent, ai_user_id = Absent, ai_status = Some ''cancelled''\<rparr>)))
       = [Att_Cancelled, Att_Cancelled, Registered]
   \<and> \<not> attendance_exists (snd (attendance_update (snd (register ex_db (ex_req POST (Some 3) []) 1))
          (ex_req PATCH (Some 2) []) 1 \<lparr>ai_event_id = Absent, ai_user_id = Absent, ai_status = Some ''cancelled''\<rparr>)) 1 1
   \<and> register (snd (attendance_update (snd (register ex_db (ex_req POST (Some 3) []) 1))
          (ex_req PATCH (Some 2) []) 1 \<lparr>ai_event_id = Absent, ai_user_id = Absent, ai_status = Some ''cancelled''\<rparr>))
        (ex_req POST (Some 1) []) 1
     = (Inl (BadRequest msg_capacity), snd (attendance_update (snd (register ex_db (ex_req POST (Some 3) []) 1))
          (ex_req PATCH (Some 2) []) 1 \<lparr>ai_event_id = Absent, ai_user_id = Absent, ai_status = Some ''cancelled''\<rparr>))"
proof -
  define d where "d = snd (register ex_db (ex_req POST (Some 3) []) 1)"
  define i where "i = \<lparr>ai_event_id = Absent, ai_user_id = Absent, ai_status = Some ''cancelled''\<rparr>"
  define d1 where "d1 = snd (attendance_update d (ex_req PATCH (Some 2) []) 1 i)"
  have d: "d = ex_db\<lparr>attendances := attendances ex_db @ [\<lparr>att_id = 3, att_event = 1, att_user = 3,
      att_status = Registered, registered_at = 100\<rparr>], next_attendance_id := 4\<rparr>"
    by (simp add: d_def model_simps Let_def)
  have h: "db_wf d" "ai_event_id i = Absent" "req_user (ex_req POST (Some 1) []) = Some 1"
      "event_get_object d (ex_req POST (Some 1) []) 1 = Inr (ex_event 1 ''Concert'' 1 (Some 1) (Some 2))"
      "max_attendees (ex_event 1 ''Concert'' 1 (Some 1) (Some 2)) = Some 2" "(0::nat) < 2"
      "2 \<le> length (event_attendances d 1)"
    by (simp_all add: d i_def model_simps)
  have d1: "d1 = d\<lparr>attendances := [\<lparr>att_id = 1, att_event = 1, att_user = 2, att_status = Att_Cancelled, registered_at = 5\<rparr>,
        \<lparr>att_id = 2, att_event = 3, att_user = 2, att_status = Att_Cancelled, registered_at = 6\<rparr>,
        \<lparr>att_id = 3, att_event = 1, att_user = 3, att_status = Registered, registered_at = 100\<rparr>]\<rparr>"
    by (simp add: d1_def d i_def model_simps Let_def)
  have upd: "attendance_update d (ex_req PATCH (Some 2) []) 1 i
      = (fst (attendance_update d (ex_req PATCH (Some 2) []) 1 i), d1)" by (simp add: d1_def)
  have more: "fst (attendance_update d (ex_req PATCH (Some 2) []) 1 i) \<noteq> Inl NotFound"
      "map att_status (attendances d1) = [Att_Cancelled, Att_Cancelled, Registered]"
      "\<not> attendance_exists d1 1 1" "length (event_attendances d 1) = 2"
    by (simp_all add: d1 d i_def model_simps)
  from cancelling_does_not_free_place [OF h(1) upd h(2-7) more(3)] h more
  show ?thesis by (simp add: d_def d1_def i_def)
qed

theorem race_overruns_capacity_witness:
  "req_user (ex_req POST (Some 3) []) = Some 3 \<and> req_user (ex_req POST (Some 1) []) = Some 1
   \<and> event_get_object ex_db (ex_req POST (Some 3) []) 1 = Inr (ex_event 1 ''Concert'' 1 (Some 1) (Some 2))
   \<and> event_get_object ex_db (ex_req POST (Some 1) []) 1 = Inr (ex_event 1 ''Concert'' 1 (Some 1) (Some 2))
   \<and> \<not> attendance_exists ex_db 1 3 \<and> \<not> attendance_exists ex_db 1 1
   \<and> Suc (length (event_attendances ex_db 1)) = 2
   \<and> (\<exists>s'. conc_step\<^sup>*\<^sup>* (ex_db, [(ex_req POST (Some 3) [], 1, AtGet), (ex_req POST (Some 1) [], 1, AtGet)]) s'
     \<and> (\<exists>out1 out2. snd s' = [(ex_req POST (Some 3) [], 1, Finished (Inr (201, out1))),
                               (ex_req POST (Some 1) [], 1, Finished (Inr (201, out2)))])
     \<and> length (event_attendances (fst s') 1) = Suc 2)"
proof -
  have h: "req_user (ex_req POST (Some 3) []) = Some 3" "req_user (ex_req POST (Some 1) []) = Some 1"
      "(3::pk) \<noteq> 1" "(3::pk) \<in> user_id ` set (users ex_db)" "(1::pk) \<in> user_id ` set (users ex_db)"
      "event_get_object ex_db (ex_req POST (Some 3) []) 1 = Inr (ex_event 1 ''Concert'' 1 (Some 1) (Some 2))"
      "event_get_object ex_db (ex_req POST (Some 1) []) 1 = Inr (ex_event 1 ''Concert'' 1 (Some 1) (Some 2))"
      "\<not> attendance_exists ex_db 1 3" "\<not> attendance_exists ex_db 1 1"
      "max_attendees (ex_event 1 ''Concert'' 1 (Some 1) (Some 2)) = Some 2"
      "Suc (length (event_attendances ex_db 1)) = 2"
    by (simp_all add: model_simps)
  from race_overruns_capacity [OF ex_db_wf h] h show ?thesis by blast
qed

theorem race_duplicate_server_error_witness:
  "req_user (ex_req POST (Some 3) []) = Some 3 \<and> (3::pk) \<in> user_id ` set (users ex_db)
   \<and> event_get_object ex_db (ex_req POST (Some 3) []) 2 = Inr (ex_event 2 ''Meetup'' 2 None None)
   \<and> \<not> attendance_exists ex_db 2 3 \<and> \<not> capacity_reached ex_db (ex_event 2 ''Meetup'' 2 None None)
   \<and> (\<exists>s'. conc_step\<^sup>*\<^sup>* (ex_db, [(ex_req POST (Some 3) [], 2, AtGet), (ex_req POST (Some 3) [], 2, AtGet)]) s'
     \<and> (\<exists>out m. snd s' = [(ex_req POST (Some 3) [], 2, Finished (Inr (201, out))),
                          (ex_req POST (Some 3) [], 2, Finished (Inl (ServerError m)))])
     \<and> length (filter (\<lambda>a. att_event a = 2 \<and> att_user a = 3) (attendances (fst s'))) = 1)"
proof -
  have h: "req_user (ex_req POST (Some 3) []) = Some 3" "(3::pk) \<in> user_id ` set (users ex_db)"
      "event_get_object ex_db (ex_req POST (Some 3) []) 2 = Inr (ex_event 2 ''Meetup'' 2 None None)"
      "\<not> attendance_exists ex_db 2 3" "\<not> capacity_reached ex_db (ex_event 2 ''Meetup'' 2 None None)"
    by (simp_all add: model_simps)
  from race_duplicate_server_error [OF ex_db_wf h(1) h(1) h(2) h(3) h(3) h(4) h(5)] h show ?thesis by blast
qed

end
